(* ===== verification/Prelude.thy ===== *)
theory Prelude
  imports Main "HOL-Library.Word" "HOL-Library.Monad_Syntax"
begin

text \<open>
  Shared vocabulary of the development.

  An operation of the C code is a function from its arguments and the state it reads to
  \<open>(result \<times> state) option\<close>.  \<open>None\<close> means that the C call does not return normally:
  a failed \<open>ASSERT\<close>, an access outside an array or through a null pointer, or a loop that
  never ends.  A status code the C function returns is an ordinary value of the result.
  The do-notation below is the one of the option monad.

  The theory also holds the checked array accesses, the counted loop, the bounded byte
  copy (\<open>memcpy\<close>) and the little-endian layout of 32-bit words in a byte buffer.
\<close>

unbundle bit_operations_syntax

declare upt_rec_numeral [simp del]

section \<open>Types of cmn.h\<close>

type_synonym u8 = "8 word"
type_synonym u16 = "16 word"
type_synonym u32 = "32 word"

text \<open>\<open>SPARE\<close> is an array of two 32-bit words.\<close>

type_synonym SPARE = "u32 \<times> u32"

named_theorems cfg \<open>values of the configuration constants\<close>
named_theorems exec \<open>equations of the basic operations of the option monad\<close>

section \<open>Assertions, arrays, loops\<close>

definition ASSERT :: "bool \<Rightarrow> unit option" where
  "ASSERT b = (if b then Some () else None)"

lemma ASSERT_True [simp]: "ASSERT True = Some ()"
  by (simp add: ASSERT_def)

lemma ASSERT_False [simp]: "ASSERT False = None"
  by (simp add: ASSERT_def)

lemma ASSERT_eq_Some [simp]: "ASSERT b = Some u \<longleftrightarrow> b"
  by (simp add: ASSERT_def)

lemma bind_ASSERT_eq_Some [simp]:
  "(ASSERT b \<bind> f) = Some x \<longleftrightarrow> b \<and> f () = Some x"
  by (simp add: ASSERT_def)

lemma bind_ASSERT_True: "b \<Longrightarrow> (ASSERT b \<bind> f) = f ()"
  by simp

text \<open>Reading and writing an element of a C array: out of range is no result.\<close>

definition rd :: "'a list \<Rightarrow> nat \<Rightarrow> 'a option" where
  "rd xs i = (if i < length xs then Some (xs ! i) else None)"

definition wr :: "'a list \<Rightarrow> nat \<Rightarrow> 'a \<Rightarrow> 'a list option" where
  "wr xs i v = (if i < length xs then Some (xs[i := v]) else None)"

lemma rd_in [exec]: "i < length xs \<Longrightarrow> rd xs i = Some (xs ! i)"
  by (simp add: rd_def)

lemma wr_in [exec]: "i < length xs \<Longrightarrow> wr xs i v = Some (xs[i := v])"
  by (simp add: wr_def)

lemma rd_eq_Some: "rd xs i = Some x \<longleftrightarrow> i < length xs \<and> xs ! i = x"
  by (simp add: rd_def)

lemma wr_eq_Some: "wr xs i v = Some ys \<longleftrightarrow> i < length xs \<and> xs[i := v] = ys"
  by (simp add: wr_def)

text \<open>A counted \<open>for\<close> loop: the body runs once per index, threading the state.\<close>

fun foldM :: "('i \<Rightarrow> 's \<Rightarrow> 's option) \<Rightarrow> 'i list \<Rightarrow> 's \<Rightarrow> 's option" where
  "foldM f [] s = Some s"
| "foldM f (i # is) s = do { s' \<leftarrow> f i s; foldM f is s' }"

lemma foldM_append: "foldM f (xs @ ys) s = do { s' \<leftarrow> foldM f xs s; foldM f ys s' }"
  by (induction xs arbitrary: s) (auto split: Option.bind_split)

lemma foldM_cong [fundef_cong]:
  assumes "xs = ys" "s = t" "\<And>x u. x \<in> set ys \<Longrightarrow> f x u = g x u"
  shows "foldM f xs s = foldM g ys t"
  using assms(3) unfolding assms(1,2)
  by (induction ys arbitrary: t) (auto split: Option.bind_split)

text \<open>The rule for a counted loop with an invariant indexed by the iterations done.\<close>

lemma foldM_upt_invariant:
  assumes "I a s"
    and "\<And>i s. a \<le> i \<Longrightarrow> i < b \<Longrightarrow> I i s \<Longrightarrow> \<exists>s'. f i s = Some s' \<and> I (Suc i) s'"
    and "a \<le> b"
  shows "\<exists>s'. foldM f [a..<b] s = Some s' \<and> I b s'"
  using assms
proof (induction "b - a" arbitrary: a s)
  case 0
  then show ?case by simp
next
  case (Suc n)
  then have ab: "a < b" by simp
  obtain s1 where s1: "f a s = Some s1" "I (Suc a) s1"
    using Suc.prems(1,2) ab by blast
  have "\<exists>s'. foldM f [Suc a..<b] s1 = Some s' \<and> I b s'"
    by (rule Suc.hyps(1)) (use Suc s1 ab in auto)
  then show ?case
    using s1 ab by (simp add: upt_conv_Cons)
qed

lemma foldM_inv_list:
  assumes "I s" and "\<And>x s. x \<in> set xs \<Longrightarrow> I s \<Longrightarrow> \<exists>s'. f x s = Some s' \<and> I s'"
  shows "\<exists>s'. foldM f xs s = Some s' \<and> I s'"
  using assms
proof (induction xs arbitrary: s)
  case Nil
  then show ?case by simp
next
  case (Cons x xs)
  from Cons.prems obtain s1 where "f x s = Some s1" "I s1"
    by fastforce
  with Cons.IH [of s1] Cons.prems(2) show ?case by auto
qed

section \<open>Byte buffers\<close>

text \<open>
  \<open>memcpy_at dst off src\<close> is \<open>memcpy (dst + off, src, n)\<close> with \<open>n = length src\<close>; a copy
  that would leave the destination object is no result.
\<close>

definition memcpy_at :: "u8 list \<Rightarrow> nat \<Rightarrow> u8 list \<Rightarrow> u8 list option" where
  "memcpy_at dst off src =
     (if off + length src \<le> length dst
      then Some (take off dst @ src @ drop (off + length src) dst) else None)"

definition memget :: "u8 list \<Rightarrow> nat \<Rightarrow> nat \<Rightarrow> u8 list option" where
  "memget src off n = (if off + n \<le> length src then Some (take n (drop off src)) else None)"

lemma memcpy_at_in [exec]:
  "off + length src \<le> length dst \<Longrightarrow>
   memcpy_at dst off src = Some (take off dst @ src @ drop (off + length src) dst)"
  by (simp add: memcpy_at_def)

lemma memget_in [exec]:
  "off + n \<le> length src \<Longrightarrow> memget src off n = Some (take n (drop off src))"
  by (simp add: memget_def)

lemma length_memcpy_at: "memcpy_at dst off src = Some d \<Longrightarrow> length d = length dst"
  by (auto simp: memcpy_at_def split: if_splits)

lemma memget_memcpy_same:
  assumes "memcpy_at dst off src = Some d" "n = length src"
  shows "memget d off n = Some src"
  using assms by (auto simp: memcpy_at_def memget_def split: if_splits)

lemma memget_memcpy_other:
  assumes "memcpy_at dst off src = Some d" "i + n \<le> off \<or> off + length src \<le> i"
  shows "memget d i n = memget dst i n"
proof -
  from assms(1) have le: "off + length src \<le> length dst"
    and d: "d = take off dst @ src @ drop (off + length src) dst"
    by (auto simp: memcpy_at_def split: if_splits)
  have len: "length d = length dst" using le d by simp
  have "take n (drop i d) = take n (drop i dst)" if le2: "i + n \<le> length dst"
  proof (rule nth_equalityI)
    show "length (take n (drop i d)) = length (take n (drop i dst))" using len by simp
  next
    fix j assume "j < length (take n (drop i d))"
    then have j: "j < n" "i + j < length dst" using len by auto
    have "d ! (i + j) = dst ! (i + j)"
      using assms(2) j le by (auto simp: d nth_append)
    then show "take n (drop i d) ! j = take n (drop i dst) ! j"
      using j len by simp
  qed
  then show ?thesis by (simp add: memget_def len)
qed

section \<open>Little-endian layout of 32-bit words\<close>

definition bytes_of_u32 :: "u32 \<Rightarrow> u8 list" where
  "bytes_of_u32 w =
     [ucast w, ucast (drop_bit 8 w), ucast (drop_bit 16 w), ucast (drop_bit 24 w)]"

definition u32_of_4 :: "u8 \<Rightarrow> u8 \<Rightarrow> u8 \<Rightarrow> u8 \<Rightarrow> u32" where
  "u32_of_4 a b c d =
     ucast a OR push_bit 8 (ucast b) OR push_bit 16 (ucast c) OR push_bit 24 (ucast d)"

fun bytes_of_u32s :: "u32 list \<Rightarrow> u8 list" where
  "bytes_of_u32s [] = []"
| "bytes_of_u32s (w # ws) = bytes_of_u32 w @ bytes_of_u32s ws"

fun u32s_of_bytes :: "u8 list \<Rightarrow> u32 list" where
  "u32s_of_bytes (a # b # c # d # bs) = u32_of_4 a b c d # u32s_of_bytes bs"
| "u32s_of_bytes bs = []"

lemma u32_of_4_bytes:
  "u32_of_4 (ucast w) (ucast (drop_bit 8 w)) (ucast (drop_bit 16 w)) (ucast (drop_bit 24 w)) = w"
proof (rule bit_word_eqI)
  fix n assume n: "n < LENGTH(32)"
  then consider "n < 8" | "8 \<le> n" "n < 16" | "16 \<le> n" "n < 24" | "24 \<le> n" "n < 32"
    by force
  then show "bit (u32_of_4 (ucast w) (ucast (drop_bit 8 w)) (ucast (drop_bit 16 w))
      (ucast (drop_bit 24 w))) n = bit w n"
    by cases (auto simp: u32_of_4_def bit_simps)
qed

lemma bit_u8_beyond: "8 \<le> n \<Longrightarrow> \<not> bit (a :: u8) n"
  using bit_imp_le_length [of a n] by auto

lemma bytes_of_u32_of_4: "bytes_of_u32 (u32_of_4 a b c d) = [a, b, c, d]"
  by (auto simp: bytes_of_u32_def u32_of_4_def bit_simps bit_u8_beyond intro!: bit_word_eqI)

lemma length_bytes_of_u32 [simp]: "length (bytes_of_u32 w) = 4"
  by (simp add: bytes_of_u32_def)

lemma length_bytes_of_u32s [simp]: "length (bytes_of_u32s ws) = 4 * length ws"
  by (induction ws) auto

lemma u32s_of_bytes_of_u32s [simp]: "u32s_of_bytes (bytes_of_u32s ws) = ws"
  by (induction ws) (simp_all add: bytes_of_u32_def u32_of_4_bytes)

lemma length_u32s_of_bytes [simp]: "length (u32s_of_bytes bs) = length bs div 4"
  by (induction bs rule: u32s_of_bytes.induct) auto

lemma bytes_of_u32s_of_bytes: "4 dvd length bs \<Longrightarrow> bytes_of_u32s (u32s_of_bytes bs) = bs"
proof (induction bs rule: u32s_of_bytes.induct)
  case (1 a b c d bs)
  then have "4 dvd length bs" by (simp, presburger)
  with 1 show ?case by (simp add: bytes_of_u32_of_4)
qed (auto, presburger+)

text \<open>The word that a 32-bit load finds at a byte address.\<close>

definition word_at :: "u8 list \<Rightarrow> nat \<Rightarrow> u32" where
  "word_at bs k = u32_of_4 (bs ! k) (bs ! (k + 1)) (bs ! (k + 2)) (bs ! (k + 3))"

lemma word_at_Suc: "word_at (bytes_of_u32 w @ bs) (4 + k) = word_at bs k"
  by (simp add: word_at_def bytes_of_u32_def add.commute)

text \<open>Word \<open>j\<close> of an array is at the byte address \<open>4 * j\<close>.\<close>

lemma word_at_words: "j < length ws \<Longrightarrow> word_at (bytes_of_u32s ws) (4 * j) = ws ! j"
proof (induction ws arbitrary: j)
  case (Cons w ws)
  show ?case
  proof (cases j)
    case 0
    then show ?thesis by (simp add: word_at_def bytes_of_u32_def u32_of_4_bytes)
  next
    case (Suc i)
    then show ?thesis using Cons word_at_Suc [of w "bytes_of_u32s ws" "4 * i"] by simp
  qed
qed simp

text \<open>An array of words, or consecutive members of a structure, at a byte address.\<close>

definition words_at :: "u8 list \<Rightarrow> nat \<Rightarrow> u32 list \<Rightarrow> bool" where
  "words_at bs k ws \<longleftrightarrow> (\<forall>j < length ws. word_at bs (k + 4 * j) = ws ! j)"

lemma words_atD: "words_at bs k ws \<Longrightarrow> j < length ws \<Longrightarrow> word_at bs (k + 4 * j) = ws ! j"
  by (simp add: words_at_def)

lemma words_at_shift: "k = length as + k' \<Longrightarrow> words_at (as @ bs) k ws = words_at bs k' ws"
  by (simp add: words_at_def word_at_def nth_append add.assoc)

lemma words_at_bytes: "k = 4 * length xs \<Longrightarrow> words_at (bytes_of_u32s (xs @ ws @ ys)) k ws"
proof -
  assume k: "k = 4 * length xs"
  have "word_at (bytes_of_u32s (xs @ ws @ ys)) (4 * length xs + 4 * j) = ws ! j" if "j < length ws" for j
    using word_at_words [of "length xs + j" "xs @ ws @ ys"] that by (simp add: nth_append algebra_simps)
  then show ?thesis unfolding words_at_def k by blast
qed

lemma words_at_front: "words_at (bytes_of_u32s ws) 0 ws"
  using words_at_bytes [of 0 "[]" ws "[]"] by simp

lemma words_at_prefix: "words_at as k ws \<Longrightarrow> k + 4 * length ws \<le> length as \<Longrightarrow> words_at (as @ bs) k ws"
  by (simp add: words_at_def word_at_def nth_append)

section \<open>Words and indices\<close>

lemma unat_plus_1: "unat w < 4294967295 \<Longrightarrow> unat (w + 1 :: u32) = unat w + 1"
  by (simp add: unat_word_ariths)

lemma unat_of_nat_u32: "n < 4294967296 \<Longrightarrow> unat (of_nat n :: u32) = n"
  by (simp add: unat_of_nat take_bit_nat_eq_self)

lemma unat_drop_bit_u32: "unat (drop_bit n (w :: u32)) = unat w div 2 ^ n"
  using unsigned_less [of w, where ?'a = nat]
  by (simp add: unsigned_drop_bit_eq take_bit_nat_eq_self flip: drop_bit_eq_div)

lemma unat_push_bit_u32:
  "unat w * 2 ^ n < 2 ^ 32 \<Longrightarrow> unat (push_bit n (w :: u32)) = unat w * 2 ^ n"
  by (simp add: unsigned_push_bit_eq take_bit_nat_eq_self flip: push_bit_eq_mult)

lemma unat_take_bit_u32: "unat (take_bit n (w :: u32)) = unat w mod 2 ^ n"
  by (simp add: unsigned_take_bit_eq flip: take_bit_eq_mod)

lemma nat_pack_inject:
  fixes a :: nat
  assumes "a * k + r = b * k + r'" "r < k" "r' < k"
  shows "a = b \<and> r = r'"
proof -
  have "(a * k + r) div k = a" "(b * k + r') div k = b" using assms(2,3) by simp_all
  then show ?thesis using assms(1) by simp
qed

end
