(* ===== verification/Config.thy ===== *)
theory Config
  imports Prelude
begin

text \<open>
  The compile-time configuration (cfg.h, cmn.h) with the simulated NAND that the unit tests of
  the repository are built with (\<open>CFG_NAND_TYPE = SIM_NAND\<close>, \<open>SIM_TEST = TRUE\<close>), the derived
  sizes, the sentinel values and the status codes.  A preprocessor constant has no type of its
  own: the constants that the code compares both with array indices and with stored 32-bit words
  are polymorphic in the number type.  Their values are collected in \<open>cfg\<close>.
\<close>

section \<open>cfg.h\<close>

definition STATIC_WL_THRESHOLD :: u32 where "STATIC_WL_THRESHOLD = 1000"
definition GOOD_BLOCK_PERCENT :: nat where "GOOD_BLOCK_PERCENT = 98"
definition OVER_PROVISION_RATE :: u32 where "OVER_PROVISION_RATE = 3"
definition PMT_CACHE_COUNT :: nat where "PMT_CACHE_COUNT = 4"

definition SECTOR_SIZE_SHIFT :: nat where "SECTOR_SIZE_SHIFT = 9"
definition SECTOR_PER_PAGE_SHIFT :: nat where "SECTOR_PER_PAGE_SHIFT = 3"
definition PAGE_PER_BLOCK_SHIFT :: nat where "PAGE_PER_BLOCK_SHIFT = 5"
definition BLOCK_PER_PLANE_SHIFT :: nat where "BLOCK_PER_PLANE_SHIFT = 7"
definition PLANE_PER_DIE_SHIFT :: nat where "PLANE_PER_DIE_SHIFT = 1"
definition DIE_PER_CHIP_SHIFT :: nat where "DIE_PER_CHIP_SHIFT = 1"
definition CHIP_COUNT_SHIFT :: nat where "CHIP_COUNT_SHIFT = 2"
definition CFG_NAND_COL_CYCLE :: u8 where "CFG_NAND_COL_CYCLE = 2"
definition CFG_NAND_ROW_CYCLE :: u8 where "CFG_NAND_ROW_CYCLE = 4"

lemmas shift_defs = SECTOR_SIZE_SHIFT_def SECTOR_PER_PAGE_SHIFT_def PAGE_PER_BLOCK_SHIFT_def
  BLOCK_PER_PLANE_SHIFT_def PLANE_PER_DIE_SHIFT_def DIE_PER_CHIP_SHIFT_def CHIP_COUNT_SHIFT_def

section \<open>Derived sizes of cmn.h\<close>

definition SECTOR_SIZE :: nat where "SECTOR_SIZE = 2 ^ SECTOR_SIZE_SHIFT"
definition SECTOR_PER_PAGE :: nat where "SECTOR_PER_PAGE = 2 ^ SECTOR_PER_PAGE_SHIFT"
definition PAGE_SIZE :: nat where "PAGE_SIZE = SECTOR_SIZE * SECTOR_PER_PAGE"
definition PLANE_PER_DIE :: nat where "PLANE_PER_DIE = 2 ^ PLANE_PER_DIE_SHIFT"
definition SECTOR_PER_MPP :: "'a::semiring_1" where
  "SECTOR_PER_MPP = 2 ^ (SECTOR_PER_PAGE_SHIFT + PLANE_PER_DIE_SHIFT)"
definition SECTOR_PER_MPP_SHIFT :: nat where
  "SECTOR_PER_MPP_SHIFT = SECTOR_PER_PAGE_SHIFT + PLANE_PER_DIE_SHIFT"
definition MPP_SIZE_SHIFT :: nat where
  "MPP_SIZE_SHIFT = SECTOR_SIZE_SHIFT + SECTOR_PER_MPP_SHIFT"
definition MPP_SIZE :: nat where "MPP_SIZE = 2 ^ MPP_SIZE_SHIFT"
definition PAGE_PER_PHY_BLOCK :: "'a::semiring_1" where
  "PAGE_PER_PHY_BLOCK = 2 ^ PAGE_PER_BLOCK_SHIFT"
definition DIE_PER_CHIP :: "'a::semiring_1" where "DIE_PER_CHIP = 2 ^ DIE_PER_CHIP_SHIFT"
definition CHIP_COUNT :: "'a::semiring_1" where "CHIP_COUNT = 2 ^ CHIP_COUNT_SHIFT"
definition TOTAL_DIE_SHIFT :: nat where
  "TOTAL_DIE_SHIFT = DIE_PER_CHIP_SHIFT + CHIP_COUNT_SHIFT"
definition TOTAL_DIE_COUNT :: "'a::semiring_1" where "TOTAL_DIE_COUNT = 2 ^ TOTAL_DIE_SHIFT"
definition CFG_NAND_CHIP_COUNT :: nat where "CFG_NAND_CHIP_COUNT = 2 ^ CHIP_COUNT_SHIFT"
definition CFG_PHY_BLOCK_COUNT_SHIFT :: nat where
  "CFG_PHY_BLOCK_COUNT_SHIFT =
     BLOCK_PER_PLANE_SHIFT + PLANE_PER_DIE_SHIFT + DIE_PER_CHIP_SHIFT + CHIP_COUNT_SHIFT"
definition CFG_LOG_BLOCK_COUNT_SHIFT :: nat where
  "CFG_LOG_BLOCK_COUNT_SHIFT = BLOCK_PER_PLANE_SHIFT + DIE_PER_CHIP_SHIFT + CHIP_COUNT_SHIFT"
definition CFG_PHY_BLOCK_COUNT :: nat where
  "CFG_PHY_BLOCK_COUNT = 2 ^ CFG_PHY_BLOCK_COUNT_SHIFT"
definition CFG_LOG_BLOCK_COUNT :: "'a::semiring_1" where
  "CFG_LOG_BLOCK_COUNT = 2 ^ CFG_LOG_BLOCK_COUNT_SHIFT"
definition CFG_NAND_ROW_COUNT :: nat where
  "CFG_NAND_ROW_COUNT = CFG_PHY_BLOCK_COUNT * PAGE_PER_PHY_BLOCK"

text \<open>\<open>sizeof (PHY_BLOCK)\<close>, \<open>sizeof (UINT32)\<close> and their like are 4.\<close>

definition CFG_PHY_BLOCK_PER_AREA :: nat where "CFG_PHY_BLOCK_PER_AREA = MPP_SIZE div 2 div 4"
definition AREA_COUNT :: nat where
  "AREA_COUNT = (CFG_LOG_BLOCK_COUNT + CFG_PHY_BLOCK_PER_AREA - 1) div CFG_PHY_BLOCK_PER_AREA"
definition AREA_TABLE_SIZE :: nat where "AREA_TABLE_SIZE = MPP_SIZE div 2 div 2 div 4"
definition SPARE_BYTES_IN_PAGE :: nat where "SPARE_BYTES_IN_PAGE = 8"
definition BUFFER_COUNT :: nat where "BUFFER_COUNT = TOTAL_DIE_COUNT * 2 + 2"

section \<open>Sentinels\<close>

definition INVALID_LSADDR :: u32 where "INVALID_LSADDR = -1"
definition INVALID_OFFSET :: u32 where "INVALID_OFFSET = -1"
definition INVALID_BLOCK :: u32 where "INVALID_BLOCK = -1"
definition INVALID_AREA :: u32 where "INVALID_AREA = -1"
definition INVALID_INDEX :: u32 where "INVALID_INDEX = -1"
definition INVALID_PAGE :: u32 where "INVALID_PAGE = -1"
definition INVALID_EC :: u32 where "INVALID_EC = -1"
definition INVALID_CLUSTER :: u32 where "INVALID_CLUSTER = -1"
definition INVALID_CHIP :: u8 where "INVALID_CHIP = -1"
definition MAX_UINT8 :: u8 where "MAX_UINT8 = -1"
definition MAX_UINT32 :: u32 where "MAX_UINT32 = -1"

lemmas sentinel_defs = INVALID_LSADDR_def INVALID_OFFSET_def INVALID_BLOCK_def INVALID_AREA_def
  INVALID_INDEX_def INVALID_PAGE_def INVALID_EC_def INVALID_CLUSTER_def INVALID_CHIP_def
  MAX_UINT8_def MAX_UINT32_def

section \<open>Values\<close>

lemma cfg_nat [cfg]:
  "SECTOR_SIZE = 512" "SECTOR_PER_PAGE = 8" "PAGE_SIZE = 4096" "PLANE_PER_DIE = 2"
  "SECTOR_PER_MPP_SHIFT = 4" "MPP_SIZE_SHIFT = 13" "MPP_SIZE = 8192" "TOTAL_DIE_SHIFT = 3"
  "CFG_NAND_CHIP_COUNT = 4" "CFG_PHY_BLOCK_COUNT = 2048" "CFG_NAND_ROW_COUNT = 65536"
  "CFG_PHY_BLOCK_PER_AREA = 1024" "AREA_COUNT = 1" "AREA_TABLE_SIZE = 512"
  "BUFFER_COUNT = 18" "SPARE_BYTES_IN_PAGE = 8" "PMT_CACHE_COUNT = 4"
  by (simp_all add: SECTOR_SIZE_def SECTOR_PER_PAGE_def PAGE_SIZE_def PLANE_PER_DIE_def
      SECTOR_PER_MPP_SHIFT_def MPP_SIZE_SHIFT_def MPP_SIZE_def TOTAL_DIE_SHIFT_def
      CFG_NAND_CHIP_COUNT_def CFG_PHY_BLOCK_COUNT_def CFG_PHY_BLOCK_COUNT_SHIFT_def
      CFG_NAND_ROW_COUNT_def PAGE_PER_PHY_BLOCK_def CFG_PHY_BLOCK_PER_AREA_def AREA_COUNT_def
      CFG_LOG_BLOCK_COUNT_def CFG_LOG_BLOCK_COUNT_SHIFT_def AREA_TABLE_SIZE_def
      BUFFER_COUNT_def TOTAL_DIE_COUNT_def SPARE_BYTES_IN_PAGE_def PMT_CACHE_COUNT_def shift_defs)

lemma cfg_poly [cfg]:
  "SECTOR_PER_MPP = (16 :: nat)" "SECTOR_PER_MPP = (16 :: u32)"
  "PAGE_PER_PHY_BLOCK = (32 :: nat)" "PAGE_PER_PHY_BLOCK = (32 :: u32)"
  "DIE_PER_CHIP = (2 :: nat)" "DIE_PER_CHIP = (2 :: u32)"
  "CHIP_COUNT = (4 :: nat)" "CHIP_COUNT = (4 :: u32)"
  "TOTAL_DIE_COUNT = (8 :: nat)" "TOTAL_DIE_COUNT = (8 :: u32)"
  "CFG_LOG_BLOCK_COUNT = (1024 :: nat)" "CFG_LOG_BLOCK_COUNT = (1024 :: u32)"
  by (simp_all add: SECTOR_PER_MPP_def PAGE_PER_PHY_BLOCK_def DIE_PER_CHIP_def CHIP_COUNT_def
      TOTAL_DIE_COUNT_def TOTAL_DIE_SHIFT_def CFG_LOG_BLOCK_COUNT_def
      CFG_LOG_BLOCK_COUNT_SHIFT_def shift_defs)

section \<open>Status codes\<close>

datatype STATUS =
    STATUS_SUCCESS
  | STATUS_WRITE_PROTECTED
  | STATUS_BADBLOCK
  | STATUS_TOOMANY_BADBLOCK
  | STATUS_NO_DATA
  | STATUS_RECLAIM_NONE
  | STATUS_EMPTY_PAGE
  | STATUS_RAMBUFFER_FULL
  | STATUS_BDT_INIT_FAIL
  | STATUS_ROOT_INIT_FAIL
  | STATUS_HDI_INIT_FAIL
  | STATUS_UBI_FORMAT_ERROR
  | STATUS_DIE_BUSY
  | STATUS_ECC_ERROR
  | STATUS_PROGRAM_CHECKED
  | STATUS_WRITE_CACHE
  | STATUS_WRITE_REGROUP
  | STATUS_CACHE_WITH_REGROUP
  | STATUS_MERGE_WRITE_CACHE
  | STATUS_MERGE_WRITE_REGROUP
  | STATUS_FORMATTING
  | STATUS_NO_CONFIG
  | STATUS_NO_BUFFER
  | STATUS_ADDRESS_OVER
  | STATUS_WRITE_PROTECT
  | STATUS_SimulatedPowerLoss
  | STATUS_FAILURE

end
