(* ===== verification/Nand_Sim.thy ===== *)
theory Nand_Sim
  imports Config
begin

text \<open>
  The simulated NAND chips (core/mtd/mtd_nand_sim.c, command codes of core/mtd/mtd_nand.h).
  The state is the array of columns (pages) of every chip and the latched command and address.
  The spare bytes of a column are only ever copied from and to a \<open>SPARE\<close> as a whole and are
  kept as its two words.
\<close>

datatype NAND_CMD =
    CMD_READ | CMD_READ_COMMIT | CMD_READ_ID | CMD_RESET | CMD_PAGE_PROGRAM
  | CMD_PAGE_PROGRAM_COMMIT | CMD_PROGRAM_FAKE_COMMIT | CMD_PAGE_FAKE_PROGRAM
  | CMD_BLOCK_ERASE | CMD_BLOCK_ERASE_COMMIT | CMD_RANDOM_DATA_IN | CMD_RANDOM_DATA_OUT
  | CMD_RANDOM_DATA_OUT_COMMIT | CMD_READ_STATUS | CMD_READ_STATUS_DIE1 | CMD_READ_STATUS_DIE2

datatype SIM_NAND_STATE = SIM_NAND_PROGRAMMED | SIM_NAND_ERASED

datatype NAND_STATE =
  STATE_READ | STATE_PROGRAM | STATE_ERASE | STATE_READID | STATE_READSTATUS | STATE_RESET

record SIM_COLUMN =
  main_data :: "u8 list"
  spare_data :: SPARE
  col_state :: SIM_NAND_STATE

record nand =
  sim_nand :: "nat \<Rightarrow> nat \<Rightarrow> SIM_COLUMN"
  sim_nand_status :: u8
  sim_nand_state :: NAND_STATE
  sim_nand_chip :: u8
  sim_nand_col_addr :: u16
  sim_nand_row_addr :: u32

definition NAND_STATUS_FAIL_BIT :: u8 where "NAND_STATUS_FAIL_BIT = 0x01"
definition NAND_STATUS_READY_BIT :: u8 where "NAND_STATUS_READY_BIT = 0x40"

definition NAND_STATUS_BUSY :: "u8 \<Rightarrow> bool" where
  "NAND_STATUS_BUSY s \<longleftrightarrow> s AND NAND_STATUS_READY_BIT = 0"

definition NAND_STATUS_FAIL :: "u8 \<Rightarrow> bool" where
  "NAND_STATUS_FAIL s \<longleftrightarrow> s AND NAND_STATUS_FAIL_BIT = 1"

text \<open>\<open>memset (col, 0xff, sizeof (SIM_COLUMN))\<close>: all bytes \<open>0xff\<close>, the state \<open>-1\<close>.\<close>

definition erased_column :: SIM_COLUMN where
  "erased_column =
     \<lparr>main_data = replicate PAGE_SIZE 0xff, spare_data = (-1, -1), col_state = SIM_NAND_ERASED\<rparr>"

definition sim_nand_id :: "u8 list" where
  "sim_nand_id = [0xff, 0xff, 0x55, 0x05, 0x08]"

definition NAND_Init :: "nand \<Rightarrow> nand" where
  "NAND_Init n = n\<lparr>sim_nand_state := STATE_READ, sim_nand_chip := 0, sim_nand_col_addr := 0,
     sim_nand_row_addr := 0, sim_nand := (\<lambda>_ _. erased_column)\<rparr>"

definition NAND_SelectChip :: "u8 \<Rightarrow> nand \<Rightarrow> nand" where
  "NAND_SelectChip chip n = n\<lparr>sim_nand_chip := chip\<rparr>"

definition NAND_DeSelectChip :: "u8 \<Rightarrow> nand \<Rightarrow> nand" where
  "NAND_DeSelectChip chip n = n"

fun NAND_SendCMD :: "NAND_CMD \<Rightarrow> nand \<Rightarrow> nand" where
  "NAND_SendCMD CMD_READ n = n\<lparr>sim_nand_state := STATE_READ\<rparr>"
| "NAND_SendCMD CMD_READ_COMMIT n = n\<lparr>sim_nand_state := STATE_READ\<rparr>"
| "NAND_SendCMD CMD_READ_ID n = n\<lparr>sim_nand_state := STATE_READID\<rparr>"
| "NAND_SendCMD CMD_RESET n =
     n\<lparr>sim_nand_state := STATE_RESET, sim_nand_col_addr := 0, sim_nand_row_addr := 0\<rparr>"
| "NAND_SendCMD CMD_PAGE_PROGRAM n = n\<lparr>sim_nand_state := STATE_PROGRAM\<rparr>"
| "NAND_SendCMD CMD_PAGE_PROGRAM_COMMIT n = n\<lparr>sim_nand_state := STATE_PROGRAM\<rparr>"
| "NAND_SendCMD CMD_PROGRAM_FAKE_COMMIT n = n\<lparr>sim_nand_state := STATE_PROGRAM\<rparr>"
| "NAND_SendCMD CMD_PAGE_FAKE_PROGRAM n = n\<lparr>sim_nand_state := STATE_PROGRAM\<rparr>"
| "NAND_SendCMD CMD_BLOCK_ERASE n = n\<lparr>sim_nand_state := STATE_ERASE\<rparr>"
| "NAND_SendCMD CMD_BLOCK_ERASE_COMMIT n = n\<lparr>sim_nand_state := STATE_ERASE\<rparr>"
| "NAND_SendCMD CMD_RANDOM_DATA_IN n = n"
| "NAND_SendCMD CMD_RANDOM_DATA_OUT n = n\<lparr>sim_nand_state := STATE_READ\<rparr>"
| "NAND_SendCMD CMD_RANDOM_DATA_OUT_COMMIT n = n\<lparr>sim_nand_state := STATE_READ\<rparr>"
| "NAND_SendCMD CMD_READ_STATUS n = n\<lparr>sim_nand_state := STATE_READSTATUS\<rparr>"
| "NAND_SendCMD CMD_READ_STATUS_DIE1 n = n\<lparr>sim_nand_state := STATE_READSTATUS\<rparr>"
| "NAND_SendCMD CMD_READ_STATUS_DIE2 n = n\<lparr>sim_nand_state := STATE_READSTATUS\<rparr>"

text \<open>The column the latched chip and a row address; outside the array there is none.\<close>

definition sim_col :: "nand \<Rightarrow> u32 \<Rightarrow> SIM_COLUMN option" where
  "sim_col n row =
     (if unat (sim_nand_chip n) < CFG_NAND_CHIP_COUNT \<and> unat row < CFG_NAND_ROW_COUNT
      then Some (sim_nand n (unat (sim_nand_chip n)) (unat row)) else None)"

definition set_sim_col :: "u32 \<Rightarrow> SIM_COLUMN \<Rightarrow> nand \<Rightarrow> nand option" where
  "set_sim_col row c n =
     (if unat (sim_nand_chip n) < CFG_NAND_CHIP_COUNT \<and> unat row < CFG_NAND_ROW_COUNT
      then Some (n\<lparr>sim_nand := (sim_nand n)(unat (sim_nand_chip n) :=
             (sim_nand n (unat (sim_nand_chip n)))(unat row := c))\<rparr>)
      else None)"

definition NAND_SendAddr :: "u16 \<Rightarrow> u32 \<Rightarrow> u8 \<Rightarrow> u8 \<Rightarrow> nand \<Rightarrow> nand option" where
  "NAND_SendAddr col row col_cycle row_cycle n =
     (let n = n\<lparr>sim_nand_col_addr := col, sim_nand_row_addr := row\<rparr> in
      if sim_nand_state n = STATE_ERASE
      then foldM (\<lambda>i n. set_sim_col (sim_nand_row_addr n + of_nat i) erased_column n)
             [0..<PAGE_PER_PHY_BLOCK] n
      else Some n)"

text \<open>
  A data pointer is a memory object with a byte offset into it; \<open>None\<close> is the null pointer.
\<close>

type_synonym data_ptr = "(u8 list \<times> nat) option"

definition NAND_SendData :: "data_ptr \<Rightarrow> SPARE option \<Rightarrow> nand \<Rightarrow> nand option" where
  "NAND_SendData buffer spare n = do {
     ASSERT (sim_nand_state n = STATE_PROGRAM);
     ASSERT (unat (sim_nand_row_addr n) < CFG_NAND_ROW_COUNT * CFG_NAND_CHIP_COUNT);
     col \<leftarrow> sim_col n (sim_nand_row_addr n);
     ASSERT (col_state col = SIM_NAND_ERASED);
     let col = col\<lparr>col_state := SIM_NAND_PROGRAMMED\<rparr>;
     let col = (case spare of None \<Rightarrow> col | Some sp \<Rightarrow> col\<lparr>spare_data := sp\<rparr>);
     col \<leftarrow> (case buffer of None \<Rightarrow> Some col
              | Some (mem, off) \<Rightarrow> do {
                  bytes \<leftarrow> memget mem off PAGE_SIZE;
                  Some (col\<lparr>main_data := bytes\<rparr>) });
     set_sim_col (sim_nand_row_addr n) col n }"

definition NAND_ReceiveData ::
  "data_ptr \<Rightarrow> SPARE option \<Rightarrow> nand \<Rightarrow> ((STATUS \<times> data_ptr \<times> SPARE option) \<times> nand) option" where
  "NAND_ReceiveData buffer spare n = do {
     ASSERT (sim_nand_state n = STATE_READ \<or> sim_nand_state n = STATE_READSTATUS);
     let n = n\<lparr>sim_nand_state := STATE_READ\<rparr>;
     col \<leftarrow> sim_col n (sim_nand_row_addr n);
     buffer \<leftarrow> (case buffer of None \<Rightarrow> Some None
                 | Some (mem, off) \<Rightarrow> do {
                     mem \<leftarrow> memcpy_at mem off (main_data col);
                     Some (Some (mem, off)) });
     let spare = (case spare of None \<Rightarrow> None | Some _ \<Rightarrow> Some (spare_data col));
     let ret = (if col_state col = SIM_NAND_ERASED then STATUS_FAILURE else STATUS_SUCCESS);
     Some ((ret, buffer, spare), n) }"

definition NAND_ReceiveBytes :: "u8 \<Rightarrow> nand \<Rightarrow> u8 list option" where
  "NAND_ReceiveBytes len n =
     (case sim_nand_state n of
        STATE_READID \<Rightarrow> do { ASSERT (unat len = length sim_nand_id); Some sim_nand_id }
      | STATE_READSTATUS \<Rightarrow> do {
          ASSERT (len = 1);
          Some [sim_nand_status n OR NAND_STATUS_READY_BIT] }
      | STATE_READ \<Rightarrow> do {
          ASSERT (unat (sim_nand_col_addr n) = PAGE_SIZE);
          Some [0xff] }
      | _ \<Rightarrow> None)"

text \<open>The error count is stored through the pointer; the result says if the error was corrected.\<close>

definition NAND_ECCStatus :: "bool \<times> u8" where
  "NAND_ECCStatus = (False, 1)"

definition NAND_WaitRB :: "u8 \<Rightarrow> nand \<Rightarrow> nand" where
  "NAND_WaitRB chip n = n"

section \<open>Properties\<close>

text \<open>A column holds a full page of main data; an erased one reads all \<open>0xff\<close>.\<close>

definition col_wf :: "SIM_COLUMN \<Rightarrow> bool" where
  "col_wf c \<longleftrightarrow> length (main_data c) = PAGE_SIZE \<and>
     (col_state c = SIM_NAND_ERASED \<longrightarrow> c = erased_column)"

definition nand_wf :: "nand \<Rightarrow> bool" where
  "nand_wf n \<longleftrightarrow> (\<forall>c r. col_wf (sim_nand n c r))"

lemma erased_column_wf [simp]: "col_wf erased_column"
  by (simp add: col_wf_def erased_column_def)

lemma col_state_erased_column [simp]: "col_state erased_column = SIM_NAND_ERASED"
  by (simp add: erased_column_def)

lemma nand_wf_Init: "nand_wf (NAND_Init n)"
  by (simp add: nand_wf_def NAND_Init_def)

lemma SendCMD_frame [simp]:
  "sim_nand (NAND_SendCMD c n) = sim_nand n"
  "sim_nand_status (NAND_SendCMD c n) = sim_nand_status n"
  "sim_nand_chip (NAND_SendCMD c n) = sim_nand_chip n"
  by (cases c; simp)+

text \<open>The columns a block erase clears: the 32 rows from the latched row address.\<close>

lemma erase_rows:
  assumes chip: "unat (sim_nand_chip n) < CFG_NAND_CHIP_COUNT"
    and row: "unat (sim_nand_row_addr n) + k \<le> CFG_NAND_ROW_COUNT"
  shows "foldM (\<lambda>i n. set_sim_col (sim_nand_row_addr n + of_nat i) erased_column n) [0..<k] n =
    Some (n\<lparr>sim_nand := (sim_nand n)(unat (sim_nand_chip n) :=
      (\<lambda>r. if unat (sim_nand_row_addr n) \<le> r \<and> r < unat (sim_nand_row_addr n) + k
           then erased_column else sim_nand n (unat (sim_nand_chip n)) r))\<rparr>)"
  using row
proof (induction k)
  case 0
  have "(\<lambda>r. if unat (sim_nand_row_addr n) \<le> r \<and> r < unat (sim_nand_row_addr n)
      then erased_column else sim_nand n (unat (sim_nand_chip n)) r) =
      sim_nand n (unat (sim_nand_chip n))" by (auto simp: fun_eq_iff)
  then show ?case by simp
next
  case (Suc k)
  then have k: "unat (sim_nand_row_addr n + of_nat k) = unat (sim_nand_row_addr n) + k"
    by (simp add: unat_word_ariths unat_of_nat_u32 cfg)
  show ?case
    using Suc chip k
    by (auto simp: foldM_append set_sim_col_def fun_eq_iff intro!: nand.equality)
qed

end
