(* ===== verification/Mtd.thy ===== *)
theory Mtd
  imports Nand_Sim
begin

text \<open>
  The memory technology device (core/mtd/mtd_api.c): block and page numbers are translated to
  chip and row addresses and the two planes of a die are driven together.  The state adds the
  power-loss / bad-block test engine of the simulation build to the NAND.
\<close>

datatype TEST_MODE = TEST_NONE | TEST_BBR | TEST_PLR | TEST_ECC

record mtd =
  nand_of :: nand
  sim_test_mode :: TEST_MODE
  sim_test_target :: u32
  sim_test_current :: u32
  TEST_total_page_program :: u32

section \<open>Address translation\<close>

definition TRANS_PHY_BLOCK :: "u32 \<Rightarrow> u32" where
  "TRANS_PHY_BLOCK b =
     push_bit BLOCK_PER_PLANE_SHIFT (b AND (TOTAL_DIE_COUNT - 1)) OR drop_bit TOTAL_DIE_SHIFT b"

definition MTD_REAL_BLOCK :: "u32 \<Rightarrow> u32 \<Rightarrow> u32" where
  "MTD_REAL_BLOCK b p = push_bit PLANE_PER_DIE_SHIFT (TRANS_PHY_BLOCK b) + p"

definition MTD_ROW_ADDRESS :: "u32 \<Rightarrow> u32 \<Rightarrow> u32 \<Rightarrow> u32" where
  "MTD_ROW_ADDRESS block plane page =
     push_bit PAGE_PER_BLOCK_SHIFT (MTD_REAL_BLOCK block plane) + page"

definition MTD_DIE_NUM :: "u32 \<Rightarrow> u32" where
  "MTD_DIE_NUM b = b AND (DIE_PER_CHIP - 1)"

definition MTD_CHIP_NUM :: "u32 \<Rightarrow> u32" where
  "MTD_CHIP_NUM b = drop_bit DIE_PER_CHIP_SHIFT b AND (CHIP_COUNT - 1)"

definition MTD_MAX_RETRY_TIMES :: nat where "MTD_MAX_RETRY_TIMES = 3"

section \<open>Initialisation and the test engine\<close>

definition MTD_TestBBR :: "u32 \<Rightarrow> mtd \<Rightarrow> mtd" where
  "MTD_TestBBR bbr_target m =
     m\<lparr>sim_test_mode := TEST_BBR, sim_test_target := bbr_target, sim_test_current := 0\<rparr>"

definition MTD_TestPLR :: "u32 \<Rightarrow> mtd \<Rightarrow> mtd" where
  "MTD_TestPLR plr_target m =
     m\<lparr>sim_test_mode := TEST_PLR, sim_test_target := plr_target, sim_test_current := 0\<rparr>"

definition MTD_TestECC :: "mtd \<Rightarrow> mtd" where
  "MTD_TestECC m = m\<lparr>sim_test_mode := TEST_ECC, sim_test_target := 0, sim_test_current := 0\<rparr>"

definition MTD_TestReset :: "mtd \<Rightarrow> mtd" where
  "MTD_TestReset m = m\<lparr>sim_test_mode := TEST_NONE, sim_test_target := 0, sim_test_current := 1\<rparr>"

definition MTD_Reset :: "mtd \<Rightarrow> mtd" where
  "MTD_Reset m = m\<lparr>nand_of :=
     fold (\<lambda>chip n. NAND_SendCMD CMD_RESET (NAND_SelectChip (of_nat chip) n))
       [0..<CHIP_COUNT] (nand_of m)\<rparr>"

definition MTD_Init :: "mtd \<Rightarrow> mtd" where
  "MTD_Init m = MTD_TestReset (MTD_Reset (m\<lparr>nand_of := NAND_Init (nand_of m)\<rparr>))"

definition MTD_ReadID :: "u8 \<Rightarrow> u8 \<Rightarrow> mtd \<Rightarrow> ((STATUS \<times> u8 list) \<times> mtd) option" where
  "MTD_ReadID chip bytes m = do {
     let n = NAND_SendCMD CMD_READ_ID (NAND_SelectChip chip (nand_of m));
     n \<leftarrow> NAND_SendAddr 0 0 0 1 n;
     id_data \<leftarrow> NAND_ReceiveBytes bytes n;
     Some ((STATUS_SUCCESS, id_data), m\<lparr>nand_of := n\<rparr>) }"

section \<open>Status\<close>

text \<open>The injected failure of \<open>mtd_readstatus\<close>: it fires when the counter meets the target.\<close>

definition mtd_test_step :: "mtd \<Rightarrow> STATUS \<times> mtd" where
  "mtd_test_step m =
     (if sim_test_current m = sim_test_target m \<and>
         (sim_test_mode m = TEST_PLR \<or> sim_test_mode m = TEST_BBR)
      then (if sim_test_mode m = TEST_PLR then STATUS_SimulatedPowerLoss else STATUS_BADBLOCK,
            m\<lparr>sim_test_mode := TEST_NONE\<rparr>)
      else if sim_test_target m > sim_test_current m \<and>
         (sim_test_mode m = TEST_PLR \<or> sim_test_mode m = TEST_BBR)
      then (STATUS_SUCCESS, m\<lparr>sim_test_current := sim_test_current m + 1\<rparr>)
      else (STATUS_SUCCESS, m))"

definition mtd_readstatus :: "u32 \<Rightarrow> mtd \<Rightarrow> ((STATUS \<times> u8) \<times> mtd) option" where
  "mtd_readstatus block m =
     (let (ret, m) = mtd_test_step m in
      if ret = STATUS_SUCCESS then do {
        let die_status =
          (if MTD_DIE_NUM block = 0 then CMD_READ_STATUS_DIE1 else CMD_READ_STATUS_DIE2);
        let n = NAND_SendCMD die_status
                  (NAND_SelectChip (ucast (MTD_CHIP_NUM block)) (nand_of m));
        bytes \<leftarrow> NAND_ReceiveBytes 1 n;
        status_byte \<leftarrow> rd bytes 0;
        Some ((ret, status_byte), m\<lparr>nand_of := n\<rparr>) }
      else Some ((ret, NAND_STATUS_READY_BIT), m))"

definition MTD_ReadStatus :: "u32 \<Rightarrow> mtd \<Rightarrow> (STATUS \<times> mtd) option" where
  "MTD_ReadStatus block m = do {
     ASSERT (block < CFG_LOG_BLOCK_COUNT);
     ((ret, status_byte), m) \<leftarrow> mtd_readstatus block m;
     Some (if ret = STATUS_SUCCESS
           then (if NAND_STATUS_BUSY status_byte then STATUS_DIE_BUSY
                 else if NAND_STATUS_FAIL status_byte then STATUS_BADBLOCK
                 else STATUS_SUCCESS)
           else ret, m) }"

partial_function (option) mtd_wait_loop :: "u32 \<Rightarrow> mtd \<Rightarrow> (STATUS \<times> mtd) option" where
  "mtd_wait_loop block m = do {
     (ret, m) \<leftarrow> MTD_ReadStatus block m;
     if ret = STATUS_DIE_BUSY then mtd_wait_loop block m else Some (ret, m) }"

definition MTD_WaitReady :: "u32 \<Rightarrow> mtd \<Rightarrow> (STATUS \<times> mtd) option" where
  "MTD_WaitReady block m = do {
     ASSERT (block < CFG_LOG_BLOCK_COUNT);
     mtd_wait_loop block m }"

section \<open>Read\<close>

text \<open>The pointer arithmetic \<open>((UINT8 * )buffer) + PAGE_SIZE\<close>; a null pointer stays null.\<close>

definition advance_page :: "data_ptr \<Rightarrow> data_ptr" where
  "advance_page p = map_option (\<lambda>(mem, off). (mem, off + PAGE_SIZE)) p"

text \<open>One pass over the planes; the pass ends at the first plane that does not read.\<close>

fun mtd_read_planes :: "u32 \<Rightarrow> u32 \<Rightarrow> nat list \<Rightarrow> data_ptr \<Rightarrow> SPARE option \<Rightarrow> mtd \<Rightarrow>
    ((STATUS \<times> data_ptr \<times> SPARE option) \<times> mtd) option" where
  "mtd_read_planes block page [] buffer spare m = Some ((STATUS_SUCCESS, buffer, spare), m)"
| "mtd_read_planes block page (plane # planes) buffer spare m = do {
     let row_addr = MTD_ROW_ADDRESS block (of_nat plane) page;
     let chip_addr = ucast (MTD_CHIP_NUM block);
     let n = NAND_SendCMD CMD_READ (NAND_SelectChip chip_addr (nand_of m));
     n \<leftarrow> NAND_SendAddr 0 row_addr CFG_NAND_COL_CYCLE CFG_NAND_ROW_CYCLE n;
     let n = NAND_WaitRB chip_addr (NAND_SendCMD CMD_READ_COMMIT n);
     ((ret, buffer, spare), n) \<leftarrow> NAND_ReceiveData buffer spare n;
     let m = m\<lparr>nand_of := n\<rparr>;
     if ret \<noteq> STATUS_SUCCESS \<and> \<not> fst NAND_ECCStatus
     then Some ((STATUS_FAILURE, buffer, spare), m)
     else mtd_read_planes block page planes (advance_page buffer) spare m }"

text \<open>The retry loop; the first argument counts the retries that are left.\<close>

fun mtd_read_retry :: "nat \<Rightarrow> u32 \<Rightarrow> u32 \<Rightarrow> data_ptr \<Rightarrow> SPARE option \<Rightarrow> mtd \<Rightarrow>
    ((STATUS \<times> data_ptr \<times> SPARE option) \<times> mtd) option" where
  "mtd_read_retry left block page buffer spare m = do {
     ((ret, buffer, spare), m) \<leftarrow>
       mtd_read_planes block page [0..<PLANE_PER_DIE] buffer spare m;
     case left of
       0 \<Rightarrow> Some ((ret, buffer, spare), m)
     | Suc left' \<Rightarrow>
         if ret = STATUS_FAILURE then mtd_read_retry left' block page buffer spare m
         else Some ((ret, buffer, spare), m) }"

declare mtd_read_planes.simps(2) [simp del] mtd_read_retry.simps [simp del]

text \<open>
  \<open>MTD_Read\<close> takes the caller's buffer (its contents, or \<open>None\<close> for the null pointer) and spare
  area and returns their contents after the call.
\<close>

definition MTD_Read :: "u32 \<Rightarrow> u32 \<Rightarrow> u8 list option \<Rightarrow> SPARE option \<Rightarrow> mtd \<Rightarrow>
    ((STATUS \<times> u8 list option \<times> SPARE option) \<times> mtd) option" where
  "MTD_Read block page buffer spare m = do {
     (_, m) \<leftarrow> MTD_WaitReady block m;
     ((ret, buffer, spare), m) \<leftarrow>
       mtd_read_retry (MTD_MAX_RETRY_TIMES - 1) block page
         (map_option (\<lambda>mem. (mem, 0)) buffer) spare m;
     Some ((ret, map_option fst buffer, spare), m) }"

section \<open>Program and erase\<close>

text \<open>
  The second plane is programmed from \<open>((UINT8 * )buffer) + PAGE_SIZE\<close>, which is not null even
  when \<open>buffer\<close> is: with a null buffer the copy for that plane has no result.
\<close>

definition mtd_program_plane ::
  "u32 \<Rightarrow> u32 \<Rightarrow> u8 list option \<Rightarrow> SPARE option \<Rightarrow> nat \<Rightarrow> nand \<Rightarrow> nand option" where
  "mtd_program_plane block page buffer spare plane n =
     (let row_addr = MTD_ROW_ADDRESS block (of_nat plane) page;
          chip_addr = ucast (MTD_CHIP_NUM block) in
      if plane = 0 then do {
        let n = NAND_SendCMD CMD_PAGE_PROGRAM (NAND_SelectChip chip_addr n);
        n \<leftarrow> NAND_SendAddr 0 row_addr CFG_NAND_COL_CYCLE CFG_NAND_ROW_CYCLE n;
        NAND_SendData (map_option (\<lambda>mem. (mem, 0)) buffer) spare n }
      else do {
        ASSERT (PLANE_PER_DIE = 2);
        let n = NAND_SendCMD CMD_PAGE_FAKE_PROGRAM (NAND_SendCMD CMD_PROGRAM_FAKE_COMMIT n);
        n \<leftarrow> NAND_SendAddr 0 row_addr CFG_NAND_COL_CYCLE CFG_NAND_ROW_CYCLE n;
        mem \<leftarrow> buffer;
        NAND_SendData (Some (mem, PAGE_SIZE)) spare n })"

definition MTD_Program ::
  "u32 \<Rightarrow> u32 \<Rightarrow> u8 list option \<Rightarrow> SPARE option \<Rightarrow> mtd \<Rightarrow> (STATUS \<times> mtd) option" where
  "MTD_Program block page buffer spare m = do {
     let m = m\<lparr>TEST_total_page_program := TEST_total_page_program m + 1\<rparr>;
     n \<leftarrow> foldM (mtd_program_plane block page buffer spare) [0..<PLANE_PER_DIE] (nand_of m);
     Some (STATUS_SUCCESS, m\<lparr>nand_of := NAND_SendCMD CMD_PAGE_PROGRAM_COMMIT n\<rparr>) }"

definition mtd_erase_plane :: "u32 \<Rightarrow> nat \<Rightarrow> nand \<Rightarrow> nand option" where
  "mtd_erase_plane block plane n =
     (let row_addr = MTD_ROW_ADDRESS block (of_nat plane) 0;
          chip_addr = ucast (MTD_CHIP_NUM block) in
      if plane = 0 then
        NAND_SendAddr 0 row_addr 0 CFG_NAND_ROW_CYCLE
          (NAND_SendCMD CMD_BLOCK_ERASE (NAND_SelectChip chip_addr n))
      else do {
        ASSERT (PLANE_PER_DIE = 2);
        NAND_SendAddr 0 row_addr 0 CFG_NAND_ROW_CYCLE (NAND_SendCMD CMD_BLOCK_ERASE n) })"

fun mtd_erase_retry :: "nat \<Rightarrow> u32 \<Rightarrow> STATUS \<Rightarrow> mtd \<Rightarrow> (STATUS \<times> mtd) option" where
  "mtd_erase_retry 0 block ret m = Some (ret, m)"
| "mtd_erase_retry (Suc left) block ret m = do {
     n \<leftarrow> foldM (mtd_erase_plane block) [0..<PLANE_PER_DIE] (nand_of m);
     let n = NAND_SendCMD CMD_BLOCK_ERASE_COMMIT n;
     ASSERT (ucast (MTD_CHIP_NUM block) \<noteq> INVALID_CHIP);
     let n = NAND_WaitRB (ucast (MTD_CHIP_NUM block)) n;
     (ret, m) \<leftarrow> MTD_ReadStatus block (m\<lparr>nand_of := n\<rparr>);
     if ret \<noteq> STATUS_SUCCESS then mtd_erase_retry left block ret m else Some (ret, m) }"

definition MTD_Erase :: "u32 \<Rightarrow> mtd \<Rightarrow> (STATUS \<times> mtd) option" where
  "MTD_Erase block m = mtd_erase_retry MTD_MAX_RETRY_TIMES block STATUS_SUCCESS m"

section \<open>Bad-block mark\<close>

text \<open>
  One inspection of \<open>MTD_CheckBlock\<close>: the loop variable \<open>page\<close> does not reach the row address,
  which is that of page 0 in both iterations.
\<close>

definition mtd_check_page :: "u32 \<Rightarrow> nat \<times> nat \<Rightarrow> STATUS \<times> mtd \<Rightarrow> (STATUS \<times> mtd) option" where
  "mtd_check_page block pp s =
     (let (plane, page) = pp; (ret, m) = s in
      if ret = STATUS_SUCCESS then do {
        let row_addr = MTD_ROW_ADDRESS block (of_nat plane) 0;
        let chip_addr = ucast (MTD_CHIP_NUM block);
        let n = NAND_SendCMD CMD_READ (NAND_SelectChip chip_addr (nand_of m));
        n \<leftarrow> NAND_SendAddr 0 row_addr CFG_NAND_COL_CYCLE CFG_NAND_ROW_CYCLE n;
        let n = NAND_WaitRB chip_addr (NAND_SendCMD CMD_READ_COMMIT n);
        ASSERT (row_addr \<noteq> ucast MAX_UINT8);
        let n = NAND_SendCMD CMD_RANDOM_DATA_OUT n;
        n \<leftarrow> NAND_SendAddr (of_nat PAGE_SIZE) row_addr CFG_NAND_COL_CYCLE 0 n;
        let n = NAND_SendCMD CMD_RANDOM_DATA_OUT_COMMIT n;
        bytes \<leftarrow> NAND_ReceiveBytes 1 n;
        read_byte \<leftarrow> rd bytes 0;
        Some (if read_byte \<noteq> 0xff then STATUS_BADBLOCK else STATUS_SUCCESS, m\<lparr>nand_of := n\<rparr>) }
      else Some (ret, m))"

definition MTD_CheckBlock :: "u32 \<Rightarrow> mtd \<Rightarrow> (STATUS \<times> mtd) option" where
  "MTD_CheckBlock block m =
     foldM (mtd_check_page block) (List.product [0..<PLANE_PER_DIE] [0..<2]) (STATUS_SUCCESS, m)"

end
