(* ===== verification/Mtd_Flash.thy ===== *)
theory Mtd_Flash
  imports Mtd
begin

text \<open>
  The device contract of the MTD.  \<open>flash_page\<close> abstracts the columns of a page to what a reader
  of the page sees; \<open>mtd_inv\<close> is kept by every operation.  The operations on a valid block and
  page are specified against that abstraction, the locale \<open>flash\<close> states them as the interface
  the block layer relies on, and its interpretation shows that the MTD provides it.
\<close>

lemma and_7_u32: "b AND 7 = take_bit 3 (b :: u32)"
  by (simp add: take_bit_eq_mask mask_eq_exp_minus_1)

lemma and_3_u32: "b AND 3 = take_bit 2 (b :: u32)"
  by (simp add: take_bit_eq_mask mask_eq_exp_minus_1)

lemma unat_TRANS_PHY_BLOCK:
  assumes "unat b < 1024"
  shows "unat (TRANS_PHY_BLOCK b) = (unat b mod 8) * 128 + unat b div 8"
proof -
  let ?hi = "push_bit 7 (take_bit 3 b)" and ?lo = "drop_bit 3 b"
  have lo: "unat ?lo = unat b div 8" and lo128: "unat ?lo < 128"
    using assms by (simp_all add: unat_drop_bit_u32)
  have hi: "unat ?hi = (unat b mod 8) * 128"
    by (subst unat_push_bit_u32) (simp_all add: unat_take_bit_u32)
  have lo7: "take_bit 7 ?lo = ?lo"
    by (rule word_unat_eq_iff [THEN iffD2]) (use lo128 in \<open>simp add: unat_take_bit_u32\<close>)
  have "?hi AND take_bit 7 ?lo = 0"
    by (rule bit_word_eqI) (auto simp: bit_simps)
  then have "?hi OR ?lo = ?hi + ?lo"
    by (metis lo7 disjunctive_add_eq_or)
  then show ?thesis
    using hi lo assms
    by (simp add: TRANS_PHY_BLOCK_def cfg shift_defs and_7_u32 unat_word_ariths)
qed

lemma unat_ROW:
  assumes "unat b < 1024" "unat pl < 2" "unat pg < 32"
  shows "unat (MTD_ROW_ADDRESS b pl pg) =
    ((unat b mod 8) * 128 + unat b div 8) * 64 + unat pl * 32 + unat pg"
proof -
  have t: "unat (TRANS_PHY_BLOCK b) = (unat b mod 8) * 128 + unat b div 8"
    using assms(1) by (rule unat_TRANS_PHY_BLOCK)
  have t1024: "unat (TRANS_PHY_BLOCK b) < 1024" using t assms(1) by simp
  have r: "unat (MTD_REAL_BLOCK b pl) = unat (TRANS_PHY_BLOCK b) * 2 + unat pl"
    using t1024 assms(2)
    by (simp add: MTD_REAL_BLOCK_def shift_defs unat_word_ariths unat_push_bit_u32
        del: push_bit_Suc_numeral push_bit_Suc)
  show ?thesis
    using r t t1024 assms(2,3)
    by (simp add: MTD_ROW_ADDRESS_def shift_defs unat_word_ariths unat_push_bit_u32)
qed

section \<open>Cells\<close>

definition chip_ix :: "u32 \<Rightarrow> nat" where
  "chip_ix b = unat (ucast (MTD_CHIP_NUM b) :: u8)"

definition row_ix :: "u32 \<Rightarrow> nat \<Rightarrow> u32 \<Rightarrow> nat" where
  "row_ix b pl pg = unat (MTD_ROW_ADDRESS b (of_nat pl) pg)"

definition valid_block :: "u32 \<Rightarrow> bool" where
  "valid_block b \<longleftrightarrow> b < CFG_LOG_BLOCK_COUNT"

definition valid_page :: "u32 \<Rightarrow> bool" where
  "valid_page p \<longleftrightarrow> p < PAGE_PER_PHY_BLOCK"

lemma valid_block_unat: "valid_block b \<longleftrightarrow> unat b < 1024"
  by (simp add: valid_block_def cfg word_less_nat_alt)

lemma valid_page_unat: "valid_page p \<longleftrightarrow> unat p < 32"
  by (simp add: valid_page_def cfg word_less_nat_alt)

lemma chip_ix_less: "chip_ix b < 4"
proof -
  have "unat (MTD_CHIP_NUM b) < 4"
    by (simp add: MTD_CHIP_NUM_def cfg and_3_u32 unat_take_bit_u32)
  then show ?thesis
    by (simp add: chip_ix_def unsigned_ucast_eq take_bit_nat_eq_self)
qed

lemma unat_chip: "unat (ucast (MTD_CHIP_NUM b) :: u8) = chip_ix b"
  by (simp add: chip_ix_def)

lemma chip_not_INVALID: "ucast (MTD_CHIP_NUM b) \<noteq> INVALID_CHIP"
proof
  assume "ucast (MTD_CHIP_NUM b) = INVALID_CHIP"
  then have "chip_ix b = unat INVALID_CHIP" by (simp add: chip_ix_def)
  with chip_ix_less [of b] show False by (simp add: INVALID_CHIP_def unsigned_minus_1_eq_mask mask_eq_exp_minus_1)
qed

lemma row_ix_eq:
  assumes "valid_block b" "pl < 2" "valid_page pg"
  shows "row_ix b pl pg = ((unat b mod 8) * 128 + unat b div 8) * 64 + pl * 32 + unat pg"
  using assms unat_ROW [of b "of_nat pl" pg]
  by (simp add: row_ix_def valid_block_unat valid_page_unat unat_of_nat_u32)

lemma row_ix_less:
  assumes "valid_block b" "pl < 2" "valid_page pg"
  shows "row_ix b pl pg < CFG_NAND_ROW_COUNT"
proof -
  have b: "unat b < 1024" and pg: "unat pg < 32"
    using assms by (simp_all add: valid_block_unat valid_page_unat)
  have "unat b div 8 < 128" using b by (simp add: less_mult_imp_div_less)
  moreover have "unat b mod 8 < 8" by simp
  ultimately have "(unat b mod 8) * 128 + unat b div 8 < 1024" by linarith
  then show ?thesis
    using assms(2) pg by (simp add: row_ix_eq [OF assms] cfg)
qed

text \<open>The address translation is injective: no two pages share a column.\<close>

lemma row_ix_inject:
  assumes "valid_block b" "pl < 2" "valid_page pg" "valid_block b'" "pl' < 2" "valid_page pg'"
  shows "row_ix b pl pg = row_ix b' pl' pg' \<longleftrightarrow> b = b' \<and> pl = pl' \<and> pg = pg'"
proof
  assume eq: "row_ix b pl pg = row_ix b' pl' pg'"
  let ?h = "\<lambda>b. (unat b mod 8) * 128 + unat b div 8"
  have pg: "unat pg < 32" "unat pg' < 32" and bs: "unat b < 1024" "unat b' < 1024"
    using assms by (simp_all add: valid_page_unat valid_block_unat)
  have e: "?h b * 64 + pl * 32 + unat pg = ?h b' * 64 + pl' * 32 + unat pg'"
    using eq assms by (simp add: row_ix_eq)
  have "?h b * 64 + (pl * 32 + unat pg) = ?h b' * 64 + (pl' * 32 + unat pg')"
    using e by linarith
  from nat_pack_inject [OF this] pg assms(2,5)
  have h: "?h b = ?h b'" and e2: "pl * 32 + unat pg = pl' * 32 + unat pg'" by linarith+
  from nat_pack_inject [OF e2] pg have p: "pl = pl'" and q: "unat pg = unat pg'" by simp_all
  have d: "unat b div 8 < 128" "unat b' div 8 < 128"
    using bs by (simp_all add: less_mult_imp_div_less)
  from nat_pack_inject [OF h d]
  have m: "unat b mod 8 = unat b' mod 8" "unat b div 8 = unat b' div 8" by simp_all
  have "unat b = unat b'" by (metis m div_mult_mod_eq)
  then show "b = b' \<and> pl = pl' \<and> pg = pg'"
    using p q by (simp add: word_unat_eq_iff)
qed simp

definition cell :: "mtd \<Rightarrow> u32 \<Rightarrow> nat \<Rightarrow> u32 \<Rightarrow> SIM_COLUMN" where
  "cell m b pl pg = sim_nand (nand_of m) (chip_ix b) (row_ix b pl pg)"


section \<open>Invariant of the device\<close>

definition planes_sync :: "mtd \<Rightarrow> bool" where
  "planes_sync m \<longleftrightarrow> (\<forall>b pg. valid_block b \<longrightarrow> valid_page pg \<longrightarrow>
     col_state (cell m b 0 pg) = col_state (cell m b 1 pg))"

definition mtd_inv :: "mtd \<Rightarrow> bool" where
  "mtd_inv m \<longleftrightarrow> nand_wf (nand_of m) \<and> sim_nand_status (nand_of m) = 0 \<and> planes_sync m"

text \<open>The test engine injects nothing any more.\<close>

definition quiet :: "mtd \<Rightarrow> bool" where
  "quiet m \<longleftrightarrow> sim_test_mode m \<noteq> TEST_PLR \<and> sim_test_mode m \<noteq> TEST_BBR"

text \<open>What a page of the device holds: nothing, or the data of both planes and the spare area.\<close>

definition flash_page :: "mtd \<Rightarrow> u32 \<Rightarrow> u32 \<Rightarrow> (u8 list \<times> SPARE) option" where
  "flash_page m b pg =
     (if col_state (cell m b 0 pg) = SIM_NAND_PROGRAMMED \<and>
         col_state (cell m b 1 pg) = SIM_NAND_PROGRAMMED
      then Some (main_data (cell m b 0 pg) @ main_data (cell m b 1 pg), spare_data (cell m b 1 pg))
      else None)"

definition spare_val :: "SPARE option \<Rightarrow> SPARE" where
  "spare_val sp = (case sp of None \<Rightarrow> (-1, -1) | Some x \<Rightarrow> x)"

section \<open>One plane\<close>

lemma sim_col_chip:
  "sim_nand_chip n = ucast (MTD_CHIP_NUM b) \<Longrightarrow> unat row < CFG_NAND_ROW_COUNT \<Longrightarrow>
   sim_col n row = Some (sim_nand n (chip_ix b) (unat row))"
  using chip_ix_less [of b] by (simp add: sim_col_def unat_chip cfg)

lemma set_sim_col_chip:
  "sim_nand_chip n = ucast (MTD_CHIP_NUM b) \<Longrightarrow> unat row < CFG_NAND_ROW_COUNT \<Longrightarrow>
   set_sim_col row c n = Some (n\<lparr>sim_nand := (sim_nand n)(chip_ix b :=
      (sim_nand n (chip_ix b))(unat row := c))\<rparr>)"
  using chip_ix_less [of b] by (simp add: set_sim_col_def unat_chip cfg)

lemma SendAddr_noerase [simp]:
  "sim_nand_state n \<noteq> STATE_ERASE \<Longrightarrow>
   NAND_SendAddr col row cc rc n = Some (n\<lparr>sim_nand_col_addr := col, sim_nand_row_addr := row\<rparr>)"
  by (simp add: NAND_SendAddr_def)

lemma NAND_SelectChip_fields [simp]:
  "sim_nand (NAND_SelectChip c n) = sim_nand n"
  "sim_nand_status (NAND_SelectChip c n) = sim_nand_status n"
  "sim_nand_chip (NAND_SelectChip c n) = c"
  by (simp_all add: NAND_SelectChip_def)

lemma program_plane_ok:
  assumes v: "valid_block b" "valid_page pg" "pl < 2"
    and chip: "pl \<noteq> 0 \<Longrightarrow> sim_nand_chip n = ucast (MTD_CHIP_NUM b)"
    and er: "sim_nand n (chip_ix b) (row_ix b pl pg) = erased_column"
    and len: "length d = MPP_SIZE"
  shows "\<exists>n'. mtd_program_plane b pg (Some d) sp pl n = Some n' \<and>
    sim_nand n' = (sim_nand n)(chip_ix b := (sim_nand n (chip_ix b))(row_ix b pl pg :=
      \<lparr>main_data = take PAGE_SIZE (drop (pl * PAGE_SIZE) d), spare_data = spare_val sp,
       col_state = SIM_NAND_PROGRAMMED\<rparr>)) \<and>
    sim_nand_status n' = sim_nand_status n \<and> sim_nand_chip n' = ucast (MTD_CHIP_NUM b)"
proof -
  let ?row = "MTD_ROW_ADDRESS b (of_nat pl) pg"
  have r: "unat ?row < CFG_NAND_ROW_COUNT" and rr: "row_ix b pl pg = unat ?row"
    using row_ix_less [OF v(1,3,2)] by (simp_all add: row_ix_def)
  have r2: "unat ?row < CFG_NAND_ROW_COUNT * CFG_NAND_CHIP_COUNT"
    using r by (simp add: cfg)
  have pl: "pl = 0 \<or> pl = 1" using v(3) by auto
  have PL: "PLANE_PER_DIE = 2" by (simp add: cfg)
  have m0: "memget d 0 PAGE_SIZE = Some (take PAGE_SIZE d)"
    and m1: "memget d PAGE_SIZE PAGE_SIZE = Some (take PAGE_SIZE (drop PAGE_SIZE d))"
    using len by (simp_all add: memget_def cfg)
  show ?thesis
    using pl
  proof
    assume [simp]: "pl = 0"
    show ?thesis
      using er r r2 rr
      by (simp add: mtd_program_plane_def Let_def NAND_SendData_def sim_col_chip [where b = b]
          set_sim_col_chip [where b = b] m0 erased_column_def spare_val_def
          split: option.splits)
  next
    assume [simp]: "pl = 1"
    show ?thesis
      using er r r2 chip rr
      by (simp add: mtd_program_plane_def Let_def NAND_SendData_def sim_col_chip [where b = b]
          set_sim_col_chip [where b = b] m1 erased_column_def spare_val_def PL
          split: option.splits)
  qed
qed

lemma erased_cell:
  assumes "mtd_inv m" "col_state (cell m b pl pg) = SIM_NAND_ERASED"
  shows "cell m b pl pg = erased_column"
  using assms by (simp add: mtd_inv_def nand_wf_def col_wf_def cell_def)

section \<open>Status\<close>

text \<open>The test engine of the device: what it injects next, and its step.\<close>

definition fault_of :: "mtd \<Rightarrow> TEST_MODE \<times> u32 \<times> u32" where
  "fault_of m = (sim_test_mode m, sim_test_target m, sim_test_current m)"

fun fault_out :: "TEST_MODE \<times> u32 \<times> u32 \<Rightarrow> STATUS" where
  "fault_out (mode, target, cur) =
     (if cur = target \<and> mode = TEST_PLR then STATUS_SimulatedPowerLoss
      else if cur = target \<and> mode = TEST_BBR then STATUS_BADBLOCK else STATUS_SUCCESS)"

fun fault_tick :: "TEST_MODE \<times> u32 \<times> u32 \<Rightarrow> TEST_MODE \<times> u32 \<times> u32" where
  "fault_tick (mode, target, cur) =
     (if mode = TEST_PLR \<or> mode = TEST_BBR
      then (if cur = target then (TEST_NONE, target, cur)
            else if cur < target then (mode, target, cur + 1) else (mode, target, cur))
      else (mode, target, cur))"

lemma test_step_fault:
  "fst (mtd_test_step m) = fault_out (fault_of m)"
  "fault_of (snd (mtd_test_step m)) = fault_tick (fault_of m)"
  by (auto simp: mtd_test_step_def fault_of_def)

lemma fault_out_cases:
  "fault_out f = STATUS_SUCCESS \<or> fault_out f = STATUS_SimulatedPowerLoss \<or>
   fault_out f = STATUS_BADBLOCK"
  by (cases f) auto

lemma test_step_frame [simp]:
  "nand_of (snd (mtd_test_step m)) = nand_of m"
  "TEST_total_page_program (snd (mtd_test_step m)) = TEST_total_page_program m"
  by (simp_all add: mtd_test_step_def)

lemma test_step_quiet: "quiet m \<Longrightarrow> mtd_test_step m = (STATUS_SUCCESS, m)"
  by (auto simp: mtd_test_step_def quiet_def)

lemma test_step_cases:
  "fst (mtd_test_step m) = STATUS_SUCCESS \<or>
   fst (mtd_test_step m) \<in> {STATUS_SimulatedPowerLoss, STATUS_BADBLOCK} \<and>
     quiet (snd (mtd_test_step m))"
  by (auto simp: mtd_test_step_def quiet_def)

lemma status_byte: "NAND_STATUS_BUSY NAND_STATUS_READY_BIT = False"
  "NAND_STATUS_FAIL NAND_STATUS_READY_BIT = False"
  by (simp_all add: NAND_STATUS_BUSY_def NAND_STATUS_FAIL_def NAND_STATUS_READY_BIT_def
      NAND_STATUS_FAIL_BIT_def)

text \<open>
  Reading the status yields what the test engine injects, and changes only the latches.
\<close>

lemma ReadStatus_device:
  assumes st: "sim_nand_status (nand_of m) = 0" and v: "valid_block b"
  shows "\<exists>m'. MTD_ReadStatus b m = Some (fst (mtd_test_step m), m') \<and>
    sim_nand (nand_of m') = sim_nand (nand_of m) \<and> sim_nand_status (nand_of m') = 0 \<and>
    fault_of m' = fault_of (snd (mtd_test_step m)) \<and>
    TEST_total_page_program m' = TEST_total_page_program m"
proof -
  obtain r m1 where t: "mtd_test_step m = (r, m1)" by (cases "mtd_test_step m")
  have m1: "nand_of m1 = nand_of m" "TEST_total_page_program m1 = TEST_total_page_program m"
    using test_step_frame [of m] t by simp_all
  have r: "r = STATUS_SUCCESS \<or> r = STATUS_SimulatedPowerLoss \<or> r = STATUS_BADBLOCK"
    using test_step_cases [of m] t by auto
  show ?thesis
    using st v m1 r
    by (auto simp: MTD_ReadStatus_def mtd_readstatus_def t valid_block_def NAND_ReceiveBytes_def
        rd_def status_byte fault_of_def)
qed

lemma mtd_inv_cong:
  "sim_nand (nand_of m') = sim_nand (nand_of m) \<Longrightarrow>
   sim_nand_status (nand_of m') = sim_nand_status (nand_of m) \<Longrightarrow> mtd_inv m' = mtd_inv m"
  by (simp add: mtd_inv_def nand_wf_def planes_sync_def cell_def)

lemma ReadStatus_spec:
  assumes "mtd_inv m" "valid_block b"
  shows "\<exists>m'. MTD_ReadStatus b m = Some (fst (mtd_test_step m), m') \<and> mtd_inv m' \<and>
    sim_nand (nand_of m') = sim_nand (nand_of m) \<and> fault_of m' = fault_of (snd (mtd_test_step m)) \<and>
    TEST_total_page_program m' = TEST_total_page_program m"
proof -
  have "sim_nand_status (nand_of m) = 0" using assms(1) by (simp add: mtd_inv_def)
  from ReadStatus_device [OF this assms(2)] show ?thesis
    using assms(1) \<open>sim_nand_status (nand_of m) = 0\<close> mtd_inv_cong by metis
qed

lemma ReadStatus_quiet:
  assumes "mtd_inv m" "valid_block b" "quiet m"
  shows "\<exists>m'. MTD_ReadStatus b m = Some (STATUS_SUCCESS, m') \<and> mtd_inv m' \<and>
    sim_nand (nand_of m') = sim_nand (nand_of m) \<and> fault_of m' = fault_of m \<and>
    TEST_total_page_program m' = TEST_total_page_program m"
  using ReadStatus_spec [OF assms(1,2)] test_step_quiet [OF assms(3)] by simp

text \<open>The simulated die is never busy, so waiting is one status read.\<close>

lemma WaitReady_spec:
  assumes "sim_nand_status (nand_of m) = 0" "valid_block b"
  shows "MTD_WaitReady b m = MTD_ReadStatus b m"
proof -
  obtain m' where m': "MTD_ReadStatus b m = Some (fst (mtd_test_step m), m')"
    using ReadStatus_device [OF assms] by blast
  have "fst (mtd_test_step m) \<noteq> STATUS_DIE_BUSY"
    using test_step_cases [of m] by auto
  then show ?thesis
    using assms(2) m' by (simp add: MTD_WaitReady_def valid_block_def mtd_wait_loop.simps)
qed

section \<open>Program\<close>

lemma planes_list: "[0..<PLANE_PER_DIE] = [0, 1]"
  by (simp add: cfg upt_rec)

lemma flash_None_cells:
  assumes "mtd_inv m" "valid_block b" "valid_page pg" "flash_page m b pg = None" "pl < 2"
  shows "cell m b pl pg = erased_column"
proof -
  have "col_state (cell m b 0 pg) = col_state (cell m b 1 pg)"
    using assms(1-3) by (simp add: mtd_inv_def planes_sync_def)
  then have "col_state (cell m b pl pg) = SIM_NAND_ERASED"
    using assms(4,5)
    by (cases "pl = 0"; cases "col_state (cell m b 1 pg)"; simp add: flash_page_def less_2_cases_iff)
  then show ?thesis by (rule erased_cell [OF assms(1)])
qed

text \<open>The device after both columns of a page have been replaced.\<close>

definition put_cells :: "u32 \<Rightarrow> u32 \<Rightarrow> SIM_COLUMN \<Rightarrow> SIM_COLUMN \<Rightarrow> (nat \<Rightarrow> nat \<Rightarrow> SIM_COLUMN) \<Rightarrow>
    nat \<Rightarrow> nat \<Rightarrow> SIM_COLUMN" where
  "put_cells b pg c0 c1 a = a(chip_ix b := (a (chip_ix b))(row_ix b 0 pg := c0, row_ix b 1 pg := c1))"

lemma put_cells_get:
  assumes "valid_block b" "valid_page pg" "valid_block b'" "valid_page pg'" "pl < 2"
  shows "put_cells b pg c0 c1 a (chip_ix b') (row_ix b' pl pg') =
    (if b' = b \<and> pg' = pg then (if pl = 0 then c0 else c1) else a (chip_ix b') (row_ix b' pl pg'))"
  using assms row_ix_inject [OF assms(3,5,4) assms(1) _ assms(2), of 0]
    row_ix_inject [OF assms(3,5,4) assms(1) _ assms(2), of 1]
  by (auto simp: put_cells_def less_2_cases_iff)

lemma program_cells:
  assumes inv: "mtd_inv m" and v: "valid_block b" "valid_page pg"
    and free: "flash_page m b pg = None" and len: "length d = MPP_SIZE"
  shows "\<exists>m'. MTD_Program b pg (Some d) sp m = Some (STATUS_SUCCESS, m') \<and>
    sim_nand (nand_of m') = put_cells b pg
      \<lparr>main_data = take PAGE_SIZE d, spare_data = spare_val sp, col_state = SIM_NAND_PROGRAMMED\<rparr>
      \<lparr>main_data = take PAGE_SIZE (drop PAGE_SIZE d), spare_data = spare_val sp,
       col_state = SIM_NAND_PROGRAMMED\<rparr> (sim_nand (nand_of m)) \<and>
    sim_nand_status (nand_of m') = sim_nand_status (nand_of m) \<and> fault_of m' = fault_of m \<and>
    TEST_total_page_program m' = TEST_total_page_program m + 1"
proof -
  have er: "sim_nand (nand_of m) (chip_ix b) (row_ix b pl pg) = erased_column" if "pl < 2" for pl
    using flash_None_cells [OF inv v free that] by (simp add: cell_def)
  obtain n1 where n1: "mtd_program_plane b pg (Some d) sp 0 (nand_of m) = Some n1"
      "sim_nand n1 = (sim_nand (nand_of m))(chip_ix b := (sim_nand (nand_of m) (chip_ix b))
        (row_ix b 0 pg := \<lparr>main_data = take PAGE_SIZE d, spare_data = spare_val sp,
           col_state = SIM_NAND_PROGRAMMED\<rparr>))"
      "sim_nand_status n1 = sim_nand_status (nand_of m)" "sim_nand_chip n1 = ucast (MTD_CHIP_NUM b)"
    using program_plane_ok [OF v, of 0 "nand_of m" d sp] er [of 0] len by auto
  have "row_ix b 1 pg \<noteq> row_ix b 0 pg"
    using row_ix_inject [OF v(1) _ v(2) v(1) _ v(2), of 1 0] by simp
  then have "sim_nand n1 (chip_ix b) (row_ix b 1 pg) = erased_column"
    using er [of 1] by (simp add: n1(2))
  from program_plane_ok [OF v _ _ this len, of sp] n1(4)
  obtain n2 where n2: "mtd_program_plane b pg (Some d) sp 1 n1 = Some n2"
      "sim_nand n2 = (sim_nand n1)(chip_ix b := (sim_nand n1 (chip_ix b))
        (row_ix b 1 pg := \<lparr>main_data = take PAGE_SIZE (drop PAGE_SIZE d), spare_data = spare_val sp,
           col_state = SIM_NAND_PROGRAMMED\<rparr>))"
      "sim_nand_status n2 = sim_nand_status n1"
    by auto
  show ?thesis
    using n1 n2 by (simp add: MTD_Program_def planes_list put_cells_def fault_of_def)
qed

lemma mtd_inv_put:
  assumes inv: "mtd_inv m" and v: "valid_block b" "valid_page pg"
    and nand: "sim_nand (nand_of m') = put_cells b pg c0 c1 (sim_nand (nand_of m))"
    and st: "sim_nand_status (nand_of m') = sim_nand_status (nand_of m)"
    and wf: "col_wf c0" "col_wf c1" "col_state c0 = col_state c1"
  shows "mtd_inv m'"
proof -
  have "nand_wf (nand_of m')"
    using inv wf unfolding nand_wf_def nand put_cells_def by (simp add: mtd_inv_def nand_wf_def)
  moreover have "planes_sync m'"
    using inv v wf(3)
    by (auto simp: planes_sync_def cell_def nand put_cells_get mtd_inv_def)
  ultimately show ?thesis using inv st by (simp add: mtd_inv_def)
qed

lemma Program_spec:
  assumes inv: "mtd_inv m" and v: "valid_block b" "valid_page pg"
    and free: "flash_page m b pg = None" and len: "length d = MPP_SIZE"
  shows "\<exists>m'. MTD_Program b pg (Some d) sp m = Some (STATUS_SUCCESS, m') \<and> mtd_inv m' \<and>
    (\<forall>b' pg'. valid_block b' \<longrightarrow> valid_page pg' \<longrightarrow> flash_page m' b' pg' =
      (if b' = b \<and> pg' = pg then Some (d, spare_val sp) else flash_page m b' pg')) \<and>
    fault_of m' = fault_of m \<and> TEST_total_page_program m' = TEST_total_page_program m + 1"
proof -
  let ?c0 = "\<lparr>main_data = take PAGE_SIZE d, spare_data = spare_val sp,
              col_state = SIM_NAND_PROGRAMMED\<rparr>"
  let ?c1 = "\<lparr>main_data = take PAGE_SIZE (drop PAGE_SIZE d), spare_data = spare_val sp,
              col_state = SIM_NAND_PROGRAMMED\<rparr>"
  obtain m' where m': "MTD_Program b pg (Some d) sp m = Some (STATUS_SUCCESS, m')"
      "sim_nand (nand_of m') = put_cells b pg ?c0 ?c1 (sim_nand (nand_of m))"
      "sim_nand_status (nand_of m') = sim_nand_status (nand_of m)" "fault_of m' = fault_of m"
      "TEST_total_page_program m' = TEST_total_page_program m + 1"
    using program_cells [OF inv v free len] by blast
  have "col_wf ?c0" "col_wf ?c1" using len by (simp_all add: col_wf_def cfg)
  then have "mtd_inv m'" by (rule mtd_inv_put [OF inv v m'(2,3)]) simp
  moreover have "take PAGE_SIZE d @ take PAGE_SIZE (drop PAGE_SIZE d) = d"
    using len by (simp add: cfg flip: take_add)
  then have "flash_page m' b' pg' =
      (if b' = b \<and> pg' = pg then Some (d, spare_val sp) else flash_page m b' pg')"
    if "valid_block b'" "valid_page pg'" for b' pg'
    using v that by (auto simp: flash_page_def cell_def m'(2) put_cells_get)
  ultimately show ?thesis using m' by blast
qed

text \<open>A programmed page is never programmed over: the simulator's assertion stops the call.\<close>

lemma Program_programmed:
  assumes inv: "mtd_inv m" and v: "valid_block b" "valid_page pg"
    and "flash_page m b pg \<noteq> None"
  shows "MTD_Program b pg d sp m = None"
proof -
  have "col_state (cell m b 0 pg) = SIM_NAND_PROGRAMMED"
    using assms(4) by (simp add: flash_page_def split: if_splits)
  moreover have "unat (MTD_ROW_ADDRESS b 0 pg) < CFG_NAND_ROW_COUNT"
    using row_ix_less [OF v(1) _ v(2), of 0] by (simp add: row_ix_def)
  ultimately have "mtd_program_plane b pg d sp 0 n = None" if "sim_nand n = sim_nand (nand_of m)" for n
    using that by (simp add: mtd_program_plane_def Let_def NAND_SendData_def
        sim_col_chip [where b = b] cell_def row_ix_def)
  then show ?thesis by (simp add: MTD_Program_def planes_list)
qed

section \<open>Erase\<close>

declare mtd_erase_retry.simps(2) [simp del]

definition in_block :: "u32 \<Rightarrow> nat \<Rightarrow> nat \<Rightarrow> bool" where
  "in_block b pl r \<longleftrightarrow> row_ix b pl 0 \<le> r \<and> r < row_ix b pl 0 + 32"

lemma slot_eq:
  "(k :: nat) * 32 \<le> k' * 32 + g \<Longrightarrow> k' * 32 + g < k * 32 + 32 \<Longrightarrow> g < 32 \<Longrightarrow> k = k'"
  by arith

lemma in_block_row:
  assumes "valid_block b" "valid_block b'" "valid_page pg'" "pl < 2" "pl' < 2"
  shows "in_block b pl (row_ix b' pl' pg') \<longleftrightarrow> b' = b \<and> pl' = pl"
proof -
  have v0: "valid_page 0" by (simp add: valid_page_unat)
  have pg: "unat pg' < 32" using assms(3) by (simp add: valid_page_unat)
  have r: "row_ix b' pl' pg' = row_ix b' pl' 0 + unat pg'"
    using assms v0 by (simp add: row_ix_eq)
  have 1: "row_ix b pl 0 = ((unat b mod 8 * 128 + unat b div 8) * 2 + pl) * 32"
    and 2: "row_ix b' pl' 0 = ((unat b' mod 8 * 128 + unat b' div 8) * 2 + pl') * 32"
    using assms v0 by (simp_all add: row_ix_eq)
  show ?thesis
  proof
    assume "in_block b pl (row_ix b' pl' pg')"
    then have "(unat b mod 8 * 128 + unat b div 8) * 2 + pl =
        (unat b' mod 8 * 128 + unat b' div 8) * 2 + pl'"
      using pg unfolding in_block_def r 1 2 by (intro slot_eq) simp_all
    then have "row_ix b pl 0 = row_ix b' pl' 0" by (simp add: 1 2)
    then show "b' = b \<and> pl' = pl"
      using row_ix_inject [OF assms(1,4) v0 assms(2,5) v0] by simp
  next
    assume "b' = b \<and> pl' = pl"
    then show "in_block b pl (row_ix b' pl' pg')"
      using r pg by (simp add: in_block_def)
  qed
qed

lemma erase_plane_ok:
  assumes v: "valid_block b" "pl < 2"
    and chip: "pl \<noteq> 0 \<Longrightarrow> sim_nand_chip n = ucast (MTD_CHIP_NUM b)"
  shows "\<exists>n'. mtd_erase_plane b pl n = Some n' \<and>
    sim_nand n' = (sim_nand n)(chip_ix b := (\<lambda>r. if in_block b pl r then erased_column
      else sim_nand n (chip_ix b) r)) \<and>
    sim_nand_status n' = sim_nand_status n \<and> sim_nand_chip n' = ucast (MTD_CHIP_NUM b)"
proof -
  let ?row = "MTD_ROW_ADDRESS b (of_nat pl) 0"
  let ?n = "n\<lparr>sim_nand_chip := ucast (MTD_CHIP_NUM b), sim_nand_state := STATE_ERASE,
    sim_nand_col_addr := 0, sim_nand_row_addr := ?row\<rparr>"
  have v31: "valid_page 31" by (simp add: valid_page_unat)
  have "row_ix b pl 31 < CFG_NAND_ROW_COUNT" by (rule row_ix_less [OF v v31])
  moreover have v0: "valid_page 0" by (simp add: valid_page_unat)
  have "row_ix b pl 31 = row_ix b pl 0 + 31"
    unfolding row_ix_eq [OF v v31] row_ix_eq [OF v v0] by simp
  ultimately have r: "unat (sim_nand_row_addr ?n) + 32 \<le> CFG_NAND_ROW_COUNT"
    by (simp add: row_ix_def)
  have c: "unat (sim_nand_chip ?n) < CFG_NAND_CHIP_COUNT"
    using chip_ix_less [of b] by (simp add: unat_chip cfg)
  have n: "mtd_erase_plane b pl n =
      foldM (\<lambda>i n. set_sim_col (sim_nand_row_addr n + of_nat i) erased_column n) [0..<32] ?n"
    using chip by (cases "pl = 0")
      (auto simp: mtd_erase_plane_def Let_def NAND_SendAddr_def NAND_SelectChip_def cfg
        intro!: arg_cong [where f = "foldM _ _"] nand.equality)
  show ?thesis
    unfolding n erase_rows [OF c r]
    by (simp add: unat_chip in_block_def row_ix_def cong: if_cong)
qed

definition erase_cells :: "u32 \<Rightarrow> (nat \<Rightarrow> nat \<Rightarrow> SIM_COLUMN) \<Rightarrow> nat \<Rightarrow> nat \<Rightarrow> SIM_COLUMN" where
  "erase_cells b a = a(chip_ix b := (\<lambda>r. if in_block b 0 r \<or> in_block b 1 r then erased_column
      else a (chip_ix b) r))"

lemma erase_planes_ok:
  assumes v: "valid_block b"
  shows "\<exists>n'. foldM (mtd_erase_plane b) [0..<PLANE_PER_DIE] n = Some n' \<and>
    sim_nand n' = erase_cells b (sim_nand n) \<and> sim_nand_status n' = sim_nand_status n"
proof -
  obtain n1 where n1: "mtd_erase_plane b 0 n = Some n1"
      "sim_nand n1 = (sim_nand n)(chip_ix b := (\<lambda>r. if in_block b 0 r then erased_column
        else sim_nand n (chip_ix b) r))"
      "sim_nand_status n1 = sim_nand_status n" "sim_nand_chip n1 = ucast (MTD_CHIP_NUM b)"
    using erase_plane_ok [OF v, of 0 n] by auto
  obtain n2 where n2: "mtd_erase_plane b 1 n1 = Some n2"
      "sim_nand n2 = (sim_nand n1)(chip_ix b := (\<lambda>r. if in_block b 1 r then erased_column
        else sim_nand n1 (chip_ix b) r))"
      "sim_nand_status n2 = sim_nand_status n1"
    using erase_plane_ok [OF v, of 1 n1] n1(4) by auto
  show ?thesis
    using n1 n2 by (auto simp: planes_list erase_cells_def fun_eq_iff)
qed

lemma erase_cells_get:
  assumes "valid_block b" "valid_block b'" "valid_page pg'" "pl < 2"
  shows "erase_cells b a (chip_ix b') (row_ix b' pl pg') =
    (if b' = b then erased_column else a (chip_ix b') (row_ix b' pl pg'))"
  using assms by (auto simp: erase_cells_def in_block_row less_2_cases_iff)

lemma mtd_inv_erase:
  assumes inv: "mtd_inv m" and v: "valid_block b"
    and nand: "sim_nand (nand_of m') = erase_cells b (sim_nand (nand_of m))"
    and st: "sim_nand_status (nand_of m') = sim_nand_status (nand_of m)"
  shows "mtd_inv m'"
proof -
  have "nand_wf (nand_of m')"
    using inv unfolding nand_wf_def nand erase_cells_def by (simp add: mtd_inv_def nand_wf_def)
  moreover have "planes_sync m'"
    using inv v by (auto simp: planes_sync_def cell_def nand erase_cells_get mtd_inv_def)
  ultimately show ?thesis using inv st by (simp add: mtd_inv_def)
qed

lemma erase_cells_idem [simp]: "erase_cells b (erase_cells b a) = erase_cells b a"
  by (auto simp: erase_cells_def fun_eq_iff)

lemma erase_retry_step:
  assumes inv: "mtd_inv m" and v: "valid_block b"
  shows "\<exists>m'. mtd_erase_retry (Suc left) b ret m =
      (if fst (mtd_test_step m) = STATUS_SUCCESS then Some (STATUS_SUCCESS, m')
       else mtd_erase_retry left b (fst (mtd_test_step m)) m') \<and>
    mtd_inv m' \<and> sim_nand (nand_of m') = erase_cells b (sim_nand (nand_of m)) \<and>
    fault_of m' = fault_of (snd (mtd_test_step m)) \<and>
    TEST_total_page_program m' = TEST_total_page_program m"
proof -
  obtain n1 where n1: "foldM (mtd_erase_plane b) [0..<PLANE_PER_DIE] (nand_of m) = Some n1"
      "sim_nand n1 = erase_cells b (sim_nand (nand_of m))"
      "sim_nand_status n1 = sim_nand_status (nand_of m)"
    using erase_planes_ok [OF v] by blast
  let ?m = "m\<lparr>nand_of := NAND_WaitRB (ucast (MTD_CHIP_NUM b))
      (NAND_SendCMD CMD_BLOCK_ERASE_COMMIT n1)\<rparr>"
  have i: "mtd_inv ?m"
    by (rule mtd_inv_erase [OF inv v]) (simp_all add: NAND_WaitRB_def n1)
  have t: "fst (mtd_test_step ?m) = fst (mtd_test_step m)"
      "fault_of (snd (mtd_test_step ?m)) = fault_of (snd (mtd_test_step m))"
    by (simp_all add: mtd_test_step_def fault_of_def)
  obtain m2 where "MTD_ReadStatus b ?m = Some (fst (mtd_test_step ?m), m2)" "mtd_inv m2"
      "sim_nand (nand_of m2) = sim_nand (nand_of ?m)"
      "fault_of m2 = fault_of (snd (mtd_test_step ?m))"
      "TEST_total_page_program m2 = TEST_total_page_program ?m"
    using ReadStatus_spec [OF i v] by blast
  then show ?thesis
    using n1 t by (intro exI [of _ m2])
      (auto simp: mtd_erase_retry.simps(2) chip_not_INVALID NAND_WaitRB_def)
qed

text \<open>
  An injected failure is used up by the first status read, so the retry of \<open>MTD_Erase\<close>
  succeeds: erasing a block of the simulated device never fails.
\<close>

lemma Erase_spec:
  assumes inv: "mtd_inv m" and v: "valid_block b"
  shows "\<exists>m'. MTD_Erase b m = Some (STATUS_SUCCESS, m') \<and> mtd_inv m' \<and>
    (\<forall>b' pg'. valid_block b' \<longrightarrow> valid_page pg' \<longrightarrow> flash_page m' b' pg' =
      (if b' = b then None else flash_page m b' pg')) \<and>
    fault_of m' = fault_of (snd (mtd_test_step m)) \<and>
    TEST_total_page_program m' = TEST_total_page_program m"
proof -
  obtain m1 where m1: "mtd_erase_retry (Suc 2) b STATUS_SUCCESS m =
      (if fst (mtd_test_step m) = STATUS_SUCCESS then Some (STATUS_SUCCESS, m1)
       else mtd_erase_retry 2 b (fst (mtd_test_step m)) m1)"
    "mtd_inv m1" "sim_nand (nand_of m1) = erase_cells b (sim_nand (nand_of m))"
    "fault_of m1 = fault_of (snd (mtd_test_step m))"
    "TEST_total_page_program m1 = TEST_total_page_program m"
    using erase_retry_step [OF inv v] by blast
  have e3: "MTD_Erase b m = mtd_erase_retry (Suc 2) b STATUS_SUCCESS m"
    by (simp add: MTD_Erase_def MTD_MAX_RETRY_TIMES_def)
  have "\<exists>m'. MTD_Erase b m = Some (STATUS_SUCCESS, m') \<and> mtd_inv m' \<and>
    sim_nand (nand_of m') = erase_cells b (sim_nand (nand_of m)) \<and>
    fault_of m' = fault_of (snd (mtd_test_step m)) \<and>
    TEST_total_page_program m' = TEST_total_page_program m"
  proof (cases "fst (mtd_test_step m) = STATUS_SUCCESS")
    case True
    then show ?thesis
      using m1 by (simp add: e3)
  next
    case False
    then have "quiet (snd (mtd_test_step m))" using test_step_cases [of m] by blast
    then have "quiet m1" using m1(4) by (simp add: quiet_def fault_of_def)
    then have t: "mtd_test_step m1 = (STATUS_SUCCESS, m1)" by (rule test_step_quiet)
    obtain m2 where "mtd_erase_retry 2 b (fst (mtd_test_step m)) m1 =
      Some (STATUS_SUCCESS, m2)" "mtd_inv m2"
      "sim_nand (nand_of m2) = erase_cells b (sim_nand (nand_of m1))" "fault_of m2 = fault_of m1"
      "TEST_total_page_program m2 = TEST_total_page_program m1"
      using erase_retry_step [OF m1(2) v, of 1 "fst (mtd_test_step m)"] t
      by (auto simp flip: numeral_2_eq_2)
    then show ?thesis
      using m1 False by (simp add: e3)
  qed
  then obtain m' where m': "MTD_Erase b m = Some (STATUS_SUCCESS, m')" "mtd_inv m'"
      "sim_nand (nand_of m') = erase_cells b (sim_nand (nand_of m))"
      "fault_of m' = fault_of (snd (mtd_test_step m))"
      "TEST_total_page_program m' = TEST_total_page_program m" by blast
  then show ?thesis
    using v by (intro exI [of _ m']) (auto simp: flash_page_def cell_def erase_cells_get)
qed

section \<open>Read\<close>

definition same_device :: "mtd \<Rightarrow> mtd \<Rightarrow> bool" where
  "same_device m m' \<longleftrightarrow> sim_nand (nand_of m') = sim_nand (nand_of m) \<and>
     sim_nand_status (nand_of m') = sim_nand_status (nand_of m) \<and> fault_of m' = fault_of m \<and>
     TEST_total_page_program m' = TEST_total_page_program m"

lemma same_device_trans: "same_device a b \<Longrightarrow> same_device b c \<Longrightarrow> same_device a c"
  by (simp add: same_device_def)

lemma same_device_inv: "same_device m m' \<Longrightarrow> mtd_inv m \<Longrightarrow> mtd_inv m'"
  by (simp add: same_device_def mtd_inv_def nand_wf_def planes_sync_def cell_def)

lemma same_device_page: "same_device m m' \<Longrightarrow> flash_page m' b pg = flash_page m b pg"
  by (simp add: same_device_def flash_page_def cell_def)

lemma same_device_cell: "same_device m m' \<Longrightarrow> cell m' b pl pg = cell m b pl pg"
  by (simp add: same_device_def cell_def)

text \<open>The copy of one column into the caller's buffer and spare area.\<close>

definition copy_col :: "SIM_COLUMN \<Rightarrow> data_ptr \<Rightarrow> data_ptr option" where
  "copy_col c p = (case p of None \<Rightarrow> Some None
     | Some (mem, off) \<Rightarrow> map_option (\<lambda>mem. Some (mem, off)) (memcpy_at mem off (main_data c)))"

definition copy_spare :: "SIM_COLUMN \<Rightarrow> SPARE option \<Rightarrow> SPARE option" where
  "copy_spare c sp = map_option (\<lambda>_. spare_data c) sp"

lemma read_plane_step:
  assumes v: "valid_block b" "valid_page pg" "pl < 2"
  shows "\<exists>m'. same_device m m' \<and> mtd_read_planes b pg (pl # pls) buf sp m = do {
     buf' \<leftarrow> copy_col (cell m b pl pg) buf;
     if col_state (cell m b pl pg) = SIM_NAND_ERASED
     then Some ((STATUS_FAILURE, buf', copy_spare (cell m b pl pg) sp), m')
     else mtd_read_planes b pg pls (advance_page buf') (copy_spare (cell m b pl pg) sp) m' }"
proof -
  let ?row = "MTD_ROW_ADDRESS b (of_nat pl) pg"
  have r: "unat ?row < CFG_NAND_ROW_COUNT" and rr: "row_ix b pl pg = unat ?row"
    using row_ix_less [OF v(1,3,2)] by (simp_all add: row_ix_def)
  let ?m = "m\<lparr>nand_of := (nand_of m)\<lparr>sim_nand_chip := ucast (MTD_CHIP_NUM b),
    sim_nand_col_addr := 0, sim_nand_row_addr := ?row, sim_nand_state := STATE_READ\<rparr>\<rparr>"
  show ?thesis
    using r rr
    by (intro exI [of _ ?m])
      (auto simp: mtd_read_planes.simps(2) same_device_def fault_of_def Let_def NAND_ReceiveData_def NAND_SelectChip_def
        NAND_WaitRB_def NAND_ECCStatus_def sim_col_chip [where b = b] copy_col_def copy_spare_def
        cell_def split: option.splits Option.bind_split)
qed

lemma one_less_two: "(1 :: nat) < 2"
  by simp

lemma flash_Some_cells:
  assumes "mtd_inv m" "flash_page m b pg = Some (d, s)"
  shows "d = main_data (cell m b 0 pg) @ main_data (cell m b 1 pg)"
    "s = spare_data (cell m b 1 pg)" "length (main_data (cell m b pl pg)) = PAGE_SIZE"
    "pl < 2 \<Longrightarrow> col_state (cell m b pl pg) = SIM_NAND_PROGRAMMED"
  using assms
  by (auto simp: flash_page_def mtd_inv_def nand_wf_def col_wf_def cell_def less_2_cases_iff
      split: if_splits)

lemma read_planes_programmed:
  assumes inv: "mtd_inv m" and v: "valid_block b" "valid_page pg"
    and pg: "flash_page m b pg = Some (d, s)" and len: "\<And>mem. buf = Some mem \<Longrightarrow> MPP_SIZE \<le> length mem"
  shows "\<exists>m'. same_device m m' \<and>
    mtd_read_planes b pg [0, 1] (map_option (\<lambda>mem. (mem, 0)) buf) sp m =
      Some ((STATUS_SUCCESS, map_option (\<lambda>mem. (d @ drop MPP_SIZE mem, MPP_SIZE)) buf,
        map_option (\<lambda>_. s) sp), m')"
proof -
  note c = flash_Some_cells [OF inv pg]
  let ?p = "map_option (\<lambda>mem. (mem, 0 :: nat)) buf"
  let ?q = "map_option (\<lambda>mem. (main_data (cell m b 0 pg) @ drop PAGE_SIZE mem, 0 :: nat)) buf"
  obtain m1 where m1: "same_device m m1" and s1: "mtd_read_planes b pg (0 # [1]) ?p sp m = do {
      buf' \<leftarrow> copy_col (cell m b 0 pg) ?p;
      if col_state (cell m b 0 pg) = SIM_NAND_ERASED
      then Some ((STATUS_FAILURE, buf', copy_spare (cell m b 0 pg) sp), m1)
      else mtd_read_planes b pg [1] (advance_page buf') (copy_spare (cell m b 0 pg) sp) m1 }"
    using read_plane_step [OF v zero_less_numeral] by blast
  have k1: "copy_col (cell m b 0 pg) ?p = Some ?q"
    using len c(3) [of 0] by (cases buf) (auto simp: copy_col_def memcpy_at_def cfg)
  obtain m2 where m2: "same_device m1 m2"
    and s2: "mtd_read_planes b pg (1 # []) (advance_page ?q) (copy_spare (cell m b 0 pg) sp) m1 = do {
      buf' \<leftarrow> copy_col (cell m1 b 1 pg) (advance_page ?q);
      if col_state (cell m1 b 1 pg) = SIM_NAND_ERASED
      then Some ((STATUS_FAILURE, buf', copy_spare (cell m1 b 1 pg)
             (copy_spare (cell m b 0 pg) sp)), m2)
      else mtd_read_planes b pg [] (advance_page buf')
             (copy_spare (cell m1 b 1 pg) (copy_spare (cell m b 0 pg) sp)) m2 }"
    using read_plane_step [OF v one_less_two] by blast
  have k2: "copy_col (cell m b 1 pg) (advance_page ?q) =
      Some (map_option (\<lambda>mem. (d @ drop MPP_SIZE mem, PAGE_SIZE)) buf)"
    using len c(3) [of 0] c(3) [of 1] c(1)
    by (cases buf) (auto simp: copy_col_def memcpy_at_def advance_page_def cfg)
  show ?thesis
    using s1 s2 k1 k2 c(2) c(4) [of 0] c(4) [of 1] same_device_cell [OF m1]
    by (intro exI [of _ m2] conjI same_device_trans [OF m1 m2])
      (cases buf; simp add: copy_spare_def advance_page_def cfg option.map_comp o_def)
qed

definition blank_fill :: "u8 list \<Rightarrow> u8 list" where
  "blank_fill mem = replicate PAGE_SIZE 0xff @ drop PAGE_SIZE mem"

lemma blank_fill_idem [simp]: "blank_fill (blank_fill mem) = blank_fill mem"
  by (simp add: blank_fill_def)

lemma read_planes_blank:
  assumes inv: "mtd_inv m" and v: "valid_block b" "valid_page pg"
    and pg: "flash_page m b pg = None" and len: "\<And>mem. buf = Some mem \<Longrightarrow> MPP_SIZE \<le> length mem"
  shows "\<exists>m'. same_device m m' \<and>
    mtd_read_planes b pg [0, 1] (map_option (\<lambda>mem. (mem, 0)) buf) sp m =
      Some ((STATUS_FAILURE, map_option (\<lambda>mem. (blank_fill mem, 0)) buf,
        map_option (\<lambda>_. (-1, -1)) sp), m')"
proof -
  let ?p = "map_option (\<lambda>mem. (mem, 0 :: nat)) buf"
  have e: "cell m b 0 pg = erased_column"
    by (rule flash_None_cells [OF inv v pg]) simp
  have k: "copy_col erased_column ?p = Some (map_option (\<lambda>mem. (blank_fill mem, 0)) buf)"
    using len by (cases buf) (auto simp: copy_col_def memcpy_at_def erased_column_def blank_fill_def cfg)
  obtain m1 where m1: "same_device m m1" and s1: "mtd_read_planes b pg (0 # [1]) ?p sp m = do {
      buf' \<leftarrow> copy_col (cell m b 0 pg) ?p;
      if col_state (cell m b 0 pg) = SIM_NAND_ERASED
      then Some ((STATUS_FAILURE, buf', copy_spare (cell m b 0 pg) sp), m1)
      else mtd_read_planes b pg [1] (advance_page buf') (copy_spare (cell m b 0 pg) sp) m1 }"
    using read_plane_step [OF v zero_less_numeral] by blast
  show ?thesis
    using s1 k e m1 by (intro exI [of _ m1]) (simp add: copy_spare_def erased_column_def)
qed

lemma length_blank_fill: "MPP_SIZE \<le> length mem \<Longrightarrow> length (blank_fill mem) = length mem"
  by (simp add: blank_fill_def cfg)

lemma read_retry_blank:
  assumes "mtd_inv m" "valid_block b" "valid_page pg"
    "flash_page m b pg = None" "\<And>mem. buf = Some mem \<Longrightarrow> MPP_SIZE \<le> length mem"
  shows "\<exists>m'. same_device m m' \<and>
    mtd_read_retry left b pg (map_option (\<lambda>mem. (mem, 0)) buf) sp m =
      Some ((STATUS_FAILURE, map_option (\<lambda>mem. (blank_fill mem, 0)) buf,
        map_option (\<lambda>_. (-1, -1)) sp), m')"
  using assms
proof (induction left arbitrary: m buf sp)
  case 0
  then show ?case
    using read_planes_blank [of m b pg buf sp] by (auto simp: mtd_read_retry.simps planes_list)
next
  case (Suc left)
  obtain m1 where m1: "same_device m m1"
    "mtd_read_planes b pg [0, 1] (map_option (\<lambda>mem. (mem, 0)) buf) sp m =
      Some ((STATUS_FAILURE, map_option (\<lambda>mem. (blank_fill mem, 0)) buf,
        map_option (\<lambda>_. (-1, -1)) sp), m1)"
    using read_planes_blank [of m b pg buf sp] Suc.prems by blast
  let ?buf = "map_option blank_fill buf" and ?sp = "map_option (\<lambda>_. (-1, -1) :: SPARE) sp"
  have l: "MPP_SIZE \<le> length mem" if "?buf = Some mem" for mem
    using that Suc.prems(5) by (auto simp: length_blank_fill)
  have p1: "flash_page m1 b pg = None"
    using Suc.prems(4) by (simp add: same_device_page [OF m1(1)])
  obtain m2 where m2: "same_device m1 m2"
    "mtd_read_retry left b pg (map_option (\<lambda>mem. (mem, 0)) ?buf) ?sp m1 =
      Some ((STATUS_FAILURE, map_option (\<lambda>mem. (blank_fill mem, 0)) ?buf,
        map_option (\<lambda>_. (-1, -1)) ?sp), m2)"
    using Suc.IH [OF same_device_inv [OF m1(1) Suc.prems(1)] Suc.prems(2,3) p1 l] by blast
  have "mtd_read_retry (Suc left) b pg (map_option (\<lambda>mem. (mem, 0)) buf) sp m =
      mtd_read_retry left b pg (map_option (\<lambda>mem. (blank_fill mem, 0)) buf) ?sp m1"
    using m1(2) by (subst mtd_read_retry.simps) (simp add: planes_list)
  then show ?case
    using m2 same_device_trans [OF m1(1) m2(1)]
    by (intro exI [of _ m2]) (simp add: option.map_comp o_def)
qed

text \<open>
  Reading a page: the data and spare area of a programmed page; failure on an erased one, with
  the first plane of the buffer overwritten.
\<close>

definition read_result :: "(u8 list \<times> SPARE) option \<Rightarrow> u8 list option \<Rightarrow> SPARE option \<Rightarrow>
    STATUS \<times> u8 list option \<times> SPARE option" where
  "read_result pg buf sp = (case pg of
     None \<Rightarrow> (STATUS_FAILURE, map_option blank_fill buf, map_option (\<lambda>_. (-1, -1)) sp)
   | Some (d, s) \<Rightarrow> (STATUS_SUCCESS, map_option (\<lambda>mem. d @ drop MPP_SIZE mem) buf,
       map_option (\<lambda>_. s) sp))"

lemma Read_spec:
  assumes inv: "mtd_inv m" and v: "valid_block b" "valid_page pg"
    and len: "\<And>mem. buf = Some mem \<Longrightarrow> MPP_SIZE \<le> length mem"
  shows "\<exists>m'. MTD_Read b pg buf sp m = Some (read_result (flash_page m b pg) buf sp, m') \<and>
    mtd_inv m' \<and> sim_nand (nand_of m') = sim_nand (nand_of m) \<and>
    fault_of m' = fault_of (snd (mtd_test_step m)) \<and>
    TEST_total_page_program m' = TEST_total_page_program m"
proof -
  have st: "sim_nand_status (nand_of m) = 0" using inv by (simp add: mtd_inv_def)
  obtain m1 r where m1: "MTD_WaitReady b m = Some (r, m1)" "mtd_inv m1"
      "sim_nand (nand_of m1) = sim_nand (nand_of m)" "fault_of m1 = fault_of (snd (mtd_test_step m))"
      "TEST_total_page_program m1 = TEST_total_page_program m"
    using ReadStatus_spec [OF inv v(1)] WaitReady_spec [OF st v(1)] by metis
  have pg: "flash_page m1 b pg = flash_page m b pg"
    using m1(3) by (simp add: flash_page_def cell_def)
  have "\<exists>m2. same_device m1 m2 \<and>
    MTD_Read b pg buf sp m = Some (read_result (flash_page m b pg) buf sp, m2)"
  proof (cases "flash_page m b pg")
    case None
    then show ?thesis
      using read_retry_blank [of m1 b pg buf 2 sp] m1 v pg len
      by (auto simp: MTD_Read_def MTD_MAX_RETRY_TIMES_def read_result_def option.map_comp o_def)
  next
    case (Some x)
    obtain d s where x: "x = (d, s)" by (cases x)
    have "\<exists>m2. same_device m1 m2 \<and>
        mtd_read_retry 2 b pg (map_option (\<lambda>mem. (mem, 0)) buf) sp m1 =
        Some ((STATUS_SUCCESS, map_option (\<lambda>mem. (d @ drop MPP_SIZE mem, MPP_SIZE)) buf,
          map_option (\<lambda>_. s) sp), m2)"
      using read_planes_programmed [of m1 b pg d s buf sp] m1 v pg len Some x
      by (auto simp: mtd_read_retry.simps planes_list split: nat.splits)
    then show ?thesis
      using m1 Some x
      by (auto simp: MTD_Read_def MTD_MAX_RETRY_TIMES_def read_result_def option.map_comp o_def)
  qed
  then obtain m2 where m2: "same_device m1 m2"
    "MTD_Read b pg buf sp m = Some (read_result (flash_page m b pg) buf sp, m2)" by blast
  show ?thesis
    using m1 m2(2) same_device_inv [OF m2(1) m1(2)] m2(1) by (auto simp: same_device_def)
qed

text \<open>One pass over a page of which only the first plane is programmed.\<close>

lemma read_planes_half:
  assumes wf: "nand_wf (nand_of m)" and v: "valid_block b" "valid_page pg"
    and p0: "col_state (cell m b 0 pg) = SIM_NAND_PROGRAMMED"
    and p1: "col_state (cell m b 1 pg) = SIM_NAND_ERASED"
  shows "\<exists>m' mem' sp'. same_device m m' \<and> length mem' = length mem \<and>
    mtd_read_planes b pg [0, 1] (Some (mem, off)) sp m =
      (if off + PAGE_SIZE + PAGE_SIZE \<le> length mem
       then Some ((STATUS_FAILURE, Some (mem', off + PAGE_SIZE), sp'), m') else None)"
proof -
  have len: "length (main_data (cell m b pl pg)) = PAGE_SIZE" for pl
    using wf by (simp add: nand_wf_def col_wf_def cell_def)
  have copy: "copy_col (cell m b pl pg) (Some (mem, off)) =
      (if off + PAGE_SIZE \<le> length mem
       then Some (Some (take off mem @ main_data (cell m b pl pg) @ drop (off + PAGE_SIZE) mem, off))
       else None)" for pl mem off
    by (simp add: copy_col_def memcpy_at_def len)
  let ?sp = "copy_spare (cell m b 0 pg) sp"
  let ?mem = "take off mem @ main_data (cell m b 0 pg) @ drop (off + PAGE_SIZE) mem"
  obtain m1 where m1: "same_device m m1"
    and s1: "mtd_read_planes b pg (0 # [1]) (Some (mem, off)) sp m = do {
      buf' \<leftarrow> copy_col (cell m b 0 pg) (Some (mem, off));
      if col_state (cell m b 0 pg) = SIM_NAND_ERASED
      then Some ((STATUS_FAILURE, buf', ?sp), m1)
      else mtd_read_planes b pg [1] (advance_page buf') ?sp m1 }"
    using read_plane_step [OF v zero_less_numeral] by blast
  obtain m2 where m2: "same_device m1 m2"
    and s2: "mtd_read_planes b pg (1 # []) (Some (?mem, off + PAGE_SIZE)) ?sp m1 = do {
      buf' \<leftarrow> copy_col (cell m1 b 1 pg) (Some (?mem, off + PAGE_SIZE));
      if col_state (cell m1 b 1 pg) = SIM_NAND_ERASED
      then Some ((STATUS_FAILURE, buf', copy_spare (cell m1 b 1 pg) ?sp), m2)
      else mtd_read_planes b pg [] (advance_page buf') (copy_spare (cell m1 b 1 pg) ?sp) m2 }"
    using read_plane_step [OF v one_less_two] by blast
  show ?thesis
  proof (cases "off + PAGE_SIZE + PAGE_SIZE \<le> length mem")
    case True
    then show ?thesis
      using s1 s2 p0 p1 len [of 0] len [of 1] same_device_cell [OF m1]
      by (intro exI [of _ m2] exI [of _ "take (off + PAGE_SIZE) ?mem @
          main_data (cell m b 1 pg) @ drop (off + PAGE_SIZE + PAGE_SIZE) ?mem"]
          exI [of _ "copy_spare (cell m b 1 pg) ?sp"] conjI same_device_trans [OF m1 m2])
        (simp_all add: copy advance_page_def)
  next
    case False
    then show ?thesis
      using s1 s2 p0 p1 len [of 0] same_device_cell [OF m1]
      by (intro exI [of _ m2] exI [of _ mem] exI conjI same_device_trans [OF m1 m2])
        (auto simp: copy advance_page_def)
  qed
qed

text \<open>
  The pointer that \<open>MTD_Read\<close> advances per plane is not reset for a retry: when the first plane
  reads and the second does not, the retry copies past the end of a buffer of \<open>MPP_SIZE\<close> bytes.
\<close>

lemma Read_half_page:
  assumes wf: "nand_wf (nand_of m)" and st: "sim_nand_status (nand_of m) = 0"
    and v: "valid_block b" "valid_page pg"
    and p0: "col_state (cell m b 0 pg) = SIM_NAND_PROGRAMMED"
    and p1: "col_state (cell m b 1 pg) = SIM_NAND_ERASED"
    and len: "length buf = MPP_SIZE"
  shows "MTD_Read b pg (Some buf) sp m = None"
proof -
  obtain m0 where m0: "MTD_WaitReady b m = Some (fst (mtd_test_step m), m0)"
      "sim_nand (nand_of m0) = sim_nand (nand_of m)"
    using ReadStatus_device [OF st v(1)] WaitReady_spec [OF st v(1)] by metis
  have wf0: "nand_wf (nand_of m0)" and c0: "cell m0 = cell m"
    using wf m0(2) by (auto simp: nand_wf_def cell_def fun_eq_iff)
  obtain m1 mem1 sp1 where m1: "same_device m0 m1" "length mem1 = MPP_SIZE"
    and e1: "mtd_read_planes b pg [0, 1] (Some (buf, 0)) sp m0 =
       Some ((STATUS_FAILURE, Some (mem1, PAGE_SIZE), sp1), m1)"
    using read_planes_half [OF wf0 v, of buf 0 sp] p0 p1 len by (auto simp: c0 cfg)
  have wf1: "nand_wf (nand_of m1)" using wf0 m1(1) by (simp add: nand_wf_def same_device_def)
  have "mtd_read_planes b pg [0, 1] (Some (mem1, PAGE_SIZE)) sp1 m1 = None"
    using read_planes_half [OF wf1 v, of mem1 PAGE_SIZE sp1] p0 p1 m1(2)
    by (auto simp: c0 same_device_cell [OF m1(1)] cfg)
  then have "mtd_read_retry (Suc 1) b pg (Some (buf, 0)) sp m0 = None"
    using e1 by (simp add: mtd_read_retry.simps planes_list)
  then show ?thesis
    using m0 by (simp add: MTD_Read_def MTD_MAX_RETRY_TIMES_def numeral_2_eq_2)
qed

section \<open>Bad-block mark and initialisation\<close>

text \<open>The simulator has no factory-marked bad block: every inspection passes.\<close>

lemma check_page_ok:
  assumes "valid_block b" "pl < 2"
  shows "\<exists>m'. mtd_check_page b (pl, p) (STATUS_SUCCESS, m) = Some (STATUS_SUCCESS, m') \<and>
    same_device m m'"
proof -
  have v0: "valid_page 0" by (simp add: valid_page_unat)
  have "row_ix b pl 0 mod 32 = 0"
    using row_ix_eq [OF assms v0] by simp
  then have "unat (MTD_ROW_ADDRESS b (of_nat pl) 0) \<noteq> 255"
    by (auto simp: row_ix_def)
  then have "MTD_ROW_ADDRESS b (of_nat pl) 0 \<noteq> ucast MAX_UINT8"
    by (auto simp: MAX_UINT8_def unsigned_ucast_eq unsigned_minus_1_eq_mask mask_eq_exp_minus_1
        take_bit_nat_eq_self)
  then show ?thesis
    by (simp add: mtd_check_page_def Let_def NAND_ReceiveBytes_def NAND_WaitRB_def rd_def cfg
        same_device_def fault_of_def)
qed

lemma CheckBlock_spec:
  assumes "valid_block b"
  shows "\<exists>m'. MTD_CheckBlock b m = Some (STATUS_SUCCESS, m') \<and> same_device m m'"
proof -
  let ?I = "\<lambda>s. fst s = STATUS_SUCCESS \<and> same_device m (snd s)"
  have "\<exists>s'. foldM (mtd_check_page b) (List.product [0..<PLANE_PER_DIE] [0..<2]) (STATUS_SUCCESS, m)
      = Some s' \<and> ?I s'"
  proof (rule foldM_inv_list)
    show "?I (STATUS_SUCCESS, m)" by (simp add: same_device_def)
  next
    fix x s assume x: "x \<in> set (List.product [0..<PLANE_PER_DIE] [0..<2])" and I: "?I s"
    obtain pl p where x': "x = (pl, p)" by (cases x)
    have "pl < 2" using x x' by (simp add: cfg)
    from check_page_ok [OF assms this, of p "snd s"] I x'
    show "\<exists>s'. mtd_check_page b x s = Some s' \<and> ?I s'"
      by (cases s) (auto intro: same_device_trans)
  qed
  then show ?thesis by (auto simp: MTD_CheckBlock_def)
qed

lemma Reset_nand:
  "sim_nand (nand_of (MTD_Reset m)) = sim_nand (nand_of m)"
  "sim_nand_status (nand_of (MTD_Reset m)) = sim_nand_status (nand_of m)"
proof -
  have "sim_nand (fold (\<lambda>chip n. NAND_SendCMD CMD_RESET (NAND_SelectChip (of_nat chip) n)) cs n)
      = sim_nand n \<and>
    sim_nand_status (fold (\<lambda>chip n. NAND_SendCMD CMD_RESET (NAND_SelectChip (of_nat chip) n)) cs n)
      = sim_nand_status n" for cs n
    by (induction cs arbitrary: n) simp_all
  then show "sim_nand (nand_of (MTD_Reset m)) = sim_nand (nand_of m)"
    "sim_nand_status (nand_of (MTD_Reset m)) = sim_nand_status (nand_of m)"
    by (simp_all add: MTD_Reset_def del: NAND_SendCMD.simps)
qed

lemma Init_spec:
  assumes "sim_nand_status (nand_of m) = 0"
  shows "mtd_inv (MTD_Init m)" "quiet (MTD_Init m)" "flash_page (MTD_Init m) b pg = None"
  using assms
  by (simp_all add: MTD_Init_def MTD_TestReset_def mtd_inv_def nand_wf_def planes_sync_def quiet_def
      flash_page_def cell_def Reset_nand NAND_Init_def)

section \<open>The contract\<close>

locale flash =
  fixes inv :: "'s \<Rightarrow> bool"
    and page :: "'s \<Rightarrow> u32 \<Rightarrow> u32 \<Rightarrow> (u8 list \<times> SPARE) option"
    and fault :: "'s \<Rightarrow> TEST_MODE \<times> u32 \<times> u32"
    and prog :: "u32 \<Rightarrow> u32 \<Rightarrow> u8 list option \<Rightarrow> SPARE option \<Rightarrow> 's \<Rightarrow> (STATUS \<times> 's) option"
    and erase :: "u32 \<Rightarrow> 's \<Rightarrow> (STATUS \<times> 's) option"
    and wait :: "u32 \<Rightarrow> 's \<Rightarrow> (STATUS \<times> 's) option"
    and read :: "u32 \<Rightarrow> u32 \<Rightarrow> u8 list option \<Rightarrow> SPARE option \<Rightarrow> 's \<Rightarrow>
      ((STATUS \<times> u8 list option \<times> SPARE option) \<times> 's) option"
  assumes prog_free: "inv s \<Longrightarrow> valid_block b \<Longrightarrow> valid_page p \<Longrightarrow> page s b p = None \<Longrightarrow>
      length d = MPP_SIZE \<Longrightarrow> \<exists>s'. prog b p (Some d) sp s = Some (STATUS_SUCCESS, s') \<and> inv s' \<and>
        fault s' = fault s \<and> (\<forall>b' p'. valid_block b' \<longrightarrow> valid_page p' \<longrightarrow>
          page s' b' p' = (if b' = b \<and> p' = p then Some (d, spare_val sp) else page s b' p'))"
    and prog_used: "inv s \<Longrightarrow> valid_block b \<Longrightarrow> valid_page p \<Longrightarrow> page s b p \<noteq> None \<Longrightarrow>
      prog b p buf sp s = None"
    and erase_ok: "inv s \<Longrightarrow> valid_block b \<Longrightarrow> \<exists>s'. erase b s = Some (STATUS_SUCCESS, s') \<and> inv s' \<and>
        fault s' = fault_tick (fault s) \<and> (\<forall>b' p'. valid_block b' \<longrightarrow> valid_page p' \<longrightarrow>
          page s' b' p' = (if b' = b then None else page s b' p'))"
    and wait_ok: "inv s \<Longrightarrow> valid_block b \<Longrightarrow> \<exists>s'. wait b s = Some (fault_out (fault s), s') \<and> inv s' \<and>
        fault s' = fault_tick (fault s) \<and> page s' = page s"
    and read_ok: "inv s \<Longrightarrow> valid_block b \<Longrightarrow> valid_page p \<Longrightarrow>
      (\<And>mem. buf = Some mem \<Longrightarrow> MPP_SIZE \<le> length mem) \<Longrightarrow>
      \<exists>s'. read b p buf sp s = Some (read_result (page s b p) buf sp, s') \<and> inv s' \<and>
        fault s' = fault_tick (fault s) \<and> page s' = page s"
begin

text \<open>What was programmed is read back, by any reader buffer of the right size.\<close>

lemma read_after_prog:
  assumes "inv s" "valid_block b" "valid_page p" "page s b p = None"
    and "length d = MPP_SIZE" "length mem = MPP_SIZE"
  shows "\<exists>s1 s2. prog b p (Some d) sp s = Some (STATUS_SUCCESS, s1) \<and>
    read b p (Some mem) (Some x) s1 = Some ((STATUS_SUCCESS, Some d, Some (spare_val sp)), s2) \<and> inv s2"
proof -
  obtain s1 where s1: "prog b p (Some d) sp s = Some (STATUS_SUCCESS, s1)" "inv s1"
      "page s1 b p = Some (d, spare_val sp)"
    using prog_free [OF assms(1-5), of sp] assms(2,3) by auto
  from read_ok [OF s1(2) assms(2,3), of "Some mem" "Some x"] s1 assms(6)
  show ?thesis by (auto simp: read_result_def)
qed

text \<open>A page that was programmed is programmed again only after an erase of its block.\<close>

lemma reprogram:
  assumes "inv s" "valid_block b" "valid_page p" "page s b p = None" "length d = MPP_SIZE"
  shows "\<exists>s1. prog b p (Some d) sp s = Some (STATUS_SUCCESS, s1) \<and> prog b p buf' sp' s1 = None \<and>
    (\<exists>s2. erase b s1 = Some (STATUS_SUCCESS, s2) \<and> (\<forall>d'. length d' = MPP_SIZE \<longrightarrow>
      (\<exists>s3. prog b p (Some d') sp' s2 = Some (STATUS_SUCCESS, s3))))"
proof -
  obtain s1 where s1: "prog b p (Some d) sp s = Some (STATUS_SUCCESS, s1)" "inv s1"
      "page s1 b p = Some (d, spare_val sp)"
    using prog_free [OF assms, of sp] assms(2,3) by auto
  obtain s2 where s2: "erase b s1 = Some (STATUS_SUCCESS, s2)" "inv s2" "page s2 b p = None"
    using erase_ok [OF s1(2) assms(2)] assms(2,3) by auto
  show ?thesis
    using s1 s2 prog_used [OF s1(2) assms(2,3)] prog_free [OF s2(2) assms(2,3) s2(3)]
    by (metis option.distinct(1))
qed

end

interpretation mtd_flash: flash mtd_inv flash_page fault_of MTD_Program MTD_Erase MTD_WaitReady MTD_Read
proof unfold_locales
  fix m b p sp and d :: "u8 list"
  assume "mtd_inv m" "valid_block b" "valid_page p" "flash_page m b p = None" "length d = MPP_SIZE"
  from Program_spec [OF this, of sp]
  show "\<exists>m'. MTD_Program b p (Some d) sp m = Some (STATUS_SUCCESS, m') \<and> mtd_inv m' \<and>
    fault_of m' = fault_of m \<and> (\<forall>b' p'. valid_block b' \<longrightarrow> valid_page p' \<longrightarrow> flash_page m' b' p' =
      (if b' = b \<and> p' = p then Some (d, spare_val sp) else flash_page m b' p'))" by blast
next
  fix m b p sp and buf :: "u8 list option"
  assume "mtd_inv m" "valid_block b" "valid_page p" "flash_page m b p \<noteq> None"
  then show "MTD_Program b p buf sp m = None" by (rule Program_programmed)
next
  fix m b
  assume "mtd_inv m" "valid_block b"
  from Erase_spec [OF this]
  show "\<exists>m'. MTD_Erase b m = Some (STATUS_SUCCESS, m') \<and> mtd_inv m' \<and>
    fault_of m' = fault_tick (fault_of m) \<and> (\<forall>b' p'. valid_block b' \<longrightarrow> valid_page p' \<longrightarrow>
      flash_page m' b' p' = (if b' = b then None else flash_page m b' p'))"
    by (auto simp: test_step_fault)
next
  fix m b
  assume a: "mtd_inv m" "valid_block b"
  then have "sim_nand_status (nand_of m) = 0" by (simp add: mtd_inv_def)
  from ReadStatus_spec [OF a] WaitReady_spec [OF this a(2)]
  show "\<exists>m'. MTD_WaitReady b m = Some (fault_out (fault_of m), m') \<and> mtd_inv m' \<and>
    fault_of m' = fault_tick (fault_of m) \<and> flash_page m' = flash_page m"
    by (auto simp: test_step_fault flash_page_def cell_def fun_eq_iff)
next
  fix m b p sp and buf :: "u8 list option"
  assume "mtd_inv m" "valid_block b" "valid_page p"
    and "\<And>mem. buf = Some mem \<Longrightarrow> MPP_SIZE \<le> length mem"
  then obtain m' where "MTD_Read b p buf sp m = Some (read_result (flash_page m b p) buf sp, m')"
    "mtd_inv m'" "sim_nand (nand_of m') = sim_nand (nand_of m)"
    "fault_of m' = fault_of (snd (mtd_test_step m))"
    using Read_spec [of m b p buf sp] by blast
  then show "\<exists>m'. MTD_Read b p buf sp m = Some (read_result (flash_page m b p) buf sp, m') \<and>
    mtd_inv m' \<and> fault_of m' = fault_tick (fault_of m) \<and> flash_page m' = flash_page m"
    by (intro exI [of _ m']) (simp add: test_step_fault flash_page_def cell_def fun_eq_iff)
qed

end
