(* ===== verification/Buf.thy ===== *)
theory Buf
  imports Config
begin

text \<open>
  The page-buffer pool and the sector gathering of core/buf/buf_api.c.  A buffer pointer is null,
  the address of a pool entry, or some other memory, which is represented by its contents.
  \<open>BUF_GetPage\<close> reads the old page through the FTL and is modelled with the FTL.
\<close>

datatype buffer = BufNull | BufPool nat | BufMem "u8 list"

record buf =
  pb_pool :: "u8 list list"
  pb_pool_used :: "bool list"
  sector_written :: "bool list"
  write_buffer :: buffer
  merge_buffer :: buffer
  buf_start_addr :: u32
  buf_end_addr :: u32

text \<open>The bytes a buffer pointer refers to.\<close>

definition buf_contents :: "buf \<Rightarrow> buffer \<Rightarrow> u8 list option" where
  "buf_contents b p = (case p of BufNull \<Rightarrow> None | BufPool i \<Rightarrow> rd (pb_pool b) i | BufMem m \<Rightarrow> Some m)"

definition buf_memcpy :: "buffer \<Rightarrow> nat \<Rightarrow> u8 list \<Rightarrow> buf \<Rightarrow> buf option" where
  "buf_memcpy p off src b = (case p of
     BufPool i \<Rightarrow> do {
       mem \<leftarrow> rd (pb_pool b) i;
       mem \<leftarrow> memcpy_at mem off src;
       pool \<leftarrow> wr (pb_pool b) i mem;
       Some (b\<lparr>pb_pool := pool\<rparr>) }
   | _ \<Rightarrow> None)"

section \<open>Operations\<close>

fun buf_alloc_scan :: "nat list \<Rightarrow> bool list \<Rightarrow> (buffer \<times> bool list) option" where
  "buf_alloc_scan [] used = Some (BufNull, used)"
| "buf_alloc_scan (i # is) used = do {
     u \<leftarrow> rd used i;
     if \<not> u then do { used \<leftarrow> wr used i True; Some (BufPool i, used) }
     else do {
       let j = i + BUFFER_COUNT div 2;
       u \<leftarrow> rd used j;
       if \<not> u then do { used \<leftarrow> wr used j True; Some (BufPool j, used) }
       else buf_alloc_scan is used } }"

definition BUF_Allocate :: "buf \<Rightarrow> (buffer \<times> buf) option" where
  "BUF_Allocate b = do {
     (ret, used) \<leftarrow> buf_alloc_scan [0..<BUFFER_COUNT div 2] (pb_pool_used b);
     Some (ret, b\<lparr>pb_pool_used := used\<rparr>) }"

fun buf_free_scan :: "nat list \<Rightarrow> buffer \<Rightarrow> bool list \<Rightarrow> bool list option" where
  "buf_free_scan [] p used = Some used"
| "buf_free_scan (i # is) p used =
     (if BufPool i = p then do {
        u \<leftarrow> rd used i;
        ASSERT u;
        wr used i False }
      else buf_free_scan is p used)"

definition BUF_Free :: "buffer \<Rightarrow> buf \<Rightarrow> buf option" where
  "BUF_Free p b = do {
     used \<leftarrow> buf_free_scan [0..<BUFFER_COUNT] p (pb_pool_used b);
     Some (b\<lparr>pb_pool_used := used\<rparr>) }"

definition BUF_Init :: "buf \<Rightarrow> buf option" where
  "BUF_Init b = do {
     let b = b\<lparr>buf_start_addr := INVALID_LSADDR, buf_end_addr := INVALID_LSADDR\<rparr>;
     used \<leftarrow> foldM (\<lambda>i used. wr used i False) [0..<BUFFER_COUNT] (pb_pool_used b);
     written \<leftarrow> foldM (\<lambda>i w. wr w i False) [0..<SECTOR_PER_MPP] (sector_written b);
     (p, b) \<leftarrow> BUF_Allocate (b\<lparr>pb_pool_used := used, sector_written := written\<rparr>);
     Some (b\<lparr>write_buffer := p, merge_buffer := BufNull\<rparr>) }"

definition BUF_PutSector :: "u32 \<Rightarrow> u8 list \<Rightarrow> buf \<Rightarrow> buf option" where
  "BUF_PutSector addr sector b = do {
     ASSERT (write_buffer b \<noteq> BufNull);
     let b = (if buf_end_addr b = INVALID_LSADDR
              then b\<lparr>buf_start_addr := addr AND NOT (SECTOR_PER_MPP - 1),
                     buf_end_addr := addr OR (SECTOR_PER_MPP - 1)\<rparr>
              else b);
     ASSERT (addr \<ge> buf_start_addr b \<and> addr \<le> buf_end_addr b);
     src \<leftarrow> memget sector 0 SECTOR_SIZE;
     b \<leftarrow> buf_memcpy (write_buffer b) (unat ((addr - buf_start_addr b) * of_nat SECTOR_SIZE)) src b;
     written \<leftarrow> wr (sector_written b) (unat (addr - buf_start_addr b)) True;
     Some (b\<lparr>sector_written := written\<rparr>) }"

section \<open>The pool\<close>

definition buf_wf :: "buf \<Rightarrow> bool" where
  "buf_wf b \<longleftrightarrow> length (pb_pool b) = BUFFER_COUNT \<and> (\<forall>m \<in> set (pb_pool b). length m = MPP_SIZE) \<and>
     length (pb_pool_used b) = BUFFER_COUNT \<and> length (sector_written b) = SECTOR_PER_MPP"

definition buf_used :: "buf \<Rightarrow> nat set" where
  "buf_used b = {i. i < BUFFER_COUNT \<and> pb_pool_used b ! i}"

lemma alloc_scan_spec:
  assumes "length used = BUFFER_COUNT" "\<forall>i \<in> set is. i < BUFFER_COUNT div 2"
  shows "(\<exists>k. (k \<in> set is \<or> k \<in> (\<lambda>i. i + BUFFER_COUNT div 2) ` set is) \<and> \<not> used ! k \<and>
      buf_alloc_scan is used = Some (BufPool k, used[k := True])) \<or>
    (\<forall>i \<in> set is. used ! i \<and> used ! (i + BUFFER_COUNT div 2)) \<and>
      buf_alloc_scan is used = Some (BufNull, used)"
  using assms(2)
proof (induction "is")
  case Nil
  then show ?case by simp
next
  case (Cons i "is")
  let ?j = "i + BUFFER_COUNT div 2"
  have len: "i < length used" "?j < length used"
    using assms(1) Cons.prems by (simp_all add: cfg)
  consider "\<not> used ! i" | "used ! i" "\<not> used ! ?j" | "used ! i" "used ! ?j" by blast
  then show ?case
  proof cases
    case 1
    then show ?thesis using len by (intro disjI1 exI [of _ i]) (simp add: exec)
  next
    case 2
    then show ?thesis using len by (intro disjI1 exI [of _ ?j]) (simp add: exec Let_def)
  next
    case 3
    then have "buf_alloc_scan (i # is) used = buf_alloc_scan is used"
      using len by (simp add: exec)
    then show ?thesis
      using Cons.IH Cons.prems 3 by auto
  qed
qed

lemma Allocate_spec:
  assumes "buf_wf b"
  shows "(\<exists>k. k < BUFFER_COUNT \<and> k \<notin> buf_used b \<and>
      BUF_Allocate b = Some (BufPool k, b\<lparr>pb_pool_used := (pb_pool_used b)[k := True]\<rparr>)) \<or>
    buf_used b = {..<BUFFER_COUNT} \<and> BUF_Allocate b = Some (BufNull, b)"
proof -
  have half: "i < BUFFER_COUNT \<longleftrightarrow> i < BUFFER_COUNT div 2 \<or> (\<exists>j < BUFFER_COUNT div 2. i = j + BUFFER_COUNT div 2)"
    for i
  proof
    assume "i < BUFFER_COUNT"
    then have "i < 9 \<or> i - 9 < 9 \<and> i = i - 9 + 9" by (simp add: cfg) linarith
    then show "i < BUFFER_COUNT div 2 \<or> (\<exists>j < BUFFER_COUNT div 2. i = j + BUFFER_COUNT div 2)"
      by (auto simp: cfg)
  qed (auto simp: cfg)
  have len: "length (pb_pool_used b) = BUFFER_COUNT" using assms by (simp add: buf_wf_def)
  have idx: "\<forall>i \<in> set [0..<BUFFER_COUNT div 2]. i < BUFFER_COUNT div 2" by simp
  from alloc_scan_spec [OF len idx] consider
    (some) k where "k < BUFFER_COUNT" "\<not> pb_pool_used b ! k"
      "buf_alloc_scan [0..<BUFFER_COUNT div 2] (pb_pool_used b) =
         Some (BufPool k, (pb_pool_used b)[k := True])"
  | (none) "\<forall>i < BUFFER_COUNT div 2. pb_pool_used b ! i \<and> pb_pool_used b ! (i + BUFFER_COUNT div 2)"
      "buf_alloc_scan [0..<BUFFER_COUNT div 2] (pb_pool_used b) = Some (BufNull, pb_pool_used b)"
    by (auto simp: cfg)
  then show ?thesis
  proof cases
    case some
    then show ?thesis by (auto simp: BUF_Allocate_def buf_used_def)
  next
    case none
    then have "buf_used b = {..<BUFFER_COUNT}"
      by (auto simp: buf_used_def half)
    then show ?thesis using none by (simp add: BUF_Allocate_def)
  qed
qed

lemma free_scan_other:
  "(\<forall>i \<in> set is. BufPool i \<noteq> p) \<Longrightarrow> buf_free_scan is p used = Some used"
  by (induction "is") auto

lemma free_scan_pool:
  "k \<in> set is \<Longrightarrow> k < length used \<Longrightarrow>
   buf_free_scan is (BufPool k) used = (if used ! k then Some (used[k := False]) else None)"
  by (induction "is") (auto simp: exec)

lemma Free_pool:
  assumes "buf_wf b" "k < BUFFER_COUNT"
  shows "BUF_Free (BufPool k) b = (if k \<in> buf_used b
    then Some (b\<lparr>pb_pool_used := (pb_pool_used b)[k := False]\<rparr>) else None)"
  using assms by (simp add: BUF_Free_def free_scan_pool buf_wf_def buf_used_def)

lemma Free_other: "BUF_Free (BufMem m) b = Some b" "BUF_Free BufNull b = Some b"
  by (simp_all add: BUF_Free_def free_scan_other)

text \<open>The contract of a pool of numbered buffers.\<close>

locale page_pool =
  fixes inv :: "'s \<Rightarrow> bool"
    and used :: "'s \<Rightarrow> nat set"
    and size :: nat
    and alloc :: "'s \<Rightarrow> (buffer \<times> 's) option"
    and free :: "buffer \<Rightarrow> 's \<Rightarrow> 's option"
  assumes used_bound: "inv s \<Longrightarrow> used s \<subseteq> {..<size}"
    and alloc_cases: "inv s \<Longrightarrow>
      (\<exists>k s'. k < size \<and> k \<notin> used s \<and> alloc s = Some (BufPool k, s') \<and> inv s' \<and>
         used s' = insert k (used s)) \<or>
      used s = {..<size} \<and> alloc s = Some (BufNull, s)"
    and free_used: "inv s \<Longrightarrow> k \<in> used s \<Longrightarrow>
      \<exists>s'. free (BufPool k) s = Some s' \<and> inv s' \<and> used s' = used s - {k}"
    and free_unused: "inv s \<Longrightarrow> k < size \<Longrightarrow> k \<notin> used s \<Longrightarrow> free (BufPool k) s = None"
begin

text \<open>An allocation fails exactly when every buffer is in use.\<close>

lemma alloc_null_iff:
  "inv s \<Longrightarrow> (\<exists>s'. alloc s = Some (BufNull, s')) \<longleftrightarrow> used s = {..<size}"
  using alloc_cases [of s] used_bound [of s] by auto

text \<open>Two allocations without a release never return the same buffer.\<close>

lemma alloc_distinct:
  assumes "inv s" "alloc s = Some (BufPool i, s1)" "alloc s1 = Some (BufPool j, s2)"
  shows "i \<noteq> j"
proof -
  have "inv s1" "used s1 = insert i (used s)"
    using alloc_cases [OF assms(1)] assms(2) by auto
  then show ?thesis using alloc_cases [of s1] assms(3) by auto
qed

text \<open>Releasing a buffer twice is caught, and a released buffer makes the next allocation succeed.\<close>

lemma free_twice:
  assumes "inv s" "k \<in> used s"
  shows "\<exists>s'. free (BufPool k) s = Some s' \<and> free (BufPool k) s' = None"
  using free_used [OF assms] free_unused used_bound [OF assms(1)] assms(2) by blast

lemma alloc_after_free:
  assumes "inv s" "k \<in> used s" "free (BufPool k) s = Some s'"
  shows "\<exists>i s''. alloc s' = Some (BufPool i, s'') \<and> inv s'' \<and> used s'' = insert i (used s')"
proof -
  have s': "inv s'" "used s' = used s - {k}" using free_used [OF assms(1,2)] assms(3) by auto
  have "k < size" using used_bound [OF assms(1)] assms(2) by blast
  then have "used s' \<noteq> {..<size}" using s'(2) by blast
  then show ?thesis using alloc_cases [OF s'(1)] by auto
qed

end

interpretation buf_pool: page_pool buf_wf buf_used BUFFER_COUNT BUF_Allocate BUF_Free
proof unfold_locales
  fix b :: buf
  assume wf: "buf_wf b"
  show "buf_used b \<subseteq> {..<BUFFER_COUNT}" by (auto simp: buf_used_def)
  show "(\<exists>k b'. k < BUFFER_COUNT \<and> k \<notin> buf_used b \<and> BUF_Allocate b = Some (BufPool k, b') \<and>
      buf_wf b' \<and> buf_used b' = insert k (buf_used b)) \<or>
    buf_used b = {..<BUFFER_COUNT} \<and> BUF_Allocate b = Some (BufNull, b)"
    using Allocate_spec [OF wf] wf
    by (fastforce simp: buf_wf_def buf_used_def nth_list_update split: if_splits)
next
  fix b :: buf and k
  assume wf: "buf_wf b" and k: "k \<in> buf_used b"
  then show "\<exists>b'. BUF_Free (BufPool k) b = Some b' \<and> buf_wf b' \<and> buf_used b' = buf_used b - {k}"
    using Free_pool [OF wf, of k]
    by (auto simp: buf_wf_def buf_used_def nth_list_update split: if_splits)
next
  fix b :: buf and k
  assume "buf_wf b" "k < BUFFER_COUNT" "k \<notin> buf_used b"
  then show "BUF_Free (BufPool k) b = None" by (simp add: Free_pool)
qed

lemma set_all_False:
  "n \<le> length xs \<Longrightarrow> foldM (\<lambda>i used. wr used i False) [0..<n] xs = Some (replicate n False @ drop n xs)"
proof (induction n)
  case 0
  then show ?case by simp
next
  case (Suc n)
  then show ?case
    by (simp add: foldM_append wr_def list_update_append replicate_append_same [symmetric]
        Cons_nth_drop_Suc [symmetric])
qed

text \<open>\<open>BUF_Init\<close> is one allocation from a pool of which nothing is used.\<close>

lemma Init_allocate:
  assumes "buf_wf b"
  shows "\<exists>bi. buf_wf bi \<and> buf_used bi = {} \<and>
    BUF_Init b = map_option (\<lambda>(p, b). b\<lparr>write_buffer := p, merge_buffer := BufNull\<rparr>) (BUF_Allocate bi)"
proof -
  let ?bi = "b\<lparr>buf_start_addr := INVALID_LSADDR, buf_end_addr := INVALID_LSADDR,
    pb_pool_used := replicate BUFFER_COUNT False, sector_written := replicate SECTOR_PER_MPP False\<rparr>"
  have "BUF_Init b = map_option (\<lambda>(p, b). b\<lparr>write_buffer := p, merge_buffer := BufNull\<rparr>) (BUF_Allocate ?bi)"
    using assms
    by (cases "BUF_Allocate ?bi") (auto simp: BUF_Init_def set_all_False buf_wf_def cfg)
  moreover have "buf_wf ?bi" "buf_used ?bi = {}"
    using assms by (auto simp: buf_wf_def buf_used_def)
  ultimately show ?thesis by blast
qed

section \<open>Gathering sectors\<close>

lemma mask4: "(15 :: u32) = mask 4"
  by (simp add: mask_eq_exp_minus_1)

lemma page_start_eq: "x AND NOT 15 = push_bit 4 (drop_bit 4 (x :: u32))"
  unfolding mask4 by (rule bit_word_eqI) (auto simp: bit_simps)

lemma page_index_bound: "unat (x :: u32) div 16 < 268435456"
  using unsigned_less [of x, where ?'a = nat] by (simp add: less_mult_imp_div_less)

lemma unat_page_start: "unat (x AND NOT 15 :: u32) = unat x div 16 * 16"
  unfolding page_start_eq using page_index_bound [of x]
  by (subst unat_push_bit_u32) (simp_all only: unat_drop_bit_u32, simp_all)

lemma unat_page_end: "unat (x OR 15 :: u32) = unat x div 16 * 16 + 15"
proof -
  have "(x AND NOT 15) AND 15 = 0" by (rule bit_word_eqI) (auto simp: bit_simps)
  moreover have "x OR 15 = (x AND NOT 15) OR 15" by (rule bit_word_eqI) (auto simp: bit_simps)
  ultimately have "x OR 15 = (x AND NOT 15) + 15"
    by (simp only: disjunctive_add_eq_or)
  moreover have "unat x div 16 * 16 + 15 < 4294967296"
    using page_index_bound [of x] by linarith
  ultimately show ?thesis
    using unat_page_start [of x] by (simp add: unat_word_ariths)
qed

text \<open>
  The window of the write buffer: closed, or the 16 sectors of one page.  The end address of the
  topmost page is the sentinel itself, so a window is never opened there.
\<close>

definition window :: "buf \<Rightarrow> u32 \<Rightarrow> bool" where
  "window b addr \<longleftrightarrow> buf_end_addr b = INVALID_LSADDR \<or>
     buf_start_addr b = addr AND NOT (SECTOR_PER_MPP - 1) \<and>
     buf_end_addr b = addr OR (SECTOR_PER_MPP - 1)"

definition buffered_sector :: "buf \<Rightarrow> nat \<Rightarrow> u8 list option" where
  "buffered_sector b i = do {
     mem \<leftarrow> buf_contents b (write_buffer b);
     memget mem (i * SECTOR_SIZE) SECTOR_SIZE }"

lemma sector_offset:
  fixes addr :: u32
  shows "unat (addr - (addr AND NOT 15)) = unat addr mod 16"
    "unat ((addr - (addr AND NOT 15)) * 512) = unat addr mod 16 * 512"
    "addr AND NOT 15 \<le> addr" "addr \<le> addr OR 15"
proof -
  have le: "unat (addr AND NOT 15) \<le> unat addr" unfolding unat_page_start by simp
  then show le': "addr AND NOT 15 \<le> addr" by (simp add: word_le_nat_alt)
  show s: "unat (addr - (addr AND NOT 15)) = unat addr mod 16"
    using unat_sub [OF le'] by (simp only: unat_page_start minus_div_mult_eq_mod)
  show "addr \<le> addr OR 15"
    using unat_page_end [of addr] mod_less_divisor [of 16 "unat addr"]
      div_mult_mod_eq [of "unat addr" 16] unfolding word_le_nat_alt by linarith
  have "unat w * 512 < 4294967296 \<Longrightarrow> unat (w * 512) = unat w * 512" for w :: u32
    by (simp add: unat_word_ariths)
  from this [of "addr - (addr AND NOT 15)"]
  show "unat ((addr - (addr AND NOT 15)) * 512) = unat addr mod 16 * 512"
    unfolding s using mod_less_divisor [of 16 "unat addr"] by linarith
qed

text \<open>Copying a sector into the pool entry of the write buffer.\<close>

lemma memcpy_sector:
  assumes wf: "buf_wf b" and k: "k < BUFFER_COUNT" and i: "i < 16" and len: "length sector = SECTOR_SIZE"
  shows "\<exists>mem. buf_memcpy (BufPool k) (i * SECTOR_SIZE) sector b = Some (b\<lparr>pb_pool := (pb_pool b)[k := mem]\<rparr>) \<and>
    length mem = MPP_SIZE \<and>
    (\<forall>j < 16. memget mem (j * SECTOR_SIZE) SECTOR_SIZE =
      (if j = i then Some sector else memget (pb_pool b ! k) (j * SECTOR_SIZE) SECTOR_SIZE))"
proof -
  have lens: "length (pb_pool b) = BUFFER_COUNT" "\<forall>m \<in> set (pb_pool b). length m = MPP_SIZE"
    using wf by (simp_all add: buf_wf_def)
  then have lk: "length (pb_pool b ! k) = MPP_SIZE" using k by simp
  have fits: "i * SECTOR_SIZE + length sector \<le> length (pb_pool b ! k)"
    using i lk len by (simp add: cfg)
  define mem where "mem = take (i * SECTOR_SIZE) (pb_pool b ! k) @ sector @
    drop (i * SECTOR_SIZE + length sector) (pb_pool b ! k)"
  have m: "memcpy_at (pb_pool b ! k) (i * SECTOR_SIZE) sector = Some mem"
    using fits by (simp add: memcpy_at_def mem_def)
  have same: "memget mem (i * SECTOR_SIZE) SECTOR_SIZE = Some sector"
    using memget_memcpy_same [OF m] len by simp
  have other: "memget mem (j * SECTOR_SIZE) SECTOR_SIZE = memget (pb_pool b ! k) (j * SECTOR_SIZE) SECTOR_SIZE"
    if "j \<noteq> i" for j
    using that len by (intro memget_memcpy_other [OF m]) (auto simp: cfg)
  have "length mem = MPP_SIZE" using length_memcpy_at [OF m] lk by simp
  then show ?thesis
    using lens k m same other by (intro exI [of _ mem]) (auto simp: buf_memcpy_def exec)
qed

text \<open>Storing a sector: the state afterwards, of which nothing else differs.\<close>

definition put_state :: "u32 \<Rightarrow> nat \<Rightarrow> u8 list \<Rightarrow> buf \<Rightarrow> buf" where
  "put_state addr k mem b = b\<lparr>pb_pool := (pb_pool b)[k := mem], buf_start_addr := addr AND NOT 15, buf_end_addr := addr OR 15,
     sector_written := (sector_written b)[unat addr mod 16 := True]\<rparr>"

lemma PutSector_spec:
  assumes wf: "buf_wf b" and wb: "write_buffer b = BufPool k" "k < BUFFER_COUNT"
    and len: "length sector = SECTOR_SIZE" and win: "window b addr"
  shows "\<exists>mem. BUF_PutSector addr sector b = Some (put_state addr k mem b) \<and> buf_wf (put_state addr k mem b) \<and> length mem = MPP_SIZE \<and>
    (\<forall>i < 16. buffered_sector (put_state addr k mem b) i =
       (if i = unat addr mod 16 then Some sector else buffered_sector b i))"
proof -
  let ?b = "b\<lparr>buf_start_addr := addr AND NOT 15, buf_end_addr := addr OR 15\<rparr>"
  have open_b: "(if buf_end_addr b = INVALID_LSADDR
      then b\<lparr>buf_start_addr := addr AND NOT (SECTOR_PER_MPP - 1),
             buf_end_addr := addr OR (SECTOR_PER_MPP - 1)\<rparr> else b) = ?b"
    using win by (auto simp: window_def cfg)
  have wf': "buf_wf ?b" using wf by (simp add: buf_wf_def)
  have i16: "unat addr mod 16 < 16" by simp
  obtain mem where mem:
    "buf_memcpy (BufPool k) (unat addr mod 16 * SECTOR_SIZE) sector ?b = Some (?b\<lparr>pb_pool := (pb_pool ?b)[k := mem]\<rparr>)"
    "length mem = MPP_SIZE"
    "\<forall>j < 16. memget mem (j * SECTOR_SIZE) SECTOR_SIZE =
      (if j = unat addr mod 16 then Some sector
       else memget (pb_pool ?b ! k) (j * SECTOR_SIZE) SECTOR_SIZE)"
    using memcpy_sector [OF wf' wb(2) i16 len] by blast
  have off: "unat ((addr - (addr AND NOT 15)) * of_nat SECTOR_SIZE) = unat addr mod 16 * SECTOR_SIZE"
    using sector_offset(2) [of addr] by (simp add: cfg)
  have src: "memget sector 0 SECTOR_SIZE = Some sector" using len by (simp add: memget_def)
  have written: "wr (sector_written b) (unat addr mod 16) True = Some ((sector_written b)[unat addr mod 16 := True])"
    using wf by (simp add: buf_wf_def wr_def cfg)
  let ?b' = "?b\<lparr>pb_pool := (pb_pool b)[k := mem], sector_written := (sector_written b)[unat addr mod 16 := True]\<rparr>"
  have st: "put_state addr k mem b = ?b'" by (simp add: put_state_def)
  have "BUF_PutSector addr sector b = Some ?b'"
    unfolding BUF_PutSector_def open_b
    using wb(1) src mem(1) written sector_offset(3,4) [of addr] off sector_offset(1) [of addr]
    by simp
  moreover have "buf_wf ?b'" using wf mem(2) by (auto simp: buf_wf_def dest: set_update_subset_insert [THEN subsetD])
  moreover have "\<forall>i < 16. buffered_sector ?b' i =
      (if i = unat addr mod 16 then Some sector else buffered_sector b i)"
    using mem(2,3) wb wf by (simp add: buffered_sector_def buf_contents_def rd_def buf_wf_def)
  ultimately show ?thesis using mem(2) by (intro exI [of _ mem]) (simp add: st)
qed

text \<open>An address outside the open window stops the call: the caller must flush first.\<close>

lemma PutSector_outside:
  assumes "buf_end_addr b \<noteq> INVALID_LSADDR" "addr < buf_start_addr b \<or> buf_end_addr b < addr"
  shows "BUF_PutSector addr sector b = None"
proof -
  have "\<not> (buf_start_addr b \<le> addr \<and> addr \<le> buf_end_addr b)" using assms(2) by auto
  then show ?thesis
    using assms(1) by (cases "write_buffer b = BufNull") (auto simp: BUF_PutSector_def ASSERT_def)
qed

end
