(* ===== verification/Ubi_Types.thy ===== *)
theory Ubi_Types
  imports Mtd_Flash Buf
begin

text \<open>
  The tables and the state of the block layer (core/ubi/ubi_inc.h and the static variables of
  core/ubi).  A table is written to flash as the bytes of its C structure: each table type has an
  encoder to \<open>MPP_SIZE\<close> bytes and a decoder, and the interpretations of the locale
  \<open>table_codec\<close> give the round trips.
\<close>

section \<open>Block layout\<close>

definition FREE_BLOCK_COUNT :: nat where "FREE_BLOCK_COUNT = (MPP_SIZE div 4 - 12) div 4"
definition REAL_FREE_BLOCK_COUNT :: nat where
  "REAL_FREE_BLOCK_COUNT = CFG_LOG_BLOCK_COUNT div (100 div (100 - GOOD_BLOCK_PERCENT))"
definition ANCHOR_BLOCK_COUNT :: nat where
  "ANCHOR_BLOCK_COUNT =
     CFG_LOG_BLOCK_COUNT * 2 * 2 div PAGE_PER_PHY_BLOCK div PAGE_PER_PHY_BLOCK + 2"
definition ANCHOR_BADBLOCK_COUNT :: nat where "ANCHOR_BADBLOCK_COUNT = MPP_SIZE div 4 - 11"
definition ANCHOR_OATH :: "u8 list" where
  "ANCHOR_OATH = [0x49, 0x20, 0x4C, 0x4F, 0x56, 0x45, 0x20, 0x57, 0x53, 0x53, 0x21]"
definition ANCHOR_VERSION :: u32 where "ANCHOR_VERSION = 123"
definition CODE_BLOCK :: u32 where "CODE_BLOCK = 0"
definition CODE_BLOCK_COUNT :: nat where "CODE_BLOCK_COUNT = 1"
definition ANCHOR_FIRST_BLOCK :: u32 where "ANCHOR_FIRST_BLOCK = CODE_BLOCK + of_nat CODE_BLOCK_COUNT"
definition ANCHOR_LAST_BLOCK :: u32 where
  "ANCHOR_LAST_BLOCK = ANCHOR_FIRST_BLOCK + of_nat ANCHOR_BLOCK_COUNT - 1"
definition INDEX_BLOCK_COUNT :: nat where "INDEX_BLOCK_COUNT = 1"
definition DATA_FIRST_BLOCK :: u32 where
  "DATA_FIRST_BLOCK = ANCHOR_FIRST_BLOCK + of_nat ANCHOR_BLOCK_COUNT"
definition DATA_BLOCK_COUNT :: u32 where
  "DATA_BLOCK_COUNT = of_nat (CFG_LOG_BLOCK_COUNT - CODE_BLOCK_COUNT - ANCHOR_BLOCK_COUNT -
     INDEX_BLOCK_COUNT - REAL_FREE_BLOCK_COUNT)"

definition AREA_INDEX :: "u32 \<Rightarrow> u32" where
  "AREA_INDEX block = block div of_nat CFG_PHY_BLOCK_PER_AREA"
definition BLOCK_OFFSET_AREA :: "u32 \<Rightarrow> u32" where
  "BLOCK_OFFSET_AREA block = block mod of_nat CFG_PHY_BLOCK_PER_AREA"

lemma ubi_cfg [cfg]:
  "FREE_BLOCK_COUNT = 509" "REAL_FREE_BLOCK_COUNT = 20" "ANCHOR_BLOCK_COUNT = 6"
  "ANCHOR_BADBLOCK_COUNT = 2037" "ANCHOR_FIRST_BLOCK = 1" "ANCHOR_LAST_BLOCK = 6"
  "DATA_FIRST_BLOCK = 7" "DATA_BLOCK_COUNT = 996"
  by (simp_all add: FREE_BLOCK_COUNT_def REAL_FREE_BLOCK_COUNT_def ANCHOR_BLOCK_COUNT_def
      ANCHOR_BADBLOCK_COUNT_def ANCHOR_FIRST_BLOCK_def ANCHOR_LAST_BLOCK_def DATA_FIRST_BLOCK_def
      DATA_BLOCK_COUNT_def CODE_BLOCK_def CODE_BLOCK_COUNT_def INDEX_BLOCK_COUNT_def
      GOOD_BLOCK_PERCENT_def cfg)

section \<open>Tables\<close>

record AREA_UPDATE_PLR =
  area_updating_logical_block :: u32
  area_updating_physical_block :: u32
  area_updating_block_ec :: u32

record INDEX_TABLE =
  area_index_table :: "u32 list"
  area_index_ect :: "u32 list"
  free_block_table :: "u32 list"
  free_block_ect :: "u32 list"
  area_update_plr :: AREA_UPDATE_PLR
  index_padding :: AREA_UPDATE_PLR

record ANCHOR_TABLE =
  index_new_block :: u32
  index_new_ec :: u32
  index_old_block :: u32
  index_old_ec :: u32
  previous_anchor_block :: u32
  total_data_block :: u32
  swl_current_area :: u32
  oath :: "u8 list"
  version :: u32
  bad_block_table :: "u32 list"

record AREA_BLOCK =
  physical_block :: u32
  physical_block_ec :: u32

section \<open>Memory layout of the tables\<close>

definition plr_words :: "AREA_UPDATE_PLR \<Rightarrow> u32 list" where
  "plr_words p = [area_updating_logical_block p, area_updating_physical_block p,
     area_updating_block_ec p]"

definition plr_of_words :: "u32 list \<Rightarrow> AREA_UPDATE_PLR" where
  "plr_of_words ws = \<lparr>area_updating_logical_block = ws ! 0, area_updating_physical_block = ws ! 1,
     area_updating_block_ec = ws ! 2\<rparr>"

definition index_bytes :: "INDEX_TABLE \<Rightarrow> u8 list" where
  "index_bytes t = bytes_of_u32s (area_index_table t @ area_index_ect t @ free_block_table t @
     free_block_ect t @ plr_words (area_update_plr t) @ plr_words (index_padding t))"

definition index_of_bytes :: "u8 list \<Rightarrow> INDEX_TABLE" where
  "index_of_bytes bs =
     (let ws = u32s_of_bytes bs; a = AREA_TABLE_SIZE; f = FREE_BLOCK_COUNT in
      \<lparr>area_index_table = take a ws, area_index_ect = take a (drop a ws),
       free_block_table = take f (drop (2 * a) ws), free_block_ect = take f (drop (2 * a + f) ws),
       area_update_plr = plr_of_words (drop (2 * a + 2 * f) ws),
       index_padding = plr_of_words (drop (2 * a + 2 * f + 3) ws)\<rparr>)"

definition index_wf :: "INDEX_TABLE \<Rightarrow> bool" where
  "index_wf t \<longleftrightarrow> length (area_index_table t) = AREA_TABLE_SIZE \<and>
     length (area_index_ect t) = AREA_TABLE_SIZE \<and>
     length (free_block_table t) = FREE_BLOCK_COUNT \<and> length (free_block_ect t) = FREE_BLOCK_COUNT"

definition anchor_bytes :: "ANCHOR_TABLE \<Rightarrow> u8 list" where
  "anchor_bytes t = bytes_of_u32s [index_new_block t, index_new_ec t, index_old_block t,
     index_old_ec t, previous_anchor_block t, total_data_block t, swl_current_area t] @
     oath t @ bytes_of_u32s (version t # bad_block_table t)"

definition anchor_of_bytes :: "u8 list \<Rightarrow> ANCHOR_TABLE" where
  "anchor_of_bytes bs =
     (let ws = u32s_of_bytes (take 28 bs); vs = u32s_of_bytes (drop 40 bs) in
      \<lparr>index_new_block = ws ! 0, index_new_ec = ws ! 1, index_old_block = ws ! 2,
       index_old_ec = ws ! 3, previous_anchor_block = ws ! 4, total_data_block = ws ! 5,
       swl_current_area = ws ! 6, oath = take 12 (drop 28 bs), version = vs ! 0,
       bad_block_table = tl vs\<rparr>)"

definition anchor_wf :: "ANCHOR_TABLE \<Rightarrow> bool" where
  "anchor_wf t \<longleftrightarrow> length (oath t) = 12 \<and> length (bad_block_table t) = ANCHOR_BADBLOCK_COUNT"

fun area_words :: "AREA_BLOCK list \<Rightarrow> u32 list" where
  "area_words [] = []"
| "area_words (e # es) = physical_block e # physical_block_ec e # area_words es"

fun area_of_words :: "u32 list \<Rightarrow> AREA_BLOCK list" where
  "area_of_words (p # e # ws) = \<lparr>physical_block = p, physical_block_ec = e\<rparr> # area_of_words ws"
| "area_of_words ws = []"

definition area_bytes :: "AREA_BLOCK list \<Rightarrow> u8 list" where
  "area_bytes t = bytes_of_u32s (area_words t)"

definition area_of_bytes :: "u8 list \<Rightarrow> AREA_BLOCK list" where
  "area_of_bytes bs = area_of_words (u32s_of_bytes bs)"

definition area_wf :: "AREA_BLOCK list \<Rightarrow> bool" where
  "area_wf t \<longleftrightarrow> length t = CFG_PHY_BLOCK_PER_AREA"

text \<open>
  What a table layout promises: tables and pages are the same thing, as in the C code, which copies the
  structure itself.  A table fills a page, it is what a decoder makes of that page, and every page is
  the layout of what is decoded from it.
\<close>

locale table_codec =
  fixes wf :: "'t \<Rightarrow> bool" and enc :: "'t \<Rightarrow> u8 list" and dec :: "u8 list \<Rightarrow> 't"
  assumes length_enc: "wf t \<Longrightarrow> length (enc t) = MPP_SIZE"
    and dec_enc: "wf t \<Longrightarrow> dec (enc t) = t"
    and wf_dec: "length bs = MPP_SIZE \<Longrightarrow> wf (dec bs)"
    and enc_dec: "length bs = MPP_SIZE \<Longrightarrow> enc (dec bs) = bs"
begin

lemma enc_inject: "wf t \<Longrightarrow> wf u \<Longrightarrow> enc t = enc u \<longleftrightarrow> t = u"
  using dec_enc by metis

end

lemma plr_roundtrip: "plr_of_words (plr_words p @ ws) = p"
  by (simp add: plr_of_words_def plr_words_def)

lemma length_plr_words [simp]: "length (plr_words p) = 3"
  by (simp add: plr_words_def)

lemma length_area_words [simp]: "length (area_words t) = 2 * length t"
  by (induction t) auto

lemma area_of_words_of [simp]: "area_of_words (area_words t) = t"
  by (induction t) auto

lemma plr_words_of: "length ws = 3 \<Longrightarrow> plr_words (plr_of_words ws) = ws"
  by (auto simp: plr_words_def plr_of_words_def length_Suc_conv numeral_3_eq_3)

lemma area_words_of [simp]: "even (length ws) \<Longrightarrow> area_words (area_of_words ws) = ws"
  by (induction ws rule: area_of_words.induct) auto

lemma length_area_of_words [simp]: "length (area_of_words ws) = length ws div 2"
  by (induction ws rule: area_of_words.induct) auto

text \<open>Every page is the layout of the table that it holds.\<close>

lemma plr_of_prefix: "3 \<le> length ws \<Longrightarrow> plr_of_words ws = plr_of_words (take 3 ws)"
  by (simp add: plr_of_words_def)

lemma index_bytes_of:
  assumes "length bs = MPP_SIZE"
  shows "index_bytes (index_of_bytes bs) = bs"
proof -
  define ws where "ws = u32s_of_bytes bs"
  have l: "length ws = 2048" using assms by (simp add: ws_def cfg)
  have p: "plr_words (plr_of_words (drop 2042 ws)) = take 3 (drop 2042 ws)" "plr_words (plr_of_words (drop 2045 ws)) = drop 2045 ws"
    using l plr_of_prefix [of "drop 2042 ws"] by (simp_all add: plr_words_of)
  have "drop 2042 ws = take 3 (drop 2042 ws) @ drop 2045 ws" using append_take_drop_id [of 3 "drop 2042 ws"] by simp
  then have "ws = take 512 ws @ take 512 (drop 512 ws) @ take 509 (drop 1024 ws) @ take 509 (drop 1533 ws) @
      take 3 (drop 2042 ws) @ drop 2045 ws"
    using append_take_drop_id [of 512 ws] append_take_drop_id [of 512 "drop 512 ws"]
      append_take_drop_id [of 509 "drop 1024 ws"] append_take_drop_id [of 509 "drop 1533 ws"] by simp
  then have "index_bytes (index_of_bytes bs) = bytes_of_u32s ws"
    using p by (simp add: index_bytes_def index_of_bytes_def ws_def [symmetric] Let_def cfg)
  then show ?thesis using assms by (simp add: ws_def bytes_of_u32s_of_bytes cfg)
qed

lemma seven_words: "length ws = 7 \<Longrightarrow> [ws ! 0, ws ! 1, ws ! 2, ws ! 3, ws ! 4, ws ! 5, ws ! 6] = ws"
  by (auto simp: length_Suc_conv eval_nat_numeral)

lemma anchor_bytes_of:
  assumes "length bs = MPP_SIZE"
  shows "anchor_bytes (anchor_of_bytes bs) = bs"
proof -
  let ?ws = "u32s_of_bytes (take 28 bs)" and ?vs = "u32s_of_bytes (drop 40 bs)"
  have l: "length ?ws = 7" "length ?vs = 2038" using assms by (simp_all add: cfg)
  have w: "bytes_of_u32s ?ws = take 28 bs" "bytes_of_u32s ?vs = drop 40 bs"
    using assms by (simp_all add: bytes_of_u32s_of_bytes cfg)
  have v: "?vs ! 0 # tl ?vs = ?vs" using l(2) by (cases ?vs) simp_all
  have d: "drop 28 bs = take 12 (drop 28 bs) @ drop 40 bs" using append_take_drop_id [of 12 "drop 28 bs"] by simp
  have "anchor_bytes (anchor_of_bytes bs) = bytes_of_u32s ?ws @ take 12 (drop 28 bs) @ bytes_of_u32s ?vs"
    unfolding anchor_bytes_def anchor_of_bytes_def Let_def ANCHOR_TABLE.simps seven_words [OF l(1)] v by (rule refl)
  also have "\<dots> = take 28 bs @ drop 28 bs" unfolding w d [symmetric] by (rule refl)
  finally show ?thesis by simp
qed

interpretation index_codec: table_codec index_wf index_bytes index_of_bytes
proof unfold_locales
  fix t :: INDEX_TABLE
  assume wf: "index_wf t"
  then show "length (index_bytes t) = MPP_SIZE"
    by (simp add: index_wf_def index_bytes_def cfg)
  show "index_of_bytes (index_bytes t) = t"
    using wf by (simp add: index_wf_def index_bytes_def index_of_bytes_def plr_roundtrip
        plr_roundtrip [of _ "[]", simplified] Let_def)
next
  fix bs :: "u8 list"
  assume "length bs = MPP_SIZE"
  then show "index_wf (index_of_bytes bs)"
    by (simp add: index_wf_def index_of_bytes_def Let_def cfg)
  show "index_bytes (index_of_bytes bs) = bs"
    using \<open>length bs = MPP_SIZE\<close> by (rule index_bytes_of)
qed

interpretation anchor_codec: table_codec anchor_wf anchor_bytes anchor_of_bytes
proof unfold_locales
  fix t :: ANCHOR_TABLE
  assume wf: "anchor_wf t"
  then show "length (anchor_bytes t) = MPP_SIZE"
    by (simp add: anchor_wf_def anchor_bytes_def cfg)
  have "take 28 (anchor_bytes t) = bytes_of_u32s [index_new_block t, index_new_ec t,
      index_old_block t, index_old_ec t, previous_anchor_block t, total_data_block t,
      swl_current_area t]"
    and "drop 40 (anchor_bytes t) = bytes_of_u32s (version t # bad_block_table t)"
    and "take 12 (drop 28 (anchor_bytes t)) = oath t"
    using wf by (simp_all add: anchor_bytes_def anchor_wf_def del: bytes_of_u32s.simps)
  then show "anchor_of_bytes (anchor_bytes t) = t"
    by (simp add: anchor_of_bytes_def Let_def del: bytes_of_u32s.simps)
next
  fix bs :: "u8 list"
  assume "length bs = MPP_SIZE"
  then show "anchor_wf (anchor_of_bytes bs)"
    by (simp add: anchor_wf_def anchor_of_bytes_def Let_def cfg)
  show "anchor_bytes (anchor_of_bytes bs) = bs"
    using \<open>length bs = MPP_SIZE\<close> by (rule anchor_bytes_of)
qed

interpretation area_codec: table_codec area_wf area_bytes area_of_bytes
proof unfold_locales
  show "\<And>t. area_wf t \<Longrightarrow> length (area_bytes t) = MPP_SIZE"
    by (simp add: area_wf_def area_bytes_def cfg)
  show "\<And>t. area_wf t \<Longrightarrow> area_of_bytes (area_bytes t) = t"
    by (simp add: area_bytes_def area_of_bytes_def)
  show "\<And>bs. length bs = MPP_SIZE \<Longrightarrow> area_wf (area_of_bytes bs)"
    by (simp add: area_wf_def area_of_bytes_def cfg)
  show "\<And>bs. length bs = MPP_SIZE \<Longrightarrow> area_bytes (area_of_bytes bs) = bs"
    by (simp add: area_bytes_def area_of_bytes_def bytes_of_u32s_of_bytes cfg)
qed

section \<open>State of the block layer\<close>

text \<open>A page held back until the status of its die is known (\<open>DIE_HOLD_PAGE\<close> of ubi_api.c).\<close>

record DIE_HOLD_PAGE =
  dh_log_block :: u32
  dh_phy_block :: u32
  dh_ec :: u32
  dh_page :: u32
  dh_buffer :: buffer
  dh_spare :: SPARE

text \<open>
  \<open>stack_word\<close> is the arbitrary content of a local variable that the C code reads or stores
  before it has assigned it.
\<close>

record ubi =
  mtd_of :: mtd
  buf_of :: buf
  anchor_table :: ANCHOR_TABLE
  anchor_block :: u32
  anchor_next_page :: u32
  index_table :: INDEX_TABLE
  index_block :: u32
  index_block_ec :: u32
  index_next_page :: u32
  is_updating_area :: bool
  area_offset_table :: "u32 list"
  cached_area_table :: "AREA_BLOCK list"
  cached_area_number :: u32
  dice_hold :: "DIE_HOLD_PAGE list"
  tmp_data_buffer :: "u8 list"
  stack_word :: u32

text \<open>Running an operation of the MTD or of the buffer pool on the state of the block layer.\<close>

definition on_mtd :: "(mtd \<Rightarrow> ('a \<times> mtd) option) \<Rightarrow> ubi \<Rightarrow> ('a \<times> ubi) option" where
  "on_mtd f u = do { (r, m) \<leftarrow> f (mtd_of u); Some (r, u\<lparr>mtd_of := m\<rparr>) }"

definition on_buf :: "(buf \<Rightarrow> buf option) \<Rightarrow> ubi \<Rightarrow> ubi option" where
  "on_buf f u = do { b \<leftarrow> f (buf_of u); Some (u\<lparr>buf_of := b\<rparr>) }"

lemma on_mtd_Some: "f (mtd_of u) = Some (r, m) \<Longrightarrow> on_mtd f u = Some (r, u\<lparr>mtd_of := m\<rparr>)"
  by (simp add: on_mtd_def)

end
