(* ===== verification/Ubi_Table.thy ===== *)
theory Ubi_Table
  imports Ubi_Types
begin

text \<open>
  Tables in flash (core/ubi/ubi_table.c).  A table block is a log: tables are appended page by
  page, each with the footprint 0 in its spare area, and the current table is the last programmed
  page, which \<open>TABLE_Read\<close> finds by binary search.  \<open>junk\<close> is the second footprint word, which
  the C code leaves uninitialised.
\<close>

section \<open>Operations\<close>

definition TABLE_Write :: "u32 \<Rightarrow> u32 \<Rightarrow> u32 \<Rightarrow> u8 list \<Rightarrow> mtd \<Rightarrow> (STATUS \<times> mtd) option" where
  "TABLE_Write junk block page buffer m = do {
     let footprint = (0, junk);
     (ret, m) \<leftarrow> MTD_Program block page (Some buffer) (Some footprint) m;
     if ret = STATUS_SUCCESS then MTD_WaitReady block m else Some (ret, m) }"

partial_function (option) table_search ::
  "u32 \<Rightarrow> u32 \<Rightarrow> u32 \<Rightarrow> u32 \<Rightarrow> SPARE option \<Rightarrow> mtd \<Rightarrow>
    ((u32 \<times> u32 \<times> u32 \<times> SPARE option) \<times> mtd) option" where
  "table_search block head tail mid footprint m =
     (if mid \<noteq> head \<and> mid \<noteq> tail then do {
        ((ret, _, footprint), m) \<leftarrow> MTD_Read block mid None footprint m;
        sp \<leftarrow> footprint;
        let (head, tail) =
          (if ret = STATUS_SUCCESS then (if fst sp = -1 then (head, mid) else (mid, tail))
           else (head, mid));
        table_search block head tail ((head + tail) div 2) footprint m }
      else Some ((head, tail, mid, footprint), m))"

definition TABLE_Read :: "u32 \<Rightarrow> u32 \<Rightarrow> u32 \<Rightarrow> u8 list option \<Rightarrow> mtd \<Rightarrow>
    ((STATUS \<times> u32 \<times> u8 list option) \<times> mtd) option" where
  "TABLE_Read junk block page buffer m = do {
     let (head, tail) = (if page \<noteq> INVALID_PAGE then (page, page) else (0, PAGE_PER_PHY_BLOCK));
     ((head, tail, mid, footprint), m) \<leftarrow>
       table_search block head tail ((head + tail) div 2) (Some (junk, junk)) m;
     ASSERT (tail = head \<or> tail = head + 1);
     let page = mid;
     ((ret, buffer, footprint), m) \<leftarrow> MTD_Read block page buffer footprint m;
     sp \<leftarrow> footprint;
     let ret = (if ret = STATUS_SUCCESS then (if fst sp = -1 then STATUS_FAILURE else ret) else ret);
     let page = (if ret \<noteq> STATUS_SUCCESS then INVALID_PAGE else page);
     Some ((ret, page, buffer), m) }"

section \<open>A block as a log of tables\<close>

text \<open>\<open>table_log m b ts\<close>: the pages of block \<open>b\<close> hold the tables \<open>ts\<close>, oldest first.\<close>

definition table_log :: "mtd \<Rightarrow> u32 \<Rightarrow> u8 list list \<Rightarrow> bool" where
  "table_log m b ts \<longleftrightarrow> length ts \<le> PAGE_PER_PHY_BLOCK \<and>
     (\<forall>i < PAGE_PER_PHY_BLOCK.
        if i < length ts
        then \<exists>sp. flash_page m b (of_nat i) = Some (ts ! i, sp) \<and> fst sp \<noteq> -1
        else flash_page m b (of_nat i) = None)"

lemma table_log_cong:
  "(\<And>p. valid_page p \<Longrightarrow> flash_page m' b p = flash_page m b p) \<Longrightarrow> table_log m' b ts = table_log m b ts"
  unfolding table_log_def
  by (intro conj_cong refl all_cong if_cong) (auto simp: valid_page_unat unat_of_nat_u32 cfg)

lemma table_log_page:
  assumes "table_log m b ts" "unat p < 32"
  shows "if unat p < length ts
    then \<exists>sp. flash_page m b p = Some (ts ! unat p, sp) \<and> fst sp \<noteq> -1
    else flash_page m b p = None"
proof -
  have "word_of_nat (unat p) = p" by (simp add: word_unat_eq_iff)
  then show ?thesis
    using assms spec [OF conjunct2 [OF assms(1) [unfolded table_log_def]], of "unat p"]
    by (cases "unat p < length ts") (simp_all add: cfg)
qed

lemma table_log_same_pages:
  "flash_page m' = flash_page m \<Longrightarrow> table_log m' b ts = table_log m b ts"
  by (simp add: table_log_def)

lemma table_log_same: "flash_page m' = flash_page m \<Longrightarrow> table_log m' = table_log m"
  by (simp add: fun_eq_iff table_log_def)

lemma mid_between:
  fixes h t :: u32
  assumes "unat h \<le> unat t" "unat t \<le> 32"
  shows "unat ((h + t) div 2) = (unat h + unat t) div 2"
  using assms by (simp add: unat_div unat_word_ariths)

lemma quiet_fault:
  "quiet m \<longleftrightarrow> fst (fault_of m) \<noteq> TEST_PLR \<and> fst (fault_of m) \<noteq> TEST_BBR"
  by (simp add: quiet_def fault_of_def)

lemma quiet_tick_id: "quiet m \<Longrightarrow> fault_tick (fault_of m) = fault_of m"
  by (cases "fault_of m") (simp add: quiet_fault)

lemma quiet_out: "quiet m \<Longrightarrow> fault_out (fault_of m) = STATUS_SUCCESS"
  by (cases "fault_of m") (simp add: quiet_fault)

lemma quiet_tick: "fault_of m' = fault_tick (fault_of m) \<Longrightarrow> quiet m \<longrightarrow> quiet m'"
  using quiet_tick_id quiet_fault by metis

lemma table_search_step:
  assumes "mid \<noteq> head" "mid \<noteq> tail"
    and "MTD_Read b mid None (Some f) m = Some ((ret, x, Some sp), m1)"
  shows "table_search b head tail mid (Some f) m =
    (if ret = STATUS_SUCCESS \<and> fst sp \<noteq> -1
     then table_search b mid tail ((mid + tail) div 2) (Some sp) m1
     else table_search b head mid ((head + mid) div 2) (Some sp) m1)"
  by (subst table_search.simps) (auto simp: assms)

lemma table_search_end: "mid = head \<Longrightarrow>
    table_search b head tail mid fp m = Some ((head, tail, mid, fp), m)"
  by (subst table_search.simps) simp

text \<open>
  The search keeps the last used page in \<open>[head, tail)\<close>; it ends with a window of one page, after
  at most as many probes as the window has pages.
\<close>

lemma table_search_spec:
  assumes "mtd_inv m" "valid_block b" "table_log m b ts" "ts \<noteq> []"
    and "unat h < length ts" "length ts \<le> unat t" "unat t \<le> 32" "fp \<noteq> None"
  shows "\<exists>m' h' t' fp'. table_search b h t ((h + t) div 2) fp m = Some ((h', t', h', fp'), m') \<and>
    unat h' + 1 = length ts \<and> t' = h' + 1 \<and> fp' \<noteq> None \<and> mtd_inv m' \<and>
    flash_page m' = flash_page m \<and> (quiet m \<longrightarrow> quiet m')"
  using assms
proof (induction "unat t - unat h" arbitrary: h t fp m rule: less_induct)
  case less
  obtain mid where mid: "mid = (h + t) div 2" by blast
  have um: "unat mid = (unat h + unat t) div 2"
    unfolding mid by (rule mid_between) (use less.prems in auto)
  obtain f where f: "fp = Some f" using less.prems(8) by blast
  show ?case
  proof (cases "unat t = unat h + 1")
    case True
    then have "mid = h" using um by (simp add: word_unat_eq_iff)
    moreover have "t = h + 1"
      using True less.prems(7) by (simp add: word_unat_eq_iff unat_plus_1)
    moreover have "unat h + 1 = length ts" using True less.prems(5,6) by simp
    moreover have "table_search b h t mid fp m = Some ((h, t, h, fp), m)"
      using \<open>mid = h\<close> by (simp add: table_search_end)
    ultimately show ?thesis unfolding mid [symmetric] using less.prems(1,8) by blast
  next
    case False
    then have lt: "unat h < unat mid" "unat mid < unat t"
      using um less.prems(5,6) by linarith+
    then have ne: "mid \<noteq> h" "mid \<noteq> t" by auto
    have vp: "valid_page mid" "unat mid < 32"
      using lt less.prems(7) by (simp_all add: valid_page_unat)
    obtain m1 where m1: "MTD_Read b mid None (Some f) m =
        Some (read_result (flash_page m b mid) None (Some f), m1)" "mtd_inv m1"
        "fault_of m1 = fault_tick (fault_of m)" "flash_page m1 = flash_page m"
      using mtd_flash.read_ok [OF less.prems(1,2) vp(1), of None "Some f"] by auto
    have q: "quiet m \<longrightarrow> quiet m1"
      using m1(3) quiet_tick by blast
    have log1: "table_log m1 b ts" using less.prems(3) by (simp add: table_log_same_pages [OF m1(4)])
    note IH = less.hyps [OF _ m1(2) less.prems(2) log1 less.prems(4)]
    note end_simps = mid [symmetric] m1(4) [symmetric]
    show ?thesis
    proof (cases "unat mid < length ts")
      case True
      with table_log_page [OF less.prems(3) vp(2)] obtain sp where
        sp: "flash_page m b mid = Some (ts ! unat mid, sp)" "fst sp \<noteq> -1" by auto
      have e: "table_search b h t mid fp m = table_search b mid t ((mid + t) div 2) (Some sp) m1"
        using table_search_step [OF ne m1(1) [unfolded sp read_result_def option.case prod.case
            option.map]] sp(2) unfolding f by (simp only: simp_thms if_True)
      have "unat t - unat mid < unat t - unat h" using lt by linarith
      from IH [OF this True less.prems(6,7)] show ?thesis
        unfolding e end_simps using q by blast
    next
      case False
      with table_log_page [OF less.prems(3) vp(2)] have
        sp: "flash_page m b mid = None" by auto
      have e: "table_search b h t mid fp m =
          table_search b h mid ((h + mid) div 2) (Some (-1, -1)) m1"
        using table_search_step [OF ne m1(1) [unfolded sp read_result_def option.case prod.case
            option.map]] unfolding f by simp
      have "unat mid - unat h < unat t - unat h" "unat mid \<le> 32" "length ts \<le> unat mid"
        using lt vp False by linarith+
      from IH [OF this(1) less.prems(5) this(3,2)] show ?thesis
        unfolding e end_simps using q by blast
    qed
  qed
qed


section \<open>Reading and appending tables\<close>

text \<open>What \<open>TABLE_Read\<close> returns for the page it settles on.\<close>

definition table_result :: "u32 \<Rightarrow> (u8 list \<times> SPARE) option \<Rightarrow> u8 list option \<Rightarrow>
    STATUS \<times> u32 \<times> u8 list option" where
  "table_result p pg buf = (case pg of
     None \<Rightarrow> (STATUS_FAILURE, INVALID_PAGE, map_option blank_fill buf)
   | Some (d, sp) \<Rightarrow> (if fst sp = -1 then (STATUS_FAILURE, INVALID_PAGE, map_option (\<lambda>mem. d @ drop MPP_SIZE mem) buf)
       else (STATUS_SUCCESS, p, map_option (\<lambda>mem. d @ drop MPP_SIZE mem) buf)))"

lemma table_read_page:
  assumes "mtd_inv m" "valid_block b" "valid_page p" "\<And>mem. buf = Some mem \<Longrightarrow> MPP_SIZE \<le> length mem"
  shows "\<exists>m'. (do {
     ((ret, buffer, footprint), m) \<leftarrow> MTD_Read b p buf (Some f) m;
     sp \<leftarrow> footprint;
     let ret = (if ret = STATUS_SUCCESS then (if fst sp = -1 then STATUS_FAILURE else ret) else ret);
     let page = (if ret \<noteq> STATUS_SUCCESS then INVALID_PAGE else p);
     Some ((ret, page, buffer), m) }) = Some (table_result p (flash_page m b p) buf, m') \<and>
    mtd_inv m' \<and> flash_page m' = flash_page m \<and> (quiet m \<longrightarrow> quiet m')"
proof -
  obtain m1 where m1: "MTD_Read b p buf (Some f) m =
      Some (read_result (flash_page m b p) buf (Some f), m1)" "mtd_inv m1"
      "fault_of m1 = fault_tick (fault_of m)" "flash_page m1 = flash_page m"
    using mtd_flash.read_ok [OF assms(1-3), of buf "Some f"] assms(4) by auto
  show ?thesis
    using m1(2,4) quiet_tick [OF m1(3)]
    by (intro exI [of _ m1])
      (auto simp: m1(1) read_result_def table_result_def Let_def split: option.splits)
qed

lemma TABLE_Read_at:
  assumes "mtd_inv m" "valid_block b" "valid_page p" "\<And>mem. buf = Some mem \<Longrightarrow> MPP_SIZE \<le> length mem"
  shows "\<exists>m'. TABLE_Read junk b p buf m = Some (table_result p (flash_page m b p) buf, m') \<and>
    mtd_inv m' \<and> flash_page m' = flash_page m \<and> (quiet m \<longrightarrow> quiet m')"
proof -
  have up: "unat p < 32" using assms(3) by (simp add: valid_page_unat)
  then have mid: "(2 * p) div 2 = p" using mid_between [of p p] by (simp add: word_unat_eq_iff)
  have "p \<noteq> INVALID_PAGE" using up by (auto simp: INVALID_PAGE_def unsigned_minus_1_eq_mask mask_eq_exp_minus_1)
  then show ?thesis
    using table_read_page [OF assms(1-3), where f = "(junk, junk)" and buf = buf, OF assms(4)]
    by (simp add: TABLE_Read_def mid table_search_end Let_def)
qed

lemma TABLE_Read_last:
  assumes "mtd_inv m" "valid_block b" "table_log m b ts" "ts \<noteq> []"
    and "\<And>mem. buf = Some mem \<Longrightarrow> MPP_SIZE \<le> length mem"
  shows "\<exists>m'. TABLE_Read junk b INVALID_PAGE buf m =
      Some ((STATUS_SUCCESS, of_nat (length ts - 1), map_option (\<lambda>mem. last ts @ drop MPP_SIZE mem) buf), m') \<and>
    mtd_inv m' \<and> flash_page m' = flash_page m \<and> (quiet m \<longrightarrow> quiet m')"
proof -
  have len: "length ts \<le> 32" using assms(3) by (simp add: table_log_def cfg)
  obtain m1 h t fp where s: "table_search b 0 32 ((0 + 32) div 2) (Some (junk, junk)) m =
      Some ((h, t, h, fp), m1)" "unat h + 1 = length ts" "t = h + 1" "fp \<noteq> None" "mtd_inv m1"
      "flash_page m1 = flash_page m" "quiet m \<longrightarrow> quiet m1"
    using table_search_spec [OF assms(1-4), of 0 32 "Some (junk, junk)"] assms(4) len by auto
  obtain f where f: "fp = Some f" using s(4) by blast
  have vp: "valid_page h" "unat h < 32" using s(2) len by (simp_all add: valid_page_unat)
  obtain sp where pg: "flash_page m b h = Some (ts ! unat h, sp)" "fst sp \<noteq> -1"
    using table_log_page [OF assms(3) vp(2)] s(2) by auto
  have "ts ! unat h = last ts" "of_nat (length ts - 1) = h"
    using s(2) assms(4) by (simp_all add: last_conv_nth flip: s(2)) 
  then show ?thesis
    using table_read_page [OF s(5) assms(2) vp(1) assms(5), where f = f] s pg f
    by (auto simp: TABLE_Read_def cfg table_result_def)
qed

lemma TABLE_Write_append:
  assumes inv: "mtd_inv m" and v: "valid_block b" and log: "table_log m b ts"
    and room: "length ts < PAGE_PER_PHY_BLOCK" and len: "length d = MPP_SIZE"
  shows "\<exists>m'. TABLE_Write junk b (of_nat (length ts)) d m = Some (fault_out (fault_of m), m') \<and>
    mtd_inv m' \<and> table_log m' b (ts @ [d]) \<and>
    (\<forall>b' ts'. valid_block b' \<longrightarrow> b' \<noteq> b \<longrightarrow> table_log m' b' ts' = table_log m b' ts') \<and>
    (quiet m \<longrightarrow> quiet m')"
proof -
  let ?p = "of_nat (length ts) :: u32"
  have up: "unat ?p = length ts" "valid_page ?p"
    using room by (simp_all add: unat_of_nat_u32 cfg valid_page_unat)
  have free: "flash_page m b ?p = None" using table_log_page [OF log, of ?p] up room by (simp add: cfg)
  obtain m1 where m1: "MTD_Program b ?p (Some d) (Some (0, junk)) m = Some (STATUS_SUCCESS, m1)"
      "mtd_inv m1" "fault_of m1 = fault_of m"
      "\<And>b' p'. valid_block b' \<Longrightarrow> valid_page p' \<Longrightarrow> flash_page m1 b' p' =
        (if b' = b \<and> p' = ?p then Some (d, (0, junk)) else flash_page m b' p')"
    using mtd_flash.prog_free [OF inv v up(2) free len, of "Some (0, junk)"]
    by (auto simp: spare_val_def)
  obtain m2 where m2: "MTD_WaitReady b m1 = Some (fault_out (fault_of m1), m2)" "mtd_inv m2"
      "fault_of m2 = fault_tick (fault_of m1)" "flash_page m2 = flash_page m1"
    using mtd_flash.wait_ok [OF m1(2) v] by blast
  have w: "TABLE_Write junk b ?p d m = Some (fault_out (fault_of m), m2)"
    using m1(1,3) m2(1) by (simp add: TABLE_Write_def)
  have new: "table_log m2 b (ts @ [d])"
    unfolding table_log_def
  proof (intro conjI allI impI)
    show "length (ts @ [d]) \<le> PAGE_PER_PHY_BLOCK" using room by simp
    fix i :: nat assume i: "i < PAGE_PER_PHY_BLOCK"
    then have ui: "unat (of_nat i :: u32) = i" "valid_page (of_nat i)"
      by (simp_all add: cfg unat_of_nat_u32 valid_page_unat)
    have "of_nat i = ?p \<longleftrightarrow> i = length ts" using ui(1) up(1) by metis
    then show "if i < length (ts @ [d])
        then \<exists>sp. flash_page m2 b (of_nat i) = Some ((ts @ [d]) ! i, sp) \<and> fst sp \<noteq> -1
        else flash_page m2 b (of_nat i) = None"
      using m1(4) [OF v ui(2)] m2(4) table_log_page [OF log, of "of_nat i"] ui i
      by (cases i "length ts" rule: linorder_cases) (auto simp: nth_append cfg)
  qed
  have "table_log m2 b' ts' = table_log m b' ts'" if "valid_block b'" "b' \<noteq> b" for b' ts'
    by (rule table_log_cong) (simp add: m2(4) m1(4) that)
  moreover have "quiet m \<longrightarrow> quiet m2"
    using quiet_tick [OF m2(3)] m1(3) quiet_fault by metis
  ultimately show ?thesis using w m2(2) new by blast
qed

text \<open>The contract the anchor and the index rely on.\<close>

locale table_store =
  fixes inv :: "'s \<Rightarrow> bool" and log :: "'s \<Rightarrow> u32 \<Rightarrow> u8 list list \<Rightarrow> bool"
    and calm :: "'s \<Rightarrow> bool"
    and put :: "u32 \<Rightarrow> u32 \<Rightarrow> u32 \<Rightarrow> u8 list \<Rightarrow> 's \<Rightarrow> (STATUS \<times> 's) option"
    and get :: "u32 \<Rightarrow> u32 \<Rightarrow> u32 \<Rightarrow> u8 list option \<Rightarrow> 's \<Rightarrow> ((STATUS \<times> u32 \<times> u8 list option) \<times> 's) option"
  assumes put_append: "inv s \<Longrightarrow> calm s \<Longrightarrow> valid_block b \<Longrightarrow> log s b ts \<Longrightarrow>
      length ts < PAGE_PER_PHY_BLOCK \<Longrightarrow> length d = MPP_SIZE \<Longrightarrow>
      \<exists>s'. put j b (of_nat (length ts)) d s = Some (STATUS_SUCCESS, s') \<and> inv s' \<and> calm s' \<and>
        log s' b (ts @ [d]) \<and>
        (\<forall>b' ts'. valid_block b' \<longrightarrow> b' \<noteq> b \<longrightarrow> log s' b' ts' = log s b' ts')"
    and get_last: "inv s \<Longrightarrow> valid_block b \<Longrightarrow> log s b ts \<Longrightarrow> ts \<noteq> [] \<Longrightarrow> length mem = MPP_SIZE \<Longrightarrow>
      \<exists>s'. get j b INVALID_PAGE (Some mem) s =
        Some ((STATUS_SUCCESS, of_nat (length ts - 1), Some (last ts)), s') \<and> inv s' \<and>
        (calm s \<longrightarrow> calm s') \<and> log s' = log s"
    and get_none: "inv s \<Longrightarrow> valid_block b \<Longrightarrow> log s b [] \<Longrightarrow>
      \<exists>s'. get j b 0 None s = Some ((STATUS_FAILURE, INVALID_PAGE, None), s') \<and> inv s' \<and>
        (calm s \<longrightarrow> calm s') \<and> log s' = log s"
begin

fun put_all :: "u32 \<Rightarrow> u32 \<Rightarrow> nat \<Rightarrow> u8 list list \<Rightarrow> 's \<Rightarrow> 's option" where
  "put_all j b n [] s = Some s"
| "put_all j b n (d # ds) s = do {
     (_, s) \<leftarrow> put j b (of_nat n) d s;
     put_all j b (Suc n) ds s }"

text \<open>After any sequence of updates that fits in the block, the last one is the one read back.\<close>

lemma put_all_log:
  assumes "inv s" "calm s" "valid_block b" "log s b ts"
    and "length ts + length ds \<le> PAGE_PER_PHY_BLOCK" "\<forall>d \<in> set ds. length d = MPP_SIZE"
  shows "\<exists>s'. put_all j b (length ts) ds s = Some s' \<and> inv s' \<and> calm s' \<and> log s' b (ts @ ds)"
  using assms
proof (induction ds arbitrary: s ts)
  case Nil
  then show ?case by simp
next
  case (Cons d ds)
  obtain s1 where s1: "put j b (of_nat (length ts)) d s = Some (STATUS_SUCCESS, s1)" "inv s1"
      "calm s1" "log s1 b (ts @ [d])"
    using put_append [OF Cons.prems(1-4), of d j] Cons.prems(5,6) by auto
  show ?case
    using Cons.IH [OF s1(2,3) Cons.prems(3) s1(4)] Cons.prems(5,6) s1(1) by auto
qed

lemma get_after_put_all:
  assumes "inv s" "calm s" "valid_block b" "log s b []" "ds \<noteq> []"
    and "length ds \<le> PAGE_PER_PHY_BLOCK" "\<forall>d \<in> set ds. length d = MPP_SIZE" "length mem = MPP_SIZE"
  shows "\<exists>s1 s2. put_all j b 0 ds s = Some s1 \<and> get j b INVALID_PAGE (Some mem) s1 =
    Some ((STATUS_SUCCESS, of_nat (length ds - 1), Some (last ds)), s2) \<and> inv s2"
proof -
  obtain s1 where s1: "put_all j b 0 ds s = Some s1" "inv s1" "log s1 b ds"
    using put_all_log [OF assms(1-4), of ds j] assms(6,7) by auto
  with get_last [OF s1(2) assms(3) s1(3) assms(5,8), of j] show ?thesis by auto
qed

end

interpretation mtd_tables: table_store mtd_inv table_log quiet TABLE_Write TABLE_Read
proof unfold_locales
  fix m b ts and d :: "u8 list" and j
  assume a: "mtd_inv m" "quiet m" "valid_block b" "table_log m b ts"
    "length ts < PAGE_PER_PHY_BLOCK" "length d = MPP_SIZE"
  show "\<exists>m'. TABLE_Write j b (of_nat (length ts)) d m = Some (STATUS_SUCCESS, m') \<and> mtd_inv m' \<and>
    quiet m' \<and> table_log m' b (ts @ [d]) \<and>
    (\<forall>b' ts'. valid_block b' \<longrightarrow> b' \<noteq> b \<longrightarrow> table_log m' b' ts' = table_log m b' ts')"
    using TABLE_Write_append [OF a(1,3-6), of j] quiet_out [OF a(2)] a(2) by auto
next
  fix m b ts and mem :: "u8 list" and j
  assume a: "mtd_inv m" "valid_block b" "table_log m b ts" "ts \<noteq> []" "length mem = MPP_SIZE"
  then obtain m' where m': "TABLE_Read j b INVALID_PAGE (Some mem) m =
      Some ((STATUS_SUCCESS, of_nat (length ts - 1), Some (last ts)), m')" "mtd_inv m'"
      "flash_page m' = flash_page m" "quiet m \<longrightarrow> quiet m'"
    using TABLE_Read_last [OF a(1-4), of "Some mem" j] by auto
  then show "\<exists>m'. TABLE_Read j b INVALID_PAGE (Some mem) m =
      Some ((STATUS_SUCCESS, of_nat (length ts - 1), Some (last ts)), m') \<and> mtd_inv m' \<and>
      (quiet m \<longrightarrow> quiet m') \<and> table_log m' = table_log m"
    using table_log_same [OF m'(3)] by blast
next
  fix m b j
  assume a: "mtd_inv m" "valid_block b" "table_log m b []"
  have p: "flash_page m b 0 = None" "valid_page 0"
    using table_log_page [OF a(3), of 0] by (simp_all add: valid_page_unat)
  obtain m' where m': "TABLE_Read j b 0 None m = Some ((STATUS_FAILURE, INVALID_PAGE, None), m')"
      "mtd_inv m'" "flash_page m' = flash_page m" "quiet m \<longrightarrow> quiet m'"
    using TABLE_Read_at [OF a(1,2) p(2), of None j] p(1) by (auto simp: table_result_def)
  then show "\<exists>m'. TABLE_Read j b 0 None m = Some ((STATUS_FAILURE, INVALID_PAGE, None), m') \<and>
      mtd_inv m' \<and> (quiet m \<longrightarrow> quiet m') \<and> table_log m' = table_log m"
    using table_log_same [OF m'(3)] by blast
qed

end
