(* ===== verification/Ubi_Anchor.thy ===== *)
theory Ubi_Anchor
  imports Ubi_Table
begin

text \<open>
  The anchor table (core/ubi/ubi_anchor.c): the bad-block log and the table that says where the
  index is.  It lives in one of the blocks \<open>ANCHOR_FIRST_BLOCK .. ANCHOR_LAST_BLOCK\<close>; a full
  anchor block is reclaimed into the next good one and erased only after the first table is in
  the new block.
\<close>

section \<open>Table access of the block layer\<close>

definition table_write :: "u32 \<Rightarrow> u32 \<Rightarrow> u8 list \<Rightarrow> ubi \<Rightarrow> (STATUS \<times> ubi) option" where
  "table_write block page bytes u = on_mtd (TABLE_Write (stack_word u) block page bytes) u"

definition table_read :: "u32 \<Rightarrow> u32 \<Rightarrow> u8 list option \<Rightarrow> ubi \<Rightarrow>
    ((STATUS \<times> u32 \<times> u8 list option) \<times> ubi) option" where
  "table_read block page buffer u = on_mtd (TABLE_Read (stack_word u) block page buffer) u"

section \<open>Bad blocks\<close>

fun log_scan :: "nat list \<Rightarrow> u32 \<Rightarrow> u32 list \<Rightarrow> u32 list option" where
  "log_scan [] block tbl = Some tbl"
| "log_scan (i # is) block tbl = do {
     e \<leftarrow> rd tbl i;
     if e = INVALID_BLOCK then wr tbl i block
     else if e = block then Some tbl
     else log_scan is block tbl }"

definition ANCHOR_LogBadBlock :: "u32 \<Rightarrow> ubi \<Rightarrow> ubi option" where
  "ANCHOR_LogBadBlock block u = do {
     tbl \<leftarrow> log_scan [0..<ANCHOR_BADBLOCK_COUNT] block (bad_block_table (anchor_table u));
     Some (u\<lparr>anchor_table := (anchor_table u)\<lparr>bad_block_table := tbl\<rparr>\<rparr>) }"

fun bad_scan :: "nat list \<Rightarrow> u32 \<Rightarrow> u32 list \<Rightarrow> bool option" where
  "bad_scan [] block tbl = Some False"
| "bad_scan (i # is) block tbl = do {
     e \<leftarrow> rd tbl i;
     if e = block then Some True else bad_scan is block tbl }"

definition ANCHOR_IsBadBlock :: "u32 \<Rightarrow> ubi \<Rightarrow> bool option" where
  "ANCHOR_IsBadBlock block u =
     bad_scan [0..<ANCHOR_BADBLOCK_COUNT] block (bad_block_table (anchor_table u))"

text \<open>Erase a block and log it as bad when the erase fails; a logged block is not erased.\<close>

definition erase_or_log :: "u32 \<Rightarrow> ubi \<Rightarrow> (STATUS \<times> ubi) option" where
  "erase_or_log block u = do {
     (ret, u) \<leftarrow> on_mtd (MTD_Erase block) u;
     u \<leftarrow> (if ret \<noteq> STATUS_SUCCESS then ANCHOR_LogBadBlock block u else Some u);
     Some (ret, u) }"

definition erase_good :: "u32 \<Rightarrow> ubi \<Rightarrow> (STATUS \<times> ubi) option" where
  "erase_good block u = do {
     bad \<leftarrow> ANCHOR_IsBadBlock block u;
     if \<not> bad then erase_or_log block u else Some (STATUS_BADBLOCK, u) }"

section \<open>Update\<close>

text \<open>The body of the do loop runs once per call; \<open>current\<close> is the value of \<open>*current_block\<close>.\<close>

partial_function (option) anchor_next_loop :: "u32 \<Rightarrow> u32 \<Rightarrow> ubi \<Rightarrow> ((STATUS \<times> u32) \<times> ubi) option" where
  "anchor_next_loop current next_block u = do {
     let next_block = next_block + 1;
     let next_block = (if next_block > ANCHOR_LAST_BLOCK then ANCHOR_FIRST_BLOCK else next_block);
     (ret, u) \<leftarrow> erase_good next_block u;
     if ret \<noteq> STATUS_SUCCESS \<and> next_block \<noteq> current
     then anchor_next_loop current next_block u
     else Some ((ret, next_block), u) }"

definition anchor_find_next_block :: "u32 \<Rightarrow> ubi \<Rightarrow> ((STATUS \<times> u32) \<times> ubi) option" where
  "anchor_find_next_block current_block u = do {
     ((ret, next_block), u) \<leftarrow> anchor_next_loop current_block current_block u;
     Some (if next_block \<noteq> current_block then (ret, next_block)
           else (STATUS_FAILURE, current_block), u) }"

text \<open>The reclaim part of an iteration of \<open>ANCHOR_Update\<close>.\<close>

definition anchor_reclaim :: "ubi \<Rightarrow> (STATUS \<times> ubi) option" where
  "anchor_reclaim u = do {
     let u = u\<lparr>anchor_table := (anchor_table u)\<lparr>previous_anchor_block := anchor_block u\<rparr>\<rparr>;
     ((ret, block), u) \<leftarrow> anchor_find_next_block (anchor_block u) u;
     let u = u\<lparr>anchor_block := block\<rparr>;
     Some (ret, if ret = STATUS_SUCCESS then u\<lparr>anchor_next_page := 0\<rparr> else u) }"

definition anchor_write :: "bool \<Rightarrow> ubi \<Rightarrow> (STATUS \<times> ubi) option" where
  "anchor_write anchor_reclaimed u = do {
     (ret, u) \<leftarrow> table_write (anchor_block u) (anchor_next_page u) (anchor_bytes (anchor_table u)) u;
     if ret = STATUS_SUCCESS then do {
       u \<leftarrow> (if anchor_reclaimed
             then map_option snd (on_mtd (MTD_Erase (previous_anchor_block (anchor_table u))) u)
             else Some u);
       Some (ret, u\<lparr>anchor_next_page := anchor_next_page u + 1\<rparr>) }
     else if ret = STATUS_BADBLOCK
     then Some (ret, u\<lparr>anchor_next_page := PAGE_PER_PHY_BLOCK\<rparr>)
     else Some (ret, u) }"

partial_function (option) anchor_update_loop ::
  "STATUS \<Rightarrow> bool \<Rightarrow> ubi \<Rightarrow> (STATUS \<times> ubi) option" where
  "anchor_update_loop ret anchor_reclaimed u =
     (if ret \<noteq> STATUS_SUCCESS then
        if anchor_next_page u = PAGE_PER_PHY_BLOCK then do {
          (ret, u) \<leftarrow> anchor_reclaim u;
          if ret = STATUS_SUCCESS then do {
            (ret, u) \<leftarrow> anchor_write True u;
            anchor_update_loop ret True u }
          else Some (ret, u) }
        else do {
          (ret, u) \<leftarrow> anchor_write anchor_reclaimed u;
          anchor_update_loop ret anchor_reclaimed u }
      else Some (ret, u))"

definition ANCHOR_Update :: "ubi \<Rightarrow> (STATUS \<times> ubi) option" where
  "ANCHOR_Update u = anchor_update_loop STATUS_FAILURE False u"

definition ANCHOR_IndexReclaim :: "u32 \<Rightarrow> u32 \<Rightarrow> u32 \<Rightarrow> u32 \<Rightarrow> ubi \<Rightarrow> ubi" where
  "ANCHOR_IndexReclaim index_current_block index_current_ec new_itb new_itb_ec u =
     u\<lparr>anchor_table := (anchor_table u)\<lparr>index_new_block := new_itb, index_new_ec := new_itb_ec,
        index_old_block := index_current_block, index_old_ec := index_current_ec\<rparr>\<rparr>"

section \<open>Format and start-up\<close>

definition ANCHOR_Format :: "u32 \<Rightarrow> ubi \<Rightarrow> (STATUS \<times> ubi) option" where
  "ANCHOR_Format total_data_blocks u = do {
     let u = u\<lparr>anchor_block := ANCHOR_FIRST_BLOCK, anchor_next_page := 0\<rparr>;
     oath' \<leftarrow> memcpy_at (oath (anchor_table u)) 0 ANCHOR_OATH;
     let u = u\<lparr>anchor_table := (anchor_table u)\<lparr>total_data_block := total_data_blocks,
       previous_anchor_block := INVALID_BLOCK, swl_current_area := 0, oath := oath',
       version := ANCHOR_VERSION\<rparr>\<rparr>;
     u \<leftarrow> foldM (\<lambda>b u. map_option snd (erase_good (of_nat b) u))
       [unat ANCHOR_FIRST_BLOCK..<unat ANCHOR_LAST_BLOCK + 1] u;
     ANCHOR_Update u }"

definition blank_anchor :: ANCHOR_TABLE where
  "blank_anchor = anchor_of_bytes (replicate MPP_SIZE 0xff)"

definition blank_index :: INDEX_TABLE where
  "blank_index = index_of_bytes (replicate MPP_SIZE 0xff)"

text \<open>One block of the search of \<open>ANCHOR_Init\<close>: the page of its current table, if it has one.\<close>

definition anchor_probe :: "u32 \<Rightarrow> ubi \<Rightarrow> ((STATUS \<times> u32) \<times> ubi) option" where
  "anchor_probe block u = do {
     ((ret, page, _), u) \<leftarrow> table_read block 0 None u;
     if ret = STATUS_SUCCESS then do {
       ((ret, page, buffer), u) \<leftarrow>
         table_read block INVALID_PAGE (Some (anchor_bytes (anchor_table u))) u;
       bytes \<leftarrow> buffer;
       Some ((ret, page), u\<lparr>anchor_table := anchor_of_bytes bytes\<rparr>) }
     else Some ((ret, page), u) }"

fun anchor_search :: "nat list \<Rightarrow> u32 \<Rightarrow> u32 \<Rightarrow> u32 \<Rightarrow> ubi \<Rightarrow> ((u32 \<times> u32) \<times> ubi) option" where
  "anchor_search [] block1 page1 previous1 u = Some ((block1, page1), u)"
| "anchor_search (b # bs) block1 page1 previous1 u = do {
     let block = of_nat b;
     ((ret, page), u) \<leftarrow> anchor_probe block u;
     if ret = STATUS_SUCCESS then
       if block1 = INVALID_BLOCK
       then anchor_search bs block page (previous_anchor_block (anchor_table u)) u
       else do {
         ((block1, page1), old_block) \<leftarrow>
           (if previous1 = block then Some ((block1, page1), block)
            else do {
              ASSERT (block1 = previous_anchor_block (anchor_table u));
              Some ((block, page), previous_anchor_block (anchor_table u)) });
         u \<leftarrow> (if old_block \<noteq> INVALID_BLOCK then map_option snd (erase_or_log old_block u)
               else Some u);
         Some ((block1, page1), u) }
     else anchor_search bs block1 page1 previous1 u }"

definition anchor_invalid :: "ANCHOR_TABLE \<Rightarrow> bool" where
  "anchor_invalid t \<longleftrightarrow> total_data_block t = INVALID_BLOCK \<or> version t \<noteq> ANCHOR_VERSION \<or>
     take 11 (oath t) \<noteq> ANCHOR_OATH"

definition ANCHOR_Init :: "ubi \<Rightarrow> (STATUS \<times> ubi) option" where
  "ANCHOR_Init u = do {
     let u = u\<lparr>anchor_table := blank_anchor, index_table := blank_index\<rparr>;
     ((anchor_block1, anchor_page1), u) \<leftarrow>
       anchor_search [unat ANCHOR_FIRST_BLOCK..<unat ANCHOR_LAST_BLOCK + 1]
         INVALID_BLOCK INVALID_PAGE INVALID_BLOCK u;
     if anchor_block1 \<noteq> INVALID_BLOCK then
       Some (if anchor_invalid (anchor_table u) then STATUS_FAILURE else STATUS_SUCCESS,
         u\<lparr>anchor_block := anchor_block1, anchor_next_page := anchor_page1 + 1\<rparr>)
     else Some (STATUS_FAILURE, u) }"



section \<open>The bad-block log\<close>

text \<open>The table is a list of different blocks, padded with \<open>INVALID_BLOCK\<close>.\<close>

definition bad_table :: "u32 list \<Rightarrow> u32 list \<Rightarrow> bool" where
  "bad_table bs tbl \<longleftrightarrow> length bs \<le> ANCHOR_BADBLOCK_COUNT \<and> distinct bs \<and> INVALID_BLOCK \<notin> set bs \<and>
     tbl = bs @ replicate (ANCHOR_BADBLOCK_COUNT - length bs) INVALID_BLOCK"

definition bad_wf :: "ubi \<Rightarrow> bool" where
  "bad_wf u \<longleftrightarrow> (\<exists>bs. bad_table bs (bad_block_table (anchor_table u)))"

definition bad_blocks :: "ubi \<Rightarrow> u32 set" where
  "bad_blocks u = set (bad_block_table (anchor_table u)) - {INVALID_BLOCK}"

lemma bad_table_set: "bad_table bs tbl \<Longrightarrow> set tbl - {INVALID_BLOCK} = set bs"
  by (auto simp: bad_table_def)

lemma bad_table_nth:
  assumes "bad_table bs tbl" "i < ANCHOR_BADBLOCK_COUNT"
  shows "rd tbl i = Some (if i < length bs then bs ! i else INVALID_BLOCK)"
  using assms by (auto simp: bad_table_def rd_def nth_append)

lemma bad_scan_spec:
  "i \<le> length tbl \<Longrightarrow> bad_scan [i..<length tbl] b tbl = Some (b \<in> set (drop i tbl))"
proof (induction "length tbl - i" arbitrary: i)
  case 0
  then show ?case by simp
next
  case (Suc n)
  then have i: "i < length tbl" by simp
  then have "drop i tbl = tbl ! i # drop (Suc i) tbl" by (simp add: Cons_nth_drop_Suc)
  then show ?case
    using Suc.hyps(1) [of "Suc i"] Suc.hyps(2) i by (auto simp: upt_conv_Cons rd_in)
qed

lemma log_scan_spec:
  assumes "bad_table bs tbl"
  shows "i \<le> length bs \<Longrightarrow> b \<notin> set (take i bs) \<Longrightarrow>
    log_scan [i..<ANCHOR_BADBLOCK_COUNT] b tbl =
      Some (if b \<in> set bs \<or> length bs = ANCHOR_BADBLOCK_COUNT then tbl else tbl[length bs := b])"
proof (induction "length bs - i" arbitrary: i)
  case 0
  then have i: "i = length bs" by simp
  show ?case
  proof (cases "length bs = ANCHOR_BADBLOCK_COUNT")
    case True
    then show ?thesis using i by simp
  next
    case False
    then have "i < ANCHOR_BADBLOCK_COUNT" using i assms by (simp add: bad_table_def)
    moreover have "i < length tbl" using calculation assms i by (simp add: bad_table_def)
    ultimately show ?thesis
      using i 0(3) False by (simp add: upt_conv_Cons bad_table_nth [OF assms] wr_in)
  qed
next
  case (Suc n)
  then have i: "i < length bs" "i < ANCHOR_BADBLOCK_COUNT"
    using assms by (auto simp: bad_table_def)
  have ne: "bs ! i \<noteq> INVALID_BLOCK"
    using assms nth_mem [OF i(1)] by (auto simp: bad_table_def simp del: nth_mem)
  have tk: "take (Suc i) bs = take i bs @ [bs ! i]" using i by (simp add: take_Suc_conv_app_nth)
  show ?case
    using Suc.hyps(1) [of "Suc i"] Suc.hyps(2) Suc.prems(2) i ne
    by (auto simp: upt_conv_Cons bad_table_nth [OF assms] tk)
qed

lemma IsBadBlock_spec:
  assumes "bad_wf u" "b \<noteq> INVALID_BLOCK"
  shows "ANCHOR_IsBadBlock b u = Some (b \<in> bad_blocks u)"
proof -
  have "length (bad_block_table (anchor_table u)) = ANCHOR_BADBLOCK_COUNT"
    using assms(1) by (auto simp: bad_wf_def bad_table_def)
  then show ?thesis
    using bad_scan_spec [of 0 "bad_block_table (anchor_table u)" b] assms(2)
    by (simp add: ANCHOR_IsBadBlock_def bad_blocks_def)
qed

text \<open>Logging a block adds it unless the table is full; everything else stays as it is.\<close>

lemma LogBadBlock_spec:
  assumes "bad_wf u" "b \<noteq> INVALID_BLOCK"
  shows "\<exists>tbl. ANCHOR_LogBadBlock b u =
      Some (u\<lparr>anchor_table := (anchor_table u)\<lparr>bad_block_table := tbl\<rparr>\<rparr>) \<and>
    bad_wf (u\<lparr>anchor_table := (anchor_table u)\<lparr>bad_block_table := tbl\<rparr>\<rparr>) \<and>
    set tbl - {INVALID_BLOCK} =
      (if card (bad_blocks u) < ANCHOR_BADBLOCK_COUNT then insert b (bad_blocks u) else bad_blocks u)"
proof -
  obtain bs where bs: "bad_table bs (bad_block_table (anchor_table u))"
    using assms(1) by (auto simp: bad_wf_def)
  let ?t = "bad_block_table (anchor_table u)"
  let ?t' = "if b \<in> set bs \<or> length bs = ANCHOR_BADBLOCK_COUNT then ?t else ?t[length bs := b]"
  let ?bs' = "if b \<in> set bs \<or> length bs = ANCHOR_BADBLOCK_COUNT then bs else bs @ [b]"
  have set_bs: "bad_blocks u = set bs" using bad_table_set [OF bs] by (simp add: bad_blocks_def)
  have card: "card (bad_blocks u) = length bs"
    using bs set_bs by (simp add: bad_table_def distinct_card)
  have log: "ANCHOR_LogBadBlock b u = Some (u\<lparr>anchor_table := (anchor_table u)\<lparr>bad_block_table := ?t'\<rparr>\<rparr>)"
    using log_scan_spec [OF bs, of 0 b] by (simp add: ANCHOR_LogBadBlock_def)
  have new: "bad_table ?bs' ?t'"
  proof (cases "b \<in> set bs \<or> length bs = ANCHOR_BADBLOCK_COUNT")
    case True
    then show ?thesis using bs by auto
  next
    case False
    then have l: "length bs < ANCHOR_BADBLOCK_COUNT" using bs by (simp add: bad_table_def)
    obtain k where k: "ANCHOR_BADBLOCK_COUNT - length bs = Suc k"
      using l by (cases "ANCHOR_BADBLOCK_COUNT - length bs") simp_all
    have t: "?t = bs @ replicate (Suc k) INVALID_BLOCK" using bs k by (simp add: bad_table_def)
    have eq: "?t[length bs := b] = (bs @ [b]) @ replicate k INVALID_BLOCK"
      unfolding t by (simp add: list_update_append)
    have n: "ANCHOR_BADBLOCK_COUNT - length (bs @ [b]) = k" using k by simp
    have "bad_table (bs @ [b]) ((bs @ [b]) @ replicate k INVALID_BLOCK)"
      unfolding bad_table_def n using bs False l assms(2) by (simp add: bad_table_def)
    then show ?thesis using False unfolding eq by simp
  qed
  have s: "set ?t' - {INVALID_BLOCK} =
      (if card (bad_blocks u) < ANCHOR_BADBLOCK_COUNT then insert b (bad_blocks u) else bad_blocks u)"
    using bad_table_set [OF new] set_bs card bs by (auto simp: bad_table_def insert_absorb)
  have "bad_wf (u\<lparr>anchor_table := (anchor_table u)\<lparr>bad_block_table := ?t'\<rparr>\<rparr>)"
    using new unfolding bad_wf_def by auto
  then show ?thesis using log s by blast
qed

text \<open>The contract of a log of bad blocks, as the format and the free-block table use it.\<close>

locale bad_log =
  fixes inv :: "'s \<Rightarrow> bool" and bads :: "'s \<Rightarrow> u32 set" and cap :: nat
    and record_bad :: "u32 \<Rightarrow> 's \<Rightarrow> 's option" and is_bad :: "u32 \<Rightarrow> 's \<Rightarrow> bool option"
  assumes is_bad_ok: "inv s \<Longrightarrow> b \<noteq> INVALID_BLOCK \<Longrightarrow> is_bad b s = Some (b \<in> bads s)"
    and record_ok: "inv s \<Longrightarrow> b \<noteq> INVALID_BLOCK \<Longrightarrow> \<exists>s'. record_bad b s = Some s' \<and> inv s' \<and>
      bads s' = (if card (bads s) < cap then insert b (bads s) else bads s)"
    and bads_finite: "inv s \<Longrightarrow> finite (bads s)"
begin

lemma record_then_bad:
  assumes "inv s" "b \<noteq> INVALID_BLOCK" "card (bads s) < cap"
  shows "\<exists>s'. record_bad b s = Some s' \<and> is_bad b s' = Some True"
  using record_ok [OF assms(1,2)] is_bad_ok [OF _ assms(2)] assms(3) by fastforce

lemma record_others:
  assumes "inv s" "b \<noteq> INVALID_BLOCK" "c \<noteq> INVALID_BLOCK" "c \<noteq> b"
  shows "\<exists>s'. record_bad b s = Some s' \<and> is_bad c s' = is_bad c s"
  using record_ok [OF assms(1,2)] is_bad_ok [OF _ assms(3)] assms(1,4) by (auto split: if_splits)

lemma record_list:
  assumes "inv s" "INVALID_BLOCK \<notin> set xs" "card (bads s \<union> set xs) \<le> cap"
  shows "\<exists>s'. foldM record_bad xs s = Some s' \<and> inv s' \<and> bads s' = bads s \<union> set xs"
  using assms
proof (induction xs arbitrary: s)
  case Nil
  then show ?case by simp
next
  case (Cons x xs)
  obtain s1 where s1: "record_bad x s = Some s1" "inv s1"
      "bads s1 = (if card (bads s) < cap then insert x (bads s) else bads s)"
    using record_ok [of s x] Cons.prems by auto
  have fin: "finite (bads s \<union> set (x # xs))" using bads_finite Cons.prems(1) by simp
  have "x \<in> bads s" if "\<not> card (bads s) < cap"
  proof (rule ccontr)
    assume "x \<notin> bads s"
    then have "bads s \<subset> bads s \<union> set (x # xs)" by auto
    from psubset_card_mono [OF fin this] that Cons.prems(3) show False by simp
  qed
  then have "bads s1 = insert x (bads s)" using s1(3) by (auto simp: insert_absorb)
  with Cons.IH [of s1] s1 Cons.prems show ?case by auto
qed

end

interpretation anchor_bads: bad_log bad_wf bad_blocks ANCHOR_BADBLOCK_COUNT
    ANCHOR_LogBadBlock ANCHOR_IsBadBlock
proof unfold_locales
  fix u b
  assume "bad_wf u" "b \<noteq> INVALID_BLOCK"
  then show "ANCHOR_IsBadBlock b u = Some (b \<in> bad_blocks u)" by (rule IsBadBlock_spec)
next
  fix u b
  assume "bad_wf u" "b \<noteq> INVALID_BLOCK"
  from LogBadBlock_spec [OF this]
  show "\<exists>u'. ANCHOR_LogBadBlock b u = Some u' \<and> bad_wf u' \<and> bad_blocks u' =
      (if card (bad_blocks u) < ANCHOR_BADBLOCK_COUNT then insert b (bad_blocks u) else bad_blocks u)"
    unfolding bad_blocks_def by force
next
  fix u
  show "finite (bad_blocks u)" by (simp add: bad_blocks_def)
qed

end
