(* ===== verification/Anchor_Safety.thy ===== *)
theory Anchor_Safety
  imports Ubi_Anchor
begin

text \<open>
  The anchor across updates and power losses: which block a reclaim chooses, what an update leaves
  in flash, and what \<open>ANCHOR_Init\<close> makes of it, also when the power is lost between the write of
  the new anchor block and the erase of the old one.
\<close>

section \<open>Erasing and reading on the state of the block layer\<close>

definition page_wiped :: "u32 \<Rightarrow> mtd \<Rightarrow> mtd \<Rightarrow> bool" where
  "page_wiped b m m' \<longleftrightarrow> (\<forall>b' p. valid_block b' \<longrightarrow> valid_page p \<longrightarrow>
     flash_page m' b' p = (if b' = b then None else flash_page m b' p))"

lemma flash_page_length:
  "mtd_inv m \<Longrightarrow> flash_page m b p = Some (d, sp) \<Longrightarrow> length d = MPP_SIZE"
  by (auto simp: mtd_inv_def nand_wf_def col_wf_def cell_def flash_page_def cfg split: if_splits)

lemma table_log_length:
  assumes "mtd_inv m" "table_log m b ts" "t \<in> set ts"
  shows "length t = MPP_SIZE"
proof -
  obtain i where i: "i < length ts" "t = ts ! i" using assms(3) by (metis in_set_conv_nth)
  have "length ts \<le> PAGE_PER_PHY_BLOCK" using assms(2) by (simp add: table_log_def)
  then obtain sp where "flash_page m b (of_nat i) = Some (t, sp)"
    using conjunct2 [OF assms(2) [unfolded table_log_def], rule_format, of i] i by auto
  then show ?thesis by (rule flash_page_length [OF assms(1)])
qed

text \<open>\<open>wiped b u u'\<close>: the block has been erased and nothing else has changed.\<close>

definition wiped :: "u32 \<Rightarrow> ubi \<Rightarrow> ubi \<Rightarrow> bool" where
  "wiped b u u' \<longleftrightarrow> u\<lparr>mtd_of := mtd_of u'\<rparr> = u' \<and> mtd_inv (mtd_of u') \<and>
     page_wiped b (mtd_of u) (mtd_of u') \<and> (quiet (mtd_of u) \<longrightarrow> quiet (mtd_of u'))"

lemma wipedE:
  assumes "wiped b u u'"
  obtains m where "u' = u\<lparr>mtd_of := m\<rparr>" "mtd_inv m" "page_wiped b (mtd_of u) m"
    "quiet (mtd_of u) \<longrightarrow> quiet m"
  using assms unfolding wiped_def by metis

lemma wiped_log:
  assumes "page_wiped b m m'"
  shows "valid_block b \<Longrightarrow> table_log m' b []"
    and "valid_block b' \<Longrightarrow> b' \<noteq> b \<Longrightarrow> table_log m' b' ts = table_log m b' ts"
proof -
  show "table_log m' b []" if "valid_block b"
    using assms that by (auto simp: table_log_def page_wiped_def cfg valid_page_unat unat_of_nat_u32)
  show "table_log m' b' ts = table_log m b' ts" if "valid_block b'" "b' \<noteq> b"
    by (rule table_log_cong) (use assms that in \<open>simp add: page_wiped_def\<close>)
qed

lemma erase_ubi:
  assumes "mtd_inv (mtd_of u)" "valid_block b"
  shows "\<exists>u'. on_mtd (MTD_Erase b) u = Some (STATUS_SUCCESS, u') \<and> wiped b u u'"
proof -
  obtain m' where m': "MTD_Erase b (mtd_of u) = Some (STATUS_SUCCESS, m')" "mtd_inv m'"
      "fault_of m' = fault_tick (fault_of (mtd_of u))" "page_wiped b (mtd_of u) m'"
    using mtd_flash.erase_ok [OF assms] unfolding page_wiped_def by blast
  then show ?thesis using quiet_tick [OF m'(3)] by (auto simp: on_mtd_def wiped_def)
qed

lemma erase_good_spec:
  assumes "mtd_inv (mtd_of u)" "bad_wf u" "valid_block b"
  shows "b \<in> bad_blocks u \<Longrightarrow> erase_good b u = Some (STATUS_BADBLOCK, u)"
    and "b \<notin> bad_blocks u \<Longrightarrow> \<exists>u'. erase_good b u = Some (STATUS_SUCCESS, u') \<and> wiped b u u'"
proof -
  have "b \<noteq> INVALID_BLOCK"
    using assms(3) by (auto simp: valid_block_unat INVALID_BLOCK_def unsigned_minus_1_eq_mask
        mask_eq_exp_minus_1)
  note bad = anchor_bads.is_bad_ok [OF assms(2) this]
  show "erase_good b u = Some (STATUS_BADBLOCK, u)" if "b \<in> bad_blocks u"
    using bad that by (simp add: erase_good_def)
  show "\<exists>u'. erase_good b u = Some (STATUS_SUCCESS, u') \<and> wiped b u u'"
    if "b \<notin> bad_blocks u"
    using bad that erase_ubi [OF assms(1,3)] by (auto simp: erase_good_def erase_or_log_def)
qed

section \<open>The next anchor block\<close>

definition anchor_succ :: "u32 \<Rightarrow> u32" where
  "anchor_succ b = (if b + 1 > ANCHOR_LAST_BLOCK then ANCHOR_FIRST_BLOCK else b + 1)"

definition anchor_region :: "u32 list" where
  "anchor_region = [1, 2, 3, 4, 5, 6]"

text \<open>The blocks the search visits after \<open>c\<close>, in order, before it is back at \<open>c\<close>.\<close>

definition anchor_others :: "u32 \<Rightarrow> u32 list" where
  "anchor_others c = filter (\<lambda>b. c < b) anchor_region @ filter (\<lambda>b. b < c) anchor_region"

fun succ_path :: "u32 \<Rightarrow> u32 list \<Rightarrow> u32 \<Rightarrow> bool" where
  "succ_path p [] c \<longleftrightarrow> anchor_succ p = c"
| "succ_path p (b # bs) c \<longleftrightarrow> anchor_succ p = b \<and> b \<noteq> c \<and> succ_path b bs c"

lemma anchor_succ_values: "anchor_succ 1 = 2" "anchor_succ 2 = 3" "anchor_succ 3 = 4"
  "anchor_succ 4 = 5" "anchor_succ 5 = 6" "anchor_succ 6 = 1"
  by (simp_all add: anchor_succ_def cfg)

lemma anchor_others_path: "c \<in> set anchor_region \<Longrightarrow> succ_path c (anchor_others c) c"
  by (simp add: anchor_region_def, elim disjE)
    (simp_all add: anchor_region_def anchor_others_def anchor_succ_values)

lemma anchor_region_valid: "b \<in> set anchor_region \<Longrightarrow> valid_block b"
  by (auto simp: anchor_region_def valid_block_unat)

lemma anchor_others_region:
  "set (anchor_others c) = set anchor_region - {c}"
  by (auto simp: anchor_others_def)

lemma anchor_loop_step:
  "anchor_next_loop c p u = do {
     (ret, u) \<leftarrow> erase_good (anchor_succ p) u;
     if ret \<noteq> STATUS_SUCCESS \<and> anchor_succ p \<noteq> c then anchor_next_loop c (anchor_succ p) u
     else Some ((ret, anchor_succ p), u) }"
  unfolding anchor_succ_def by (subst anchor_next_loop.simps) (simp only: Let_def)

text \<open>The search settles on the first good block, or is back at the start.\<close>

lemma anchor_loop_find:
  assumes "mtd_inv (mtd_of u)" "bad_wf u" "valid_block c"
  shows "succ_path p bs c \<Longrightarrow> \<forall>b \<in> set bs. valid_block b \<Longrightarrow>
    (case List.find (\<lambda>b. b \<notin> bad_blocks u) bs of
      Some b \<Rightarrow> \<exists>u'. anchor_next_loop c p u = Some ((STATUS_SUCCESS, b), u') \<and> wiped b u u'
    | None \<Rightarrow> if c \<in> bad_blocks u then anchor_next_loop c p u = Some ((STATUS_BADBLOCK, c), u)
        else \<exists>u'. anchor_next_loop c p u = Some ((STATUS_SUCCESS, c), u') \<and> wiped c u u')"
proof (induction bs arbitrary: p)
  case Nil
  then have "anchor_succ p = c" by simp
  then show ?case
    using erase_good_spec [OF assms] by (auto simp: anchor_loop_step)
next
  case (Cons b bs)
  then have b: "anchor_succ p = b" "b \<noteq> c" "succ_path b bs c" "valid_block b" by simp_all
  show ?case
  proof (cases "b \<in> bad_blocks u")
    case True
    then have "anchor_next_loop c p u = anchor_next_loop c b u"
      using erase_good_spec(1) [OF assms(1,2) b(4)] b(1,2) by (simp add: anchor_loop_step)
    then show ?thesis using Cons.IH [OF b(3)] Cons.prems(2) True
      by (cases "c \<in> bad_blocks u") (simp_all split: option.splits)
  next
    case False
    then show ?thesis
      using erase_good_spec(2) [OF assms(1,2) b(4)] b(1,2) by (auto simp: anchor_loop_step)
  qed
qed

lemma find_next_good:
  assumes "mtd_inv (mtd_of u)" "bad_wf u" "c \<in> set anchor_region"
    and "\<exists>b \<in> set anchor_region. b \<noteq> c \<and> b \<notin> bad_blocks u"
  shows "\<exists>b u'. anchor_find_next_block c u = Some ((STATUS_SUCCESS, b), u') \<and>
    b \<in> set anchor_region \<and> b \<noteq> c \<and> b \<notin> bad_blocks u \<and> wiped b u u'"
proof -
  have "List.find (\<lambda>b. b \<notin> bad_blocks u) (anchor_others c) \<noteq> None"
    using assms(4) anchor_others_region [of c] unfolding find_None_iff by blast
  then obtain b where b: "List.find (\<lambda>b. b \<notin> bad_blocks u) (anchor_others c) = Some b" by blast
  then have "b \<in> set (anchor_others c)" "b \<notin> bad_blocks u" by (auto simp: find_Some_iff)
  then have reg: "b \<in> set anchor_region" "b \<noteq> c" using anchor_others_region by auto
  have "\<forall>b \<in> set (anchor_others c). valid_block b"
    using anchor_others_region anchor_region_valid by auto
  then show ?thesis
    using anchor_loop_find [OF assms(1,2) anchor_region_valid [OF assms(3)]
        anchor_others_path [OF assms(3)]] b reg \<open>b \<notin> bad_blocks u\<close>
    by (auto simp: anchor_find_next_block_def)
qed

text \<open>
  With no other good block the search comes back to the current block, erases it, and only then
  reports the failure.
\<close>

lemma find_next_none:
  assumes "mtd_inv (mtd_of u)" "bad_wf u" "c \<in> set anchor_region" "c \<notin> bad_blocks u"
    and "\<forall>b \<in> set anchor_region. b \<noteq> c \<longrightarrow> b \<in> bad_blocks u"
  shows "\<exists>u'. anchor_find_next_block c u = Some ((STATUS_FAILURE, c), u') \<and> wiped c u u'"
proof -
  have "List.find (\<lambda>b. b \<notin> bad_blocks u) (anchor_others c) = None"
    using assms(5) anchor_others_region [of c] unfolding find_None_iff by blast
  moreover have "\<forall>b \<in> set (anchor_others c). valid_block b"
    using anchor_others_region anchor_region_valid by auto
  ultimately show ?thesis
    using anchor_loop_find [OF assms(1,2) anchor_region_valid [OF assms(3)]
        anchor_others_path [OF assms(3)]] assms(4)
    by (auto simp: anchor_find_next_block_def)
qed

section \<open>Update\<close>

text \<open>
  \<open>anchor_state u ts\<close>: the current anchor block is good and holds the tables \<open>ts\<close>; the next table
  goes to the page after them.
\<close>

definition anchor_state :: "ubi \<Rightarrow> u8 list list \<Rightarrow> bool" where
  "anchor_state u ts \<longleftrightarrow> mtd_inv (mtd_of u) \<and> quiet (mtd_of u) \<and> anchor_wf (anchor_table u) \<and>
     bad_wf u \<and> anchor_block u \<in> set anchor_region \<and>
     table_log (mtd_of u) (anchor_block u) ts \<and> anchor_next_page u = of_nat (length ts)"

lemma append_table:
  assumes "mtd_inv (mtd_of u)" "quiet (mtd_of u)" "valid_block b" "table_log (mtd_of u) b ts"
    and "length ts < PAGE_PER_PHY_BLOCK" "length d = MPP_SIZE"
  shows "\<exists>m'. table_write b (of_nat (length ts)) d u = Some (STATUS_SUCCESS, u\<lparr>mtd_of := m'\<rparr>) \<and>
    mtd_inv m' \<and> quiet m' \<and> table_log m' b (ts @ [d]) \<and>
    (\<forall>b' ts'. valid_block b' \<longrightarrow> b' \<noteq> b \<longrightarrow> table_log m' b' ts' = table_log (mtd_of u) b' ts')"
  using mtd_tables.put_append [OF assms, of "stack_word u"]
  by (auto simp: table_write_def on_mtd_def)

lemma of_nat_32: "of_nat n = (32 :: u32) \<longleftrightarrow> n = 32" if "n \<le> 32"
proof -
  have "unat (of_nat n :: u32) = n" using that by (simp add: unat_of_nat_u32)
  then show ?thesis by (auto simp: word_unat_eq_iff)
qed

text \<open>With room in the block, an update appends the table and touches nothing else.\<close>

lemma Update_append:
  assumes st: "anchor_state u ts" and room: "length ts < PAGE_PER_PHY_BLOCK"
  shows "\<exists>m'. ANCHOR_Update u = Some (STATUS_SUCCESS,
      u\<lparr>mtd_of := m', anchor_next_page := anchor_next_page u + 1\<rparr>) \<and>
    mtd_inv m' \<and> quiet m' \<and> table_log m' (anchor_block u) (ts @ [anchor_bytes (anchor_table u)]) \<and>
    (\<forall>b ts'. valid_block b \<longrightarrow> b \<noteq> anchor_block u \<longrightarrow> table_log m' b ts' = table_log (mtd_of u) b ts')"
proof -
  have np: "anchor_next_page u = of_nat (length ts)" "anchor_next_page u \<noteq> PAGE_PER_PHY_BLOCK"
    using st room of_nat_32 [of "length ts"] by (simp_all add: anchor_state_def cfg)
  obtain m' where w: "table_write (anchor_block u) (anchor_next_page u)
        (anchor_bytes (anchor_table u)) u = Some (STATUS_SUCCESS, u\<lparr>mtd_of := m'\<rparr>)"
      and m': "mtd_inv m'" "quiet m'"
      "table_log m' (anchor_block u) (ts @ [anchor_bytes (anchor_table u)])"
      "\<forall>b ts'. valid_block b \<longrightarrow> b \<noteq> anchor_block u \<longrightarrow> table_log m' b ts' = table_log (mtd_of u) b ts'"
    using append_table [of u "anchor_block u" ts "anchor_bytes (anchor_table u)"] st room
      anchor_codec.length_enc anchor_region_valid unfolding np(1) by (auto simp: anchor_state_def)
  have "anchor_write False u =
      Some (STATUS_SUCCESS, u\<lparr>mtd_of := m', anchor_next_page := anchor_next_page u + 1\<rparr>)"
    using w by (simp add: anchor_write_def)
  then have "ANCHOR_Update u =
      Some (STATUS_SUCCESS, u\<lparr>mtd_of := m', anchor_next_page := anchor_next_page u + 1\<rparr>)"
    using np(2) by (simp add: ANCHOR_Update_def anchor_update_loop.simps)
  then show ?thesis using m' by blast
qed

text \<open>
  A full block is reclaimed: the table, now with the old block in \<open>previous_anchor_block\<close>, is the
  first of another good block, and the old block is erased.
\<close>

lemma Update_reclaim:
  assumes st: "anchor_state u ts" and full: "length ts = PAGE_PER_PHY_BLOCK"
    and other: "\<exists>b \<in> set anchor_region. b \<noteq> anchor_block u \<and> b \<notin> bad_blocks u"
  defines "t \<equiv> (anchor_table u)\<lparr>previous_anchor_block := anchor_block u\<rparr>"
  shows "\<exists>b m'. ANCHOR_Update u = Some (STATUS_SUCCESS,
      u\<lparr>mtd_of := m', anchor_table := t, anchor_block := b, anchor_next_page := 1\<rparr>) \<and>
    b \<in> set anchor_region \<and> b \<noteq> anchor_block u \<and> b \<notin> bad_blocks u \<and> mtd_inv m' \<and> quiet m' \<and>
    table_log m' b [anchor_bytes t] \<and> table_log m' (anchor_block u) [] \<and>
    (\<forall>c ts'. valid_block c \<longrightarrow> c \<noteq> b \<longrightarrow> c \<noteq> anchor_block u \<longrightarrow>
       table_log m' c ts' = table_log (mtd_of u) c ts')"
proof -
  let ?c = "anchor_block u"
  let ?u1 = "u\<lparr>anchor_table := t\<rparr>"
  have np: "anchor_next_page u = PAGE_PER_PHY_BLOCK" using st full by (simp add: anchor_state_def cfg)
  have bw: "bad_wf ?u1" "bad_blocks ?u1 = bad_blocks u" "mtd_inv (mtd_of ?u1)" "quiet (mtd_of ?u1)"
    using st by (simp_all add: anchor_state_def bad_wf_def bad_blocks_def t_def)
  have reg: "?c \<in> set anchor_region" and cv: "valid_block ?c"
    using st anchor_region_valid by (auto simp: anchor_state_def)
  obtain b u2 where b: "anchor_find_next_block ?c ?u1 = Some ((STATUS_SUCCESS, b), u2)"
      "b \<in> set anchor_region" "b \<noteq> ?c" "b \<notin> bad_blocks u" "wiped b ?u1 u2"
    using find_next_good [OF bw(3,1) reg] other bw(2) by auto
  then have bv: "valid_block b" by (simp add: anchor_region_valid)
  obtain m2 where m2: "u2 = ?u1\<lparr>mtd_of := m2\<rparr>" "mtd_inv m2" "quiet m2" "page_wiped b (mtd_of u) m2"
    using b(5) bw(4) by (auto elim!: wipedE)
  let ?u3 = "?u1\<lparr>mtd_of := m2, anchor_block := b, anchor_next_page := 0\<rparr>"
  have rec: "anchor_reclaim u = Some (STATUS_SUCCESS, ?u3)"
    using b(1) m2(1) by (simp add: anchor_reclaim_def t_def)
  have e: "length (anchor_bytes t) = MPP_SIZE"
    using st by (intro anchor_codec.length_enc) (simp add: anchor_state_def anchor_wf_def t_def)
  have log2: "table_log m2 b []" using wiped_log(1) [OF m2(4) bv] .
  obtain m3 where m3: "table_write b 0 (anchor_bytes t) ?u3 = Some (STATUS_SUCCESS, ?u3\<lparr>mtd_of := m3\<rparr>)"
      "mtd_inv m3" "quiet m3" "table_log m3 b [anchor_bytes t]"
      "\<forall>b' ts'. valid_block b' \<longrightarrow> b' \<noteq> b \<longrightarrow> table_log m3 b' ts' = table_log m2 b' ts'"
    using append_table [of ?u3 b "[]" "anchor_bytes t"] m2 bv log2 e by (auto simp: cfg)
  let ?u4 = "?u3\<lparr>mtd_of := m3\<rparr>"
  obtain u5 where u5: "on_mtd (MTD_Erase ?c) ?u4 = Some (STATUS_SUCCESS, u5)" "wiped ?c ?u4 u5"
    using erase_ubi [of ?u4 ?c] m3(2) cv by auto
  obtain m5 where m5: "u5 = ?u4\<lparr>mtd_of := m5\<rparr>" "mtd_inv m5" "quiet m5" "page_wiped ?c m3 m5"
    using u5(2) m3(3) by (auto elim!: wipedE)
  have wr: "anchor_write True ?u3 = Some (STATUS_SUCCESS, u5\<lparr>anchor_next_page := 1\<rparr>)"
    using m3(1) u5(1) by (simp add: anchor_write_def t_def m5(1))
  have final: "u5\<lparr>anchor_next_page := 1\<rparr> =
      u\<lparr>mtd_of := m5, anchor_table := t, anchor_block := b, anchor_next_page := 1\<rparr>"
    unfolding m5(1) by simp
  have "ANCHOR_Update u = Some (STATUS_SUCCESS, u5\<lparr>anchor_next_page := 1\<rparr>)"
    using np rec wr by (simp add: ANCHOR_Update_def anchor_update_loop.simps)
  moreover have "table_log m5 b [anchor_bytes t]" "table_log m5 ?c []"
    using wiped_log [OF m5(4)] cv bv b(3) m3(4) by simp_all
  moreover have "table_log m5 c ts' = table_log (mtd_of u) c ts'"
    if "valid_block c" "c \<noteq> b" "c \<noteq> ?c" for c ts'
    using wiped_log(2) [OF m5(4)] wiped_log(2) [OF m2(4)] m3(5) that by simp
  ultimately show ?thesis using b m5(2,3) unfolding final by blast
qed

section \<open>Start-up\<close>

text \<open>\<open>reads_only u u'\<close>: the device was read; no page has changed.\<close>

definition reads_only :: "ubi \<Rightarrow> ubi \<Rightarrow> bool" where
  "reads_only u u' \<longleftrightarrow> u\<lparr>mtd_of := mtd_of u'\<rparr> = u' \<and> mtd_inv (mtd_of u') \<and>
     table_log (mtd_of u') = table_log (mtd_of u) \<and> (quiet (mtd_of u) \<longrightarrow> quiet (mtd_of u'))"

lemma reads_onlyI:
  "mtd_inv m \<Longrightarrow> table_log m = table_log (mtd_of u) \<Longrightarrow> (quiet (mtd_of u) \<longrightarrow> quiet m) \<Longrightarrow>
    reads_only u (u\<lparr>mtd_of := m\<rparr>)"
  by (simp add: reads_only_def)

lemma reads_onlyE:
  assumes "reads_only u u'"
  obtains m where "u' = u\<lparr>mtd_of := m\<rparr>" "mtd_inv m" "table_log m = table_log (mtd_of u)"
    "quiet (mtd_of u) \<longrightarrow> quiet m"
  using assms unfolding reads_only_def by metis

lemma reads_only_trans: "reads_only u v \<Longrightarrow> reads_only v w \<Longrightarrow> reads_only u w"
  by (elim reads_onlyE) (auto intro!: reads_onlyI)

lemma get_last_ubi:
  assumes "mtd_inv (mtd_of u)" "valid_block b" "table_log (mtd_of u) b ts" "ts \<noteq> []"
    and "length mem = MPP_SIZE"
  shows "\<exists>u'. table_read b INVALID_PAGE (Some mem) u =
    Some ((STATUS_SUCCESS, of_nat (length ts - 1), Some (last ts)), u') \<and> reads_only u u'"
  using mtd_tables.get_last [OF assms, of "stack_word u"]
  by (auto simp: table_read_def on_mtd_def intro!: reads_onlyI)

lemma get_none_ubi:
  assumes "mtd_inv (mtd_of u)" "valid_block b" "table_log (mtd_of u) b []"
  shows "\<exists>u'. table_read b 0 None u = Some ((STATUS_FAILURE, INVALID_PAGE, None), u') \<and> reads_only u u'"
  using mtd_tables.get_none [OF assms, of "stack_word u"]
  by (auto simp: table_read_def on_mtd_def intro!: reads_onlyI)

lemma get_first_ubi:
  assumes "mtd_inv (mtd_of u)" "valid_block b" "table_log (mtd_of u) b ts" "ts \<noteq> []"
  shows "\<exists>u'. table_read b 0 None u = Some ((STATUS_SUCCESS, 0, None), u') \<and> reads_only u u'"
proof -
  obtain sp where "flash_page (mtd_of u) b 0 = Some (ts ! 0, sp)" "fst sp \<noteq> -1"
    using table_log_page [OF assms(3), of 0] assms(4) by auto
  then obtain m' where "TABLE_Read (stack_word u) b 0 None (mtd_of u) =
      Some ((STATUS_SUCCESS, 0, None), m')" "mtd_inv m'" "flash_page m' = flash_page (mtd_of u)"
      "quiet (mtd_of u) \<longrightarrow> quiet m'"
    using TABLE_Read_at [OF assms(1,2), of 0 None "stack_word u"]
    by (auto simp: table_result_def valid_page_unat)
  then show ?thesis
    using table_log_same [of m' "mtd_of u"]
    by (auto simp: table_read_def on_mtd_def intro!: reads_onlyI)
qed

lemma reads_only_log:
  assumes "reads_only u u'"
  shows "table_log (mtd_of u') b ts = table_log (mtd_of u) b ts" "mtd_inv (mtd_of u')"
    "anchor_table u' = anchor_table u"
  using assms by (auto elim!: reads_onlyE)

lemma probe_blank:
  assumes "mtd_inv (mtd_of u)" "valid_block b" "table_log (mtd_of u) b []"
  shows "\<exists>u'. anchor_probe b u = Some ((STATUS_FAILURE, INVALID_PAGE), u') \<and> reads_only u u'"
  using get_none_ubi [OF assms] by (auto simp: anchor_probe_def)

lemma probe_table:
  assumes "mtd_inv (mtd_of u)" "valid_block b" "table_log (mtd_of u) b ts" "ts \<noteq> []"
    and "anchor_wf (anchor_table u)"
  shows "\<exists>u'. anchor_probe b u = Some ((STATUS_SUCCESS, of_nat (length ts - 1)),
      u'\<lparr>anchor_table := anchor_of_bytes (last ts)\<rparr>) \<and> reads_only u u'"
proof -
  obtain u1 where u1: "table_read b 0 None u = Some ((STATUS_SUCCESS, 0, None), u1)" "reads_only u u1"
    using get_first_ubi [OF assms(1-4)] by blast
  have len: "length (anchor_bytes (anchor_table u1)) = MPP_SIZE"
    using reads_only_log [OF u1(2)] assms(5) anchor_codec.length_enc by simp
  obtain u2 where u2: "table_read b INVALID_PAGE (Some (anchor_bytes (anchor_table u1))) u1 =
      Some ((STATUS_SUCCESS, of_nat (length ts - 1), Some (last ts)), u2)" "reads_only u1 u2"
    using get_last_ubi [of u1 b ts, OF _ assms(2) _ assms(4) len] reads_only_log [OF u1(2)] assms(3)
    by auto
  show ?thesis
    using u1(1) u2 reads_only_trans [OF u1(2) u2(2)] by (auto simp: anchor_probe_def)
qed

text \<open>The search over blocks that hold nothing.\<close>

lemma search_blank:
  assumes "mtd_inv (mtd_of u)"
    and "\<forall>b \<in> set bs. valid_block (of_nat b) \<and> table_log (mtd_of u) (of_nat b) []"
  shows "\<exists>u'. anchor_search (bs @ cs) b1 p1 prev u = anchor_search cs b1 p1 prev u' \<and> reads_only u u'"
  using assms
proof (induction bs arbitrary: u)
  case Nil
  then show ?case by (auto simp: reads_only_def intro!: exI [of _ u])
next
  case (Cons b bs)
  obtain u1 where u1: "anchor_probe (of_nat b) u = Some ((STATUS_FAILURE, INVALID_PAGE), u1)"
      "reads_only u u1"
    using probe_blank [OF Cons.prems(1), of "of_nat b"] Cons.prems(2) by auto
  obtain u2 where "anchor_search (bs @ cs) b1 p1 prev u1 = anchor_search cs b1 p1 prev u2"
      "reads_only u1 u2"
    using Cons.IH [of u1] reads_only_log [OF u1(2)] Cons.prems(2) by auto
  then show ?case using u1 reads_only_trans by (intro exI [of _ u2]) auto
qed

lemma region_list: "[unat ANCHOR_FIRST_BLOCK..<unat ANCHOR_LAST_BLOCK + 1] = [1, 2, 3, 4, 5, 6]"
  by (simp add: cfg upt_rec)

lemma region_of_nat: "map of_nat [1, 2, 3, 4, 5, 6] = anchor_region"
  by (simp add: anchor_region_def)

text \<open>A split of the region at a block: what comes before and what comes after it.\<close>

lemma region_split:
  assumes "b \<in> set anchor_region"
  shows "\<exists>xs n ys. [1, 2, 3, 4, 5, 6] = xs @ n # ys \<and> of_nat n = b \<and>
    (\<forall>x \<in> set xs \<union> set ys. of_nat x \<in> set anchor_region - {b})"
proof -
  obtain n where n: "n \<in> set [1, 2, 3, 4, 5, 6]" "of_nat n = b"
    using assms unfolding region_of_nat [symmetric] set_map by (elim imageE) blast
  obtain xs ys where xy: "[1, 2, 3, 4, 5, 6] = xs @ n # ys"
    using split_list [OF n(1)] by blast
  have d: "distinct (map (of_nat :: nat \<Rightarrow> u32) [1, 2, 3, 4, 5, 6])" by simp
  have "of_nat x \<in> set anchor_region - {b}" if "x \<in> set xs \<union> set ys" for x
  proof -
    have "of_nat x \<in> set anchor_region"
      unfolding region_of_nat [symmetric] xy using that by auto
    moreover have "b \<notin> of_nat ` (set xs \<union> set ys)"
      using d n(2) unfolding xy by auto
    then have "of_nat x \<noteq> b" using that by blast
    ultimately show ?thesis by simp
  qed
  then show ?thesis using xy n(2) by blast
qed

definition blank_tables :: "ubi \<Rightarrow> ubi" where
  "blank_tables u = u\<lparr>anchor_table := blank_anchor, index_table := blank_index\<rparr>"

lemma blank_anchor_wf: "anchor_wf blank_anchor"
  unfolding blank_anchor_def by (rule anchor_codec.wf_dec) simp

lemma blank_tables_simps [simp]: "mtd_of (blank_tables u) = mtd_of u"
  "anchor_table (blank_tables u) = blank_anchor"
  by (simp_all add: blank_tables_def)

lemma region_ne_INVALID: "b \<in> set anchor_region \<Longrightarrow> b \<noteq> INVALID_BLOCK"
  by (auto simp: anchor_region_def INVALID_BLOCK_def)

lemma Init_unfold:
  assumes "anchor_search [1, 2, 3, 4, 5, 6] INVALID_BLOCK INVALID_PAGE INVALID_BLOCK (blank_tables u) =
      Some ((b, p), v)" "b \<noteq> INVALID_BLOCK"
  shows "ANCHOR_Init u = Some (if anchor_invalid (anchor_table v) then STATUS_FAILURE
      else STATUS_SUCCESS, v\<lparr>anchor_block := b, anchor_next_page := p + 1\<rparr>)"
  unfolding ANCHOR_Init_def region_list Let_def blank_tables_def [symmetric] assms(1)
  using assms(2) by simp

text \<open>One block of the region holds tables: its last table is the anchor table again.\<close>

lemma Init_one:
  assumes inv: "mtd_inv (mtd_of u)" and reg: "b \<in> set anchor_region"
    and log: "table_log (mtd_of u) b ts" "ts \<noteq> []"
    and others: "\<forall>c \<in> set anchor_region - {b}. table_log (mtd_of u) c []"
  defines "t \<equiv> anchor_of_bytes (last ts)"
  shows "\<exists>m'. ANCHOR_Init u = Some (if anchor_invalid t then STATUS_FAILURE else STATUS_SUCCESS,
      u\<lparr>mtd_of := m', anchor_table := t, index_table := blank_index, anchor_block := b,
        anchor_next_page := of_nat (length ts)\<rparr>) \<and>
    mtd_inv m' \<and> table_log m' = table_log (mtd_of u) \<and> (quiet (mtd_of u) \<longrightarrow> quiet m')"
proof -
  obtain xs n ys where split: "[1, 2, 3, 4, 5, 6] = xs @ n # ys" "of_nat n = b"
      "\<forall>x \<in> set xs \<union> set ys. of_nat x \<in> set anchor_region - {b}"
    using region_split [OF reg] by blast
  let ?u0 = "blank_tables u"
  have blank: "\<forall>c \<in> set zs. valid_block (of_nat c) \<and> table_log (mtd_of v) (of_nat c) []"
    if "set zs \<subseteq> set xs \<union> set ys" "table_log (mtd_of v) = table_log (mtd_of u)" for zs v
    using that split(3) others anchor_region_valid by fastforce
  obtain u1 where u1: "anchor_search (xs @ n # ys) INVALID_BLOCK INVALID_PAGE INVALID_BLOCK ?u0 =
      anchor_search (n # ys) INVALID_BLOCK INVALID_PAGE INVALID_BLOCK u1" "reads_only ?u0 u1"
    using search_blank [of ?u0 xs "n # ys" INVALID_BLOCK INVALID_PAGE INVALID_BLOCK] inv
      blank [of xs ?u0]
    by (auto simp del: anchor_search.simps)
  note r1 = reads_only_log [OF u1(2)]
  obtain u2 where u2: "anchor_probe b u1 = Some ((STATUS_SUCCESS, of_nat (length ts - 1)),
      u2\<lparr>anchor_table := t\<rparr>)" "reads_only u1 u2"
    using probe_table [of u1 b ts] r1 log reg anchor_region_valid blank_anchor_wf
    by (auto simp: t_def)
  note r2 = reads_only_log [OF u2(2)]
  let ?u2 = "u2\<lparr>anchor_table := t\<rparr>"
  have "table_log (mtd_of ?u2) = table_log (mtd_of u)"
    using u1(2) u2(2) by (simp add: reads_only_def)
  then obtain u3 where u3: "anchor_search (ys @ []) b (of_nat (length ts - 1))
      (previous_anchor_block t) ?u2 =
      anchor_search [] b (of_nat (length ts - 1)) (previous_anchor_block t) u3" "reads_only ?u2 u3"
    using search_blank [of ?u2 ys "[]" b "of_nat (length ts - 1)" "previous_anchor_block t"] r2(2)
      blank [of ys ?u2]
    by (auto simp del: anchor_search.simps)
  have s: "anchor_search (xs @ n # ys) INVALID_BLOCK INVALID_PAGE INVALID_BLOCK ?u0 =
      Some ((b, of_nat (length ts - 1)), u3)"
    using u1(1) u2(1) u3(1) split(2) by simp
  obtain m1 where m1: "u1 = ?u0\<lparr>mtd_of := m1\<rparr>" "table_log m1 = table_log (mtd_of u)"
      "quiet (mtd_of u) \<longrightarrow> quiet m1"
    using u1(2) by (rule reads_onlyE) auto
  obtain m2 where m2: "u2 = u1\<lparr>mtd_of := m2\<rparr>" "table_log m2 = table_log (mtd_of u)"
      "quiet (mtd_of u) \<longrightarrow> quiet m2"
    using u2(2) m1 by (auto elim!: reads_onlyE)
  obtain m3 where m3': "u3 = ?u2\<lparr>mtd_of := m3\<rparr>" "mtd_inv m3"
      "table_log m3 = table_log (mtd_of u)" "quiet (mtd_of u) \<longrightarrow> quiet m3"
    using u3(2) m2 by (auto elim!: reads_onlyE)
  have m3: "u3 = u\<lparr>mtd_of := m3, anchor_table := t, index_table := blank_index\<rparr>"
    unfolding m3'(1) m2(1) m1(1) blank_tables_def by simp
  have "of_nat (length ts - 1) + 1 = (of_nat (length ts) :: u32)"
    using log(2) by (cases ts) simp_all
  moreover have "ANCHOR_Init u = Some (if anchor_invalid (anchor_table u3) then STATUS_FAILURE
      else STATUS_SUCCESS, u3\<lparr>anchor_block := b, anchor_next_page := of_nat (length ts - 1) + 1\<rparr>)"
    using Init_unfold [unfolded split(1), OF s region_ne_INVALID [OF reg]] .
  ultimately show ?thesis
    using m3'(2-4) by (intro exI [of _ m3]) (simp add: m3)
qed

section \<open>Power loss during a reclaim\<close>

text \<open>A split of the region at two blocks.\<close>

lemma region_split2:
  assumes "b \<in> set anchor_region" "c \<in> set anchor_region" "b < c"
  shows "\<exists>xs n ys k zs. [1, 2, 3, 4, 5, 6] = xs @ n # ys @ k # zs \<and> of_nat n = b \<and> of_nat k = c \<and>
    (\<forall>x \<in> set xs \<union> set ys \<union> set zs. of_nat x \<in> set anchor_region - {b, c})"
proof -
  obtain xs n ws where s: "[1, 2, 3, 4, 5, 6] = xs @ n # ws" "of_nat n = b"
      "\<forall>x \<in> set xs \<union> set ws. of_nat x \<in> set anchor_region - {b}"
    using region_split [OF assms(1)] by blast
  obtain k where k: "k \<in> set [1, 2, 3, 4, 5, 6]" "of_nat k = c"
    using assms(2) unfolding region_of_nat [symmetric] set_map by (elim imageE) blast
  have small: "x < 7" if "x \<in> set [1, 2, 3, 4, 5, 6 :: nat]" for x using that by auto
  have n: "n \<in> set [1, 2, 3, 4, 5, 6]" unfolding s(1) by simp
  have "unat b = n" "unat c = k"
    unfolding s(2) [symmetric] k(2) [symmetric]
    using small [OF n] small [OF k(1)] by (simp_all add: unat_of_nat_u32)
  then have "n < k" using assms(3) by (simp add: word_less_nat_alt)
  moreover have "sorted (xs @ n # ws)" unfolding s(1) [symmetric] by simp
  ultimately have "k \<in> set ws" using k(1) unfolding s(1) by (auto simp: sorted_append)
  then obtain ys zs where w: "ws = ys @ k # zs" by (blast dest: split_list)
  have d: "distinct (map (of_nat :: nat \<Rightarrow> u32) (xs @ n # ys @ k # zs))"
    unfolding w [symmetric] s(1) [symmetric] by simp
  then have "c \<notin> of_nat ` (set xs \<union> set ys \<union> set zs)"
    unfolding k(2) [symmetric] by auto
  then have "\<forall>x \<in> set xs \<union> set ys \<union> set zs. of_nat x \<in> set anchor_region - {b, c}"
    using s(3) unfolding w by auto
  then show ?thesis using s(1,2) k(2) unfolding w by blast
qed

text \<open>
  Both the old and the new anchor block hold tables.  The first visited block is compared with the
  second: \<open>anchor_table\<close> is that of the second block in both cases.
\<close>

lemma Init_two:
  assumes inv: "mtd_inv (mtd_of u)" "quiet (mtd_of u)"
    and reg: "b \<in> set anchor_region" "c \<in> set anchor_region" "b < c"
    and logb: "table_log (mtd_of u) b tsb" "tsb \<noteq> []"
    and logc: "table_log (mtd_of u) c tsc" "tsc \<noteq> []"
    and others: "\<forall>d \<in> set anchor_region - {b, c}. table_log (mtd_of u) d []"
  defines "tb \<equiv> anchor_of_bytes (last tsb)" and "tc \<equiv> anchor_of_bytes (last tsc)"
  defines "first \<equiv> previous_anchor_block tb = c"
  assumes plr: "first \<or> previous_anchor_block tc = b"
  shows "\<exists>m'. ANCHOR_Init u = Some (if anchor_invalid tc then STATUS_FAILURE else STATUS_SUCCESS,
      u\<lparr>mtd_of := m', anchor_table := tc, index_table := blank_index,
        anchor_block := if first then b else c,
        anchor_next_page := of_nat (length (if first then tsb else tsc))\<rparr>) \<and>
    mtd_inv m' \<and> quiet m' \<and> table_log m' (if first then c else b) [] \<and>
    table_log m' (if first then b else c) = table_log (mtd_of u) (if first then b else c)"
proof -
  obtain xs n ys k zs where split: "[1, 2, 3, 4, 5, 6] = xs @ n # ys @ k # zs" "of_nat n = b"
      "of_nat k = c" "\<forall>x \<in> set xs \<union> set ys \<union> set zs. of_nat x \<in> set anchor_region - {b, c}"
    using region_split2 [OF reg] by blast
  let ?u0 = "blank_tables u"
  let ?old = "if first then c else b"
  have blank: "\<forall>x \<in> set ws. valid_block (of_nat x) \<and> table_log (mtd_of v) (of_nat x) []"
    if "set ws \<subseteq> set xs \<union> set ys" "table_log (mtd_of v) = table_log (mtd_of u)" for ws v
    using that split(4) others anchor_region_valid by fastforce
  have bv: "valid_block b" "valid_block c" using reg anchor_region_valid by simp_all
  obtain u1 where u1: "anchor_search (xs @ n # ys @ k # zs) INVALID_BLOCK INVALID_PAGE INVALID_BLOCK
      ?u0 = anchor_search (n # ys @ k # zs) INVALID_BLOCK INVALID_PAGE INVALID_BLOCK u1"
      "reads_only ?u0 u1"
    using search_blank [of ?u0 xs "n # ys @ k # zs" INVALID_BLOCK INVALID_PAGE INVALID_BLOCK] inv
      blank [of xs ?u0] by (auto simp del: anchor_search.simps)
  obtain m1 where m1: "u1 = ?u0\<lparr>mtd_of := m1\<rparr>" "mtd_inv m1" "table_log m1 = table_log (mtd_of u)"
      "quiet m1" using u1(2) inv(2) by (auto elim!: reads_onlyE)
  obtain u2 where u2: "anchor_probe b u1 = Some ((STATUS_SUCCESS, of_nat (length tsb - 1)),
      u2\<lparr>anchor_table := tb\<rparr>)" "reads_only u1 u2"
    using probe_table [of u1 b tsb] m1 logb bv blank_anchor_wf by (auto simp: tb_def)
  obtain m2 where m2: "u2 = u1\<lparr>mtd_of := m2\<rparr>" "mtd_inv m2" "table_log m2 = table_log (mtd_of u)"
      "quiet m2" using u2(2) m1 by (auto elim!: reads_onlyE)
  let ?u2 = "u2\<lparr>anchor_table := tb\<rparr>"
  let ?pb = "of_nat (length tsb - 1) :: u32"
  obtain u3 where u3: "anchor_search (ys @ k # zs) b ?pb (previous_anchor_block tb) ?u2 =
      anchor_search (k # zs) b ?pb (previous_anchor_block tb) u3" "reads_only ?u2 u3"
    using search_blank [of ?u2 ys "k # zs" b ?pb "previous_anchor_block tb"] m2
      blank [of ys ?u2] by (auto simp del: anchor_search.simps)
  obtain m3 where m3: "u3 = ?u2\<lparr>mtd_of := m3\<rparr>" "mtd_inv m3" "table_log m3 = table_log (mtd_of u)"
      "quiet m3" using u3(2) m2 by (auto elim!: reads_onlyE)
  have "length (last tsb) = MPP_SIZE"
    using table_log_length [OF inv(1) logb(1)] logb(2) by simp
  then have wf3: "anchor_wf (anchor_table u3)"
    unfolding m3(1) by (simp add: tb_def anchor_codec.wf_dec)
  obtain u4 where u4: "anchor_probe c u3 = Some ((STATUS_SUCCESS, of_nat (length tsc - 1)),
      u4\<lparr>anchor_table := tc\<rparr>)" "reads_only u3 u4"
    using probe_table [of u3 c tsc] m3 logc bv wf3 by (auto simp: tc_def)
  obtain m4 where m4: "u4 = u3\<lparr>mtd_of := m4\<rparr>" "mtd_inv m4" "table_log m4 = table_log (mtd_of u)"
      "quiet m4" using u4(2) m3 by (auto elim!: reads_onlyE)
  let ?u4 = "u4\<lparr>anchor_table := tc\<rparr>"
  have ov: "valid_block ?old" using bv by simp
  obtain u5 where u5: "on_mtd (MTD_Erase ?old) ?u4 = Some (STATUS_SUCCESS, u5)" "wiped ?old ?u4 u5"
    using erase_ubi [OF _ ov, of ?u4] m4(1,2) by auto
  then have el: "erase_or_log ?old ?u4 = Some (STATUS_SUCCESS, u5)" by (simp add: erase_or_log_def)
  obtain m5 where m5: "u5 = ?u4\<lparr>mtd_of := m5\<rparr>" "mtd_inv m5" "quiet m5" "page_wiped ?old m4 m5"
    using u5(2) m4(1,4) by (auto elim!: wipedE)
  have ne: "b \<noteq> INVALID_BLOCK" "c \<noteq> INVALID_BLOCK" "b \<noteq> c" using reg region_ne_INVALID by auto
  let ?new = "if first then b else c" and ?ts = "if first then tsb else tsc"
  have "anchor_search (k # zs) b ?pb (previous_anchor_block tb) u3 =
      Some ((?new, of_nat (length ?ts - 1)), u5)"
    using u4(1) el plr ne by (auto simp: first_def split(3) split: if_splits)
  then have s: "anchor_search [1, 2, 3, 4, 5, 6] INVALID_BLOCK INVALID_PAGE INVALID_BLOCK ?u0 =
      Some ((?new, of_nat (length ?ts - 1)), u5)"
    unfolding split(1) u1(1) using u2(1) u3(1) split(2) by simp
  have "ANCHOR_Init u = Some (if anchor_invalid (anchor_table u5) then STATUS_FAILURE
      else STATUS_SUCCESS, u5\<lparr>anchor_block := ?new, anchor_next_page := of_nat (length ?ts - 1) + 1\<rparr>)"
    by (rule Init_unfold [OF s]) (use ne in simp)
  moreover have "of_nat (length ?ts - 1) + 1 = (of_nat (length ?ts) :: u32)"
    using logb(2) logc(2) by (cases tsb; cases tsc) simp_all
  moreover have u5': "u5 = u\<lparr>mtd_of := m5, anchor_table := tc, index_table := blank_index\<rparr>"
    unfolding m5(1) m4(1) m3(1) m2(1) m1(1) blank_tables_def by simp
  moreover have "table_log m5 ?old []" by (rule wiped_log(1) [OF m5(4) ov])
  moreover have "table_log m5 ?new = table_log (mtd_of u) ?new"
    using wiped_log(2) [OF m5(4), of ?new] bv ne(3) m4(3) by (auto simp: fun_eq_iff)
  ultimately show ?thesis using m5(2,3) by (intro exI [of _ m5]) simp
qed

section \<open>The anchor as saved state\<close>

text \<open>
  \<open>anchor_saved\<close>: exactly one block of the region holds tables, it is the current one, and its last
  table is the table in memory.
\<close>

definition anchor_alone :: "ubi \<Rightarrow> bool" where
  "anchor_alone u \<longleftrightarrow> (\<forall>c \<in> set anchor_region - {anchor_block u}. table_log (mtd_of u) c [])"

definition anchor_saved :: "ubi \<Rightarrow> bool" where
  "anchor_saved u \<longleftrightarrow> anchor_alone u \<and>
     (\<exists>ts. anchor_state u ts \<and> ts \<noteq> [] \<and> last ts = anchor_bytes (anchor_table u))"

text \<open>There is somewhere to go when the current block is full.\<close>

definition anchor_room :: "ubi \<Rightarrow> bool" where
  "anchor_room u \<longleftrightarrow> (\<exists>b \<in> set anchor_region. b \<noteq> anchor_block u \<and> b \<notin> bad_blocks u)"

lemma bad_blocks_table:
  "bad_block_table (anchor_table u) = bad_block_table (anchor_table v) \<Longrightarrow> bad_blocks u = bad_blocks v"
  "bad_block_table (anchor_table u) = bad_block_table (anchor_table v) \<Longrightarrow> bad_wf u = bad_wf v"
  by (simp_all add: bad_blocks_def bad_wf_def)

text \<open>
  An update saves the table.  Blocks outside the region are not touched; in memory only the anchor
  part of the state changes, and in the table only \<open>previous_anchor_block\<close>.
\<close>

lemma Update_saved:
  assumes st: "anchor_state u ts" and alone: "anchor_alone u" and room: "anchor_room u"
  shows "\<exists>m' b n p. ANCHOR_Update u = Some (STATUS_SUCCESS, u\<lparr>mtd_of := m',
      anchor_table := (anchor_table u)\<lparr>previous_anchor_block := p\<rparr>, anchor_block := b, anchor_next_page := n\<rparr>) \<and>
    anchor_saved (u\<lparr>mtd_of := m',
      anchor_table := (anchor_table u)\<lparr>previous_anchor_block := p\<rparr>, anchor_block := b, anchor_next_page := n\<rparr>) \<and>
    (\<forall>c ts'. valid_block c \<longrightarrow> c \<notin> set anchor_region \<longrightarrow> table_log m' c ts' = table_log (mtd_of u) c ts')"
proof (cases "length ts < PAGE_PER_PHY_BLOCK")
  case True
  obtain m' where m': "ANCHOR_Update u = Some (STATUS_SUCCESS,
        u\<lparr>mtd_of := m', anchor_next_page := anchor_next_page u + 1\<rparr>)" "mtd_inv m'" "quiet m'"
      "table_log m' (anchor_block u) (ts @ [anchor_bytes (anchor_table u)])"
      "\<forall>b ts'. valid_block b \<longrightarrow> b \<noteq> anchor_block u \<longrightarrow> table_log m' b ts' = table_log (mtd_of u) b ts'"
    using Update_append [OF st True] by blast
  let ?u = "u\<lparr>mtd_of := m', anchor_next_page := anchor_next_page u + 1\<rparr>"
  have "bad_wf ?u" using st bad_blocks_table(2) [of ?u u] by (simp add: anchor_state_def)
  then have "anchor_state ?u (ts @ [anchor_bytes (anchor_table u)])"
    using st m' by (simp add: anchor_state_def)
  moreover have "anchor_alone ?u"
    using alone m'(5) anchor_region_valid by (simp add: anchor_alone_def)
  ultimately have "anchor_saved ?u" unfolding anchor_saved_def by fastforce
  moreover have "?u = u\<lparr>mtd_of := m', anchor_table := (anchor_table u)\<lparr>previous_anchor_block :=
      previous_anchor_block (anchor_table u)\<rparr>, anchor_block := anchor_block u,
      anchor_next_page := anchor_next_page u + 1\<rparr>" by simp
  moreover have "anchor_block u \<in> set anchor_region" using st by (simp add: anchor_state_def)
  ultimately show ?thesis using m'(1,5) by metis
next
  case False
  have "length ts \<le> PAGE_PER_PHY_BLOCK" using st by (simp add: anchor_state_def table_log_def)
  then have full: "length ts = PAGE_PER_PHY_BLOCK" using False by simp
  let ?t = "(anchor_table u)\<lparr>previous_anchor_block := anchor_block u\<rparr>"
  obtain b m' where m': "ANCHOR_Update u = Some (STATUS_SUCCESS,
      u\<lparr>mtd_of := m', anchor_table := ?t, anchor_block := b, anchor_next_page := 1\<rparr>)"
      "b \<in> set anchor_region" "b \<noteq> anchor_block u" "b \<notin> bad_blocks u" "mtd_inv m'" "quiet m'"
      "table_log m' b [anchor_bytes ?t]" "table_log m' (anchor_block u) []"
      "\<forall>c ts'. valid_block c \<longrightarrow> c \<noteq> b \<longrightarrow> c \<noteq> anchor_block u \<longrightarrow>
         table_log m' c ts' = table_log (mtd_of u) c ts'"
    using Update_reclaim [OF st full] room unfolding anchor_room_def by blast
  let ?u = "u\<lparr>mtd_of := m', anchor_table := ?t, anchor_block := b, anchor_next_page := 1\<rparr>"
  have "bad_wf ?u" using st bad_blocks_table(2) [of ?u u] by (simp add: anchor_state_def)
  then have "anchor_state ?u [anchor_bytes ?t]"
    using st m' by (simp add: anchor_state_def anchor_wf_def)
  moreover have "anchor_alone ?u"
    using alone m'(8,9) anchor_region_valid by (auto simp: anchor_alone_def)
  ultimately have "anchor_saved ?u" unfolding anchor_saved_def by fastforce
  moreover have "anchor_block u \<in> set anchor_region" using st by (simp add: anchor_state_def)
  ultimately show ?thesis using m'(1,2,9) by metis
qed

text \<open>Starting on a device with a saved anchor restores it, whatever is in memory.\<close>

lemma Init_saved:
  assumes saved: "anchor_saved u" and same: "mtd_of v = mtd_of u"
  shows "\<exists>m'. ANCHOR_Init v = Some (if anchor_invalid (anchor_table u) then STATUS_FAILURE
      else STATUS_SUCCESS, v\<lparr>mtd_of := m', anchor_table := anchor_table u, index_table := blank_index,
        anchor_block := anchor_block u, anchor_next_page := anchor_next_page u\<rparr>) \<and>
    mtd_inv m' \<and> quiet m' \<and> table_log m' = table_log (mtd_of u)"
proof -
  obtain ts where ts: "anchor_state u ts" "ts \<noteq> []" "last ts = anchor_bytes (anchor_table u)"
    using saved by (auto simp: anchor_saved_def)
  have t: "anchor_of_bytes (last ts) = anchor_table u"
    using ts(1,3) anchor_codec.dec_enc by (simp add: anchor_state_def)
  have "\<forall>c \<in> set anchor_region - {anchor_block u}. table_log (mtd_of v) c []"
    using saved same by (simp add: anchor_saved_def anchor_alone_def)
  from Init_one [of v "anchor_block u" ts, OF _ _ _ ts(2) this]
  show ?thesis using ts(1) same t by (auto simp: anchor_state_def split del: if_split)
qed

end
