(* ===== verification/Ubi_Index.thy ===== *)
theory Ubi_Index
  imports Ubi_Anchor
begin

text \<open>
  The free-block table of core/ubi/ubi_index.c: the free blocks with their erase counts, sorted by
  erase count, padded with \<open>INVALID_BLOCK\<close> / \<open>INVALID_EC\<close>.
\<close>

section \<open>Entries\<close>

definition get_entry :: "nat \<Rightarrow> INDEX_TABLE \<Rightarrow> (u32 \<times> u32) option" where
  "get_entry i t = do {
     b \<leftarrow> rd (free_block_table t) i;
     e \<leftarrow> rd (free_block_ect t) i;
     Some (b, e) }"

definition set_entry :: "nat \<Rightarrow> u32 \<times> u32 \<Rightarrow> INDEX_TABLE \<Rightarrow> INDEX_TABLE option" where
  "set_entry i be t = do {
     bs \<leftarrow> wr (free_block_table t) i (fst be);
     es \<leftarrow> wr (free_block_ect t) i (snd be);
     Some (t\<lparr>free_block_table := bs, free_block_ect := es\<rparr>) }"

definition copy_entry :: "nat \<Rightarrow> nat \<Rightarrow> INDEX_TABLE \<Rightarrow> INDEX_TABLE option" where
  "copy_entry from to t = do { be \<leftarrow> get_entry from t; set_entry to be t }"

section \<open>Putting a block back\<close>

text \<open>The downward scan; the result is the loop variable when the loop ends.\<close>

fun put_scan :: "nat \<Rightarrow> u32 \<Rightarrow> INDEX_TABLE \<Rightarrow> (nat \<times> INDEX_TABLE) option" where
  "put_scan 0 ec t = Some (0, t)"
| "put_scan (Suc i) ec t = do {
     e \<leftarrow> rd (free_block_ect t) (Suc i);
     if e > ec then do { t \<leftarrow> copy_entry (Suc i) (Suc i + 1) t; put_scan i ec t }
     else Some (Suc i, t) }"

definition INDEX_FreeBlock_Put :: "u32 \<Rightarrow> u32 \<Rightarrow> INDEX_TABLE \<Rightarrow> INDEX_TABLE option" where
  "INDEX_FreeBlock_Put dirty_block dirty_block_ec t = do {
     (i, t) \<leftarrow> put_scan (FREE_BLOCK_COUNT - 2) dirty_block_ec t;
     if i > 0 then set_entry (i + 1) (dirty_block, dirty_block_ec) t
     else do {
       e \<leftarrow> rd (free_block_ect t) 0;
       if e > dirty_block_ec then do {
         t \<leftarrow> copy_entry 0 1 t;
         set_entry 0 (dirty_block, dirty_block_ec) t }
       else set_entry 1 (dirty_block, dirty_block_ec) t } }"

section \<open>Taking a block\<close>

text \<open>
  The search for the first block on the die; \<open>FREE_BLOCK_COUNT\<close> stands for none, as in the code.
\<close>

fun find_die :: "nat list \<Rightarrow> u32 \<Rightarrow> u32 list \<Rightarrow> nat option" where
  "find_die [] die tbl = Some FREE_BLOCK_COUNT"
| "find_die (i # is) die tbl = do {
     e \<leftarrow> rd tbl i;
     if e = INVALID_BLOCK then Some FREE_BLOCK_COUNT
     else if e mod TOTAL_DIE_COUNT = die then Some i
     else find_die is die tbl }"

text \<open>Discard entry \<open>i\<close>: all later entries move forward and the last one becomes invalid.\<close>

definition drop_entry :: "nat \<Rightarrow> INDEX_TABLE \<Rightarrow> INDEX_TABLE option" where
  "drop_entry i t = do {
     t \<leftarrow> foldM (\<lambda>j t. copy_entry (j + 1) j t) [i..<FREE_BLOCK_COUNT - 1] t;
     ASSERT (i \<le> FREE_BLOCK_COUNT - 1);
     set_entry (FREE_BLOCK_COUNT - 1) (INVALID_BLOCK, INVALID_EC) t }"

partial_function (option) free_get_loop ::
  "u32 \<Rightarrow> u32 \<Rightarrow> ubi \<Rightarrow> ((STATUS \<times> u32 \<times> u32) \<times> ubi) option" where
  "free_get_loop die ec u = do {
     i \<leftarrow> find_die [0..<FREE_BLOCK_COUNT] die (free_block_table (index_table u));
     let i = (if i = FREE_BLOCK_COUNT then 0 else i);
     (block, block_ec) \<leftarrow> get_entry i (index_table u);
     (ret, u) \<leftarrow> (if block \<noteq> INVALID_BLOCK
                 then do { ASSERT (i < FREE_BLOCK_COUNT); on_mtd (MTD_Erase block) u }
                 else Some (STATUS_TOOMANY_BADBLOCK, u));
     u \<leftarrow> (if ret \<noteq> STATUS_SUCCESS then ANCHOR_LogBadBlock block u else Some u);
     let ec = (if ret = STATUS_SUCCESS then block_ec + 1 else ec);
     u \<leftarrow> (if ret \<noteq> STATUS_TOOMANY_BADBLOCK then do {
            t \<leftarrow> drop_entry i (index_table u);
            Some (u\<lparr>index_table := t\<rparr>) }
          else Some u);
     if ret \<noteq> STATUS_SUCCESS \<and> ret \<noteq> STATUS_TOOMANY_BADBLOCK \<and> ret \<noteq> STATUS_SimulatedPowerLoss
     then free_get_loop die ec u
     else Some ((ret, block, ec), u) }"

text \<open>\<open>ec\<close> is the content of \<open>*ec\<close> before the call; it changes only on success.\<close>

definition INDEX_FreeBlock_Get :: "u32 \<Rightarrow> u32 \<Rightarrow> ubi \<Rightarrow> ((STATUS \<times> u32 \<times> u32) \<times> ubi) option" where
  "INDEX_FreeBlock_Get die ec u = free_get_loop (die mod TOTAL_DIE_COUNT) ec u"

section \<open>Static wear levelling\<close>

text \<open>The downward scan for the last valid entry; it ends at index 0 without examining it.\<close>

fun last_valid :: "nat \<Rightarrow> u32 list \<Rightarrow> nat option" where
  "last_valid 0 ect = Some 0"
| "last_valid (Suc i) ect = do {
     e \<leftarrow> rd ect (Suc i);
     if e \<noteq> INVALID_EC then Some (Suc i) else last_valid i ect }"

text \<open>\<open>out\<close> is the content of the two output variables before the call.\<close>

definition INDEX_FreeBlock_GetMaxECBlock :: "u32 \<times> u32 \<Rightarrow> INDEX_TABLE \<Rightarrow> (u32 \<times> u32) option" where
  "INDEX_FreeBlock_GetMaxECBlock out t = do {
     i \<leftarrow> last_valid (FREE_BLOCK_COUNT - 1) (free_block_ect t);
     if i > 0 then get_entry i t else Some out }"

text \<open>The second scan of the swap; \<open>i\<close> is the loop variable when the loop ends.\<close>

fun swap_scan :: "nat \<Rightarrow> u32 \<times> u32 \<Rightarrow> INDEX_TABLE \<Rightarrow> (nat \<times> INDEX_TABLE) option" where
  "swap_scan 0 mn t = Some (0, t)"
| "swap_scan (Suc i) mn t = do {
     e \<leftarrow> rd (free_block_ect t) (Suc i);
     if e > snd mn then do { t \<leftarrow> copy_entry (Suc i) (Suc i + 1) t; swap_scan i mn t }
     else do { t \<leftarrow> set_entry (Suc i + 1) mn t; Some (Suc i, t) } }"

text \<open>
  With the last valid entry at index 0 the C loop starts at the index \<open>0 - 1\<close>, an access far
  outside the table.
\<close>

definition INDEX_FreeBlock_SwapMaxECBlock :: "u32 \<Rightarrow> u32 \<Rightarrow> INDEX_TABLE \<Rightarrow> INDEX_TABLE option" where
  "INDEX_FreeBlock_SwapMaxECBlock min_ec_block min_ec t = do {
     i \<leftarrow> last_valid (FREE_BLOCK_COUNT - 1) (free_block_ect t);
     e \<leftarrow> rd (free_block_ect t) i;
     if e \<noteq> INVALID_EC \<and> e > min_ec \<and> e - min_ec > STATIC_WL_THRESHOLD then do {
       (i, t) \<leftarrow> (if i = 0 then None else swap_scan (i - 1) (min_ec_block, min_ec) t);
       if i = 0 then do {
         e0 \<leftarrow> rd (free_block_ect t) 0;
         if e0 > min_ec then do {
           t \<leftarrow> copy_entry 0 1 t;
           set_entry 0 (min_ec_block, min_ec) t }
         else set_entry 1 (min_ec_block, min_ec) t }
       else Some t }
     else Some t }"

section \<open>Changes of the index in memory\<close>

definition INDEX_Update_AreaReclaim :: "u32 \<Rightarrow> u32 \<Rightarrow> u32 \<Rightarrow> INDEX_TABLE \<Rightarrow> INDEX_TABLE option" where
  "INDEX_Update_AreaReclaim area new_block nec t = do {
     old_block \<leftarrow> rd (area_index_table t) (unat area);
     old_ec \<leftarrow> rd (area_index_ect t) (unat area);
     t \<leftarrow> INDEX_FreeBlock_Put old_block old_ec t;
     bs \<leftarrow> wr (area_index_table t) (unat area) new_block;
     es \<leftarrow> wr (area_index_ect t) (unat area) nec;
     Some (t\<lparr>area_index_table := bs, area_index_ect := es\<rparr>) }"

definition INDEX_Update_AreaUpdate :: "u32 \<Rightarrow> u32 \<Rightarrow> u32 \<Rightarrow> ubi \<Rightarrow> ubi option" where
  "INDEX_Update_AreaUpdate logical_block phys_block block_ec u = do {
     ASSERT (phys_block \<noteq> INVALID_BLOCK \<and> block_ec \<noteq> INVALID_EC);
     Some (u\<lparr>index_table := (index_table u)\<lparr>area_update_plr :=
         \<lparr>area_updating_logical_block = logical_block, area_updating_physical_block = phys_block,
          area_updating_block_ec = block_ec\<rparr>\<rparr>,
       is_updating_area := True\<rparr>) }"

definition on_index :: "(INDEX_TABLE \<Rightarrow> INDEX_TABLE option) \<Rightarrow> ubi \<Rightarrow> ubi option" where
  "on_index f u = do { t \<leftarrow> f (index_table u); Some (u\<lparr>index_table := t\<rparr>) }"

end
