(* ===== verification/Free_Blocks.thy ===== *)
theory Free_Blocks
  imports Anchor_Safety Ubi_Index "HOL-Library.Multiset"
begin

text \<open>
  The free-block table as a list of entries \<open>(block, erase count)\<close> sorted by erase count: putting a
  block back is a sorted insertion, taking one removes the first entry on the wanted die, and the
  exchange of static wear levelling replaces the most worn entry.
\<close>

section \<open>The table as a list of entries\<close>

definition entries :: "INDEX_TABLE \<Rightarrow> (u32 \<times> u32) list" where
  "entries t = zip (free_block_table t) (free_block_ect t)"

definition with_entries :: "(u32 \<times> u32) list \<Rightarrow> INDEX_TABLE \<Rightarrow> INDEX_TABLE" where
  "with_entries es t = t\<lparr>free_block_table := map fst es, free_block_ect := map snd es\<rparr>"

definition free_sorted :: "INDEX_TABLE \<Rightarrow> bool" where
  "free_sorted t \<longleftrightarrow> index_wf t \<and> sorted (free_block_ect t)"

lemma with_entries_entries: "index_wf t \<Longrightarrow> with_entries (entries t) t = t"
  by (simp add: with_entries_def entries_def index_wf_def)

lemma entries_with [simp]: "entries (with_entries es t) = es"
  by (simp add: entries_def with_entries_def zip_map_fst_snd)

lemma length_entries: "index_wf t \<Longrightarrow> length (entries t) = FREE_BLOCK_COUNT"
  by (simp add: entries_def index_wf_def)

lemma index_wf_with: "index_wf t \<Longrightarrow> length es = FREE_BLOCK_COUNT \<Longrightarrow> index_wf (with_entries es t)"
  by (simp add: index_wf_def with_entries_def)

lemma ect_entries: "index_wf t \<Longrightarrow> free_block_ect t = map snd (entries t)"
  by (simp add: entries_def index_wf_def)

lemma with_fields [simp]:
  "free_block_ect (with_entries es t) = map snd es" "free_block_table (with_entries es t) = map fst es"
  by (simp_all add: with_entries_def)

lemma get_with [simp]: "get_entry i (with_entries es t) = rd es i"
  by (simp add: get_entry_def rd_def)

lemma set_with [simp]: "set_entry i be (with_entries es t) =
    (if i < length es then Some (with_entries (es[i := be]) t) else None)"
  by (simp add: set_entry_def wr_def map_update with_entries_def)

lemma copy_with [simp]: "copy_entry i j (with_entries es t) =
    (if i < length es \<and> j < length es then Some (with_entries (es[j := es ! i]) t) else None)"
  by (simp add: copy_entry_def rd_def)

lemma rd_ect [simp]: "rd (map snd es) i = map_option snd (rd es i)"
  by (simp add: rd_def)

section \<open>Sorted insertion\<close>

text \<open>The entry goes behind all entries that are not more worn.\<close>

definition insert_entry :: "u32 \<times> u32 \<Rightarrow> (u32 \<times> u32) list \<Rightarrow> (u32 \<times> u32) list" where
  "insert_entry be es = takeWhile (\<lambda>x. snd x \<le> snd be) es @ be # dropWhile (\<lambda>x. snd x \<le> snd be) es"

lemma mset_insert_entry: "mset (insert_entry be es) = add_mset be (mset es)"
proof -
  let ?P = "\<lambda>x. snd x \<le> snd be"
  have "mset (takeWhile ?P es) + mset (dropWhile ?P es) = mset es"
    by (simp flip: mset_append)
  then show ?thesis by (simp add: insert_entry_def)
qed

lemma sorted_insert_entry:
  assumes "sorted (map snd es)"
  shows "sorted (map snd (insert_entry be es))"
proof -
  let ?P = "\<lambda>x. snd x \<le> snd be"
  have split: "sorted (map snd (takeWhile ?P es) @ map snd (dropWhile ?P es))"
    using assms by (simp flip: map_append)
  have low: "\<forall>x \<in> set (takeWhile ?P es). snd x \<le> snd be" by (auto dest: set_takeWhileD)
  have high: "snd be \<le> snd x" if x: "x \<in> set (dropWhile ?P es)" for x
  proof -
    obtain y ys where y: "dropWhile ?P es = y # ys" using x by (metis list.exhaust list.set_cases)
    then have "\<not> snd y \<le> snd be" using hd_dropWhile [of ?P es] by simp
    moreover have "snd y \<le> snd x" using split x unfolding y by (auto simp: sorted_append)
    ultimately show ?thesis by simp
  qed
  obtain A B where AB: "A = takeWhile ?P es" "B = dropWhile ?P es" by blast
  note facts = split low high [folded AB(2)]
  show ?thesis
    using facts unfolding insert_entry_def AB [symmetric]
    by (auto simp: sorted_append)
qed

text \<open>Where the insertion point of a sorted list is.\<close>

lemma insert_entry_at:
  assumes "k \<le> length es" "\<forall>i < k. snd (es ! i) \<le> snd be" "k < length es \<longrightarrow> \<not> snd (es ! k) \<le> snd be"
  shows "insert_entry be es = take k es @ be # drop k es"
proof -
  let ?P = "\<lambda>x. snd x \<le> snd be"
  have "takeWhile ?P es = take k es"
    by (rule takeWhile_eq_take_P_nth) (use assms in auto)
  moreover have "dropWhile ?P es = drop k es"
    using calculation by (metis append_eq_append_conv append_take_drop_id takeWhile_dropWhile_id)
  ultimately show ?thesis by (simp add: insert_entry_def)
qed

text \<open>The list with the entries \<open>j + 1 .. i\<close> moved one place up.\<close>

definition shifted :: "nat \<Rightarrow> nat \<Rightarrow> (u32 \<times> u32) list \<Rightarrow> (u32 \<times> u32) list \<Rightarrow> bool" where
  "shifted j i es es' \<longleftrightarrow> length es' = length es \<and>
     (\<forall>k < length es. es' ! k = (if j + 2 \<le> k \<and> k \<le> i + 1 then es ! (k - 1) else es ! k))"

lemma put_scan_spec:
  assumes "i + 1 < length es"
  shows "\<exists>j es'. put_scan i e (with_entries es t) = Some (j, with_entries es' t) \<and> j \<le> i \<and>
    shifted j i es es' \<and> (\<forall>k. j < k \<and> k \<le> i \<longrightarrow> snd (es ! k) > e) \<and> (j > 0 \<longrightarrow> snd (es ! j) \<le> e)"
  using assms
proof (induction i arbitrary: es)
  case 0
  then show ?case by (auto simp: shifted_def)
next
  case (Suc i)
  show ?case
  proof (cases "snd (es ! Suc i) > e")
    case False
    then show ?thesis
      using Suc.prems by (intro exI [of _ "Suc i"] exI [of _ es]) (auto simp: rd_in shifted_def)
  next
    case True
    let ?es = "es[Suc i + 1 := es ! Suc i]"
    obtain j es' where IH: "put_scan i e (with_entries ?es t) = Some (j, with_entries es' t)"
        "j \<le> i" "shifted j i ?es es'" "\<forall>k. j < k \<and> k \<le> i \<longrightarrow> snd (?es ! k) > e"
        "j > 0 \<longrightarrow> snd (?es ! j) \<le> e"
      using Suc.IH [of ?es] Suc.prems by auto
    have "put_scan (Suc i) e (with_entries es t) = Some (j, with_entries es' t)"
      using True Suc.prems IH(1) by (simp add: rd_in)
    moreover have "shifted j (Suc i) es es'"
      using IH(2,3) Suc.prems by (auto simp: shifted_def nth_list_update le_Suc_eq)
    moreover have "\<forall>k. j < k \<and> k \<le> Suc i \<longrightarrow> snd (es ! k) > e"
      using IH(4) True Suc.prems by (auto simp: le_Suc_eq)
    moreover have "j > 0 \<longrightarrow> snd (es ! j) \<le> e" using IH(2,5) Suc.prems by simp
    ultimately show ?thesis using IH(2) by (intro exI [of _ j] exI [of _ es']) simp
  qed
qed

text \<open>A shift followed by a store in the gap is an insertion; the last entry of the window is lost.\<close>

lemma shifted_insert:
  assumes "shifted j i es es'" "j \<le> i" "i + 1 < length es"
  shows "es'[j + 1 := be] = take (j + 1) es @ be # drop (j + 1) (take (i + 1) es) @ drop (i + 2) es"
    (is "?l = ?r")
proof (rule nth_equalityI)
  show "length ?l = length ?r" using assms by (simp add: shifted_def)
next
  fix k assume "k < length ?l"
  then have k: "k < length es" using assms(1) by (simp add: shifted_def)
  have "k \<le> j \<or> k = j + 1 \<or> (j + 2 \<le> k \<and> k \<le> i + 1) \<or> i + 2 \<le> k" by linarith
  then consider "k \<le> j" | "k = j + 1" | d where "k = j + 2 + d" "k \<le> i + 1" | d where "k = i + 2 + d"
    by (blast dest: le_Suc_ex)
  then show "?l ! k = ?r ! k"
    using assms k by cases (auto simp: shifted_def nth_append nth_Cons' min_def)
qed

lemma shifted_front:
  assumes "shifted 0 i es es'" "i + 1 < length es"
  shows "es'[1 := es' ! 0, 0 := be] = be # take (i + 1) es @ drop (i + 2) es" (is "?l = ?r")
proof (rule nth_equalityI)
  show "length ?l = length ?r" using assms by (simp add: shifted_def)
next
  fix k assume "k < length ?l"
  then have k: "k < length es" using assms(1) by (simp add: shifted_def)
  have "0 < length es" using k by (cases es) simp_all
  then have e0: "es' ! 0 = es ! 0" using assms(1) unfolding shifted_def by simp
  have "k = 0 \<or> k = 1 \<or> (2 \<le> k \<and> k \<le> i + 1) \<or> i + 2 \<le> k" by linarith
  then consider "k = 0" | "k = 1" | d where "k = 2 + d" "k \<le> i + 1" | d where "k = i + 2 + d"
    by (blast dest: le_Suc_ex)
  then show "?l ! k = ?r ! k"
    using assms k e0 by cases (auto simp: shifted_def nth_append nth_Cons' min_def)
qed

section \<open>Putting a block back\<close>

text \<open>
  The scan from index \<open>i\<close> and the store inserts into the first \<open>i + 1\<close> entries; the entry behind
  them is lost.
\<close>

definition put_at :: "nat \<Rightarrow> u32 \<times> u32 \<Rightarrow> INDEX_TABLE \<Rightarrow> INDEX_TABLE option" where
  "put_at i be t = do {
     (j, t) \<leftarrow> put_scan i (snd be) t;
     if j > 0 then set_entry (j + 1) be t
     else do {
       e \<leftarrow> rd (free_block_ect t) 0;
       if e > snd be then do { t \<leftarrow> copy_entry 0 1 t; set_entry 0 be t }
       else set_entry 1 be t } }"

lemma Put_put_at: "INDEX_FreeBlock_Put b e t = put_at (FREE_BLOCK_COUNT - 2) (b, e) t"
  by (simp add: INDEX_FreeBlock_Put_def put_at_def cong: if_cong)

lemma put_at_entries:
  assumes n: "i + 1 < length es" and sorted: "sorted (map snd (take (i + 1) es))"
  shows "put_at i be (with_entries es t) =
    Some (with_entries (insert_entry be (take (i + 1) es) @ drop (i + 2) es) t)"
proof -
  let ?w = "take (i + 1) es"
  obtain j es' where sc: "put_scan i (snd be) (with_entries es t) = Some (j, with_entries es' t)" "j \<le> i"
      "shifted j i es es'" "\<forall>k. j < k \<and> k \<le> i \<longrightarrow> snd (es ! k) > snd be"
      "j > 0 \<longrightarrow> snd (es ! j) \<le> snd be"
    using put_scan_spec [OF n] by blast
  have len': "length es' = length es" using sc(3) by (simp add: shifted_def)
  have ne: "es \<noteq> []" using n by auto
  have mono: "snd (es ! k) \<le> snd (es ! l)" if "k \<le> l" "l \<le> i" for k l
    using sorted_nth_mono [OF sorted that(1)] that n by simp
  have ins: "insert_entry be ?w = take (j + 1) es @ be # drop (j + 1) ?w"
    if "snd (es ! j) \<le> snd be"
  proof -
    have "insert_entry be ?w = take (j + 1) ?w @ be # drop (j + 1) ?w"
      by (rule insert_entry_at)
        (use sc(2,4) n that mono in \<open>auto intro: order_trans [OF mono that] simp: not_le less_Suc_eq_le\<close>)
    then show ?thesis using sc(2) by (simp add: min_def)
  qed
  have set1: "es'[j + 1 := be] = take (j + 1) es @ be # drop (j + 1) ?w @ drop (i + 2) es"
    using shifted_insert [OF sc(3,2) n, of be] .
  have e0: "rd es' 0 = Some (es ! 0)" if "j = 0"
  proof -
    have "0 < length es" using n by linarith
    then have "es' ! 0 = es ! 0" using sc(3) that unfolding shifted_def by simp
    then show ?thesis using len' \<open>0 < length es\<close> by (simp add: rd_def)
  qed
  consider "j > 0" | "j = 0" "snd (es ! 0) \<le> snd be" | "j = 0" "snd (es ! 0) > snd be" by force
  then show ?thesis
  proof cases
    case 1
    then show ?thesis
      using sc(1,2,5) set1 ins len' n by (simp add: put_at_def)
  next
    case 2
    then show ?thesis
      using sc(1) set1 ins len' e0 n ne by (simp add: put_at_def)
  next
    case 3
    have "insert_entry be ?w = take 0 ?w @ be # drop 0 ?w"
      by (rule insert_entry_at) (use 3 n in auto)
    moreover have "es'[1 := es' ! 0, 0 := be] = be # ?w @ drop (i + 2) es"
      using shifted_front [of i es es' be] sc(3) 3(1) n by simp
    ultimately show ?thesis
      using sc(1) len' e0 3 n ne by (simp add: put_at_def)
  qed
qed

lemma sorted_take: "sorted (map snd es) \<Longrightarrow> sorted (map snd (take k es))"
  by (metis append_take_drop_id map_append sorted_append)

lemma Put_entries:
  assumes "length es = FREE_BLOCK_COUNT" "sorted (map snd es)"
  shows "INDEX_FreeBlock_Put b e (with_entries es t) =
    Some (with_entries (insert_entry (b, e) (butlast es)) t)"
proof -
  have n: "length es = 509" using assms(1) by (simp add: cfg)
  have "put_at 507 (b, e) (with_entries es t) =
      Some (with_entries (insert_entry (b, e) (take (507 + 1) es) @ drop (507 + 2) es) t)"
    by (rule put_at_entries) (use n sorted_take [OF assms(2)] in simp_all)
  then show ?thesis using n by (simp add: Put_put_at cfg butlast_conv_take)
qed

text \<open>The table stays sorted, the last entry is lost, everything else is kept.\<close>

lemma Put_spec:
  assumes "free_sorted t"
  shows "\<exists>t'. INDEX_FreeBlock_Put b e t = Some t' \<and> free_sorted t' \<and>
    entries t' = insert_entry (b, e) (butlast (entries t)) \<and> t' = with_entries (entries t') t \<and>
    mset (entries t') = add_mset (b, e) (mset (butlast (entries t)))"
proof -
  have wf: "index_wf t" using assms by (simp add: free_sorted_def)
  have so: "sorted (map snd (entries t))"
    using assms by (simp add: free_sorted_def flip: ect_entries [OF wf])
  let ?es = "insert_entry (b, e) (butlast (entries t))"
  have "INDEX_FreeBlock_Put b e t = Some (with_entries ?es t)"
    using Put_entries [OF length_entries [OF wf] so, of b e t] with_entries_entries [OF wf] by simp
  moreover have "length ?es = FREE_BLOCK_COUNT"
  proof -
    have "size (mset ?es) = FREE_BLOCK_COUNT"
      unfolding mset_insert_entry using length_entries [OF wf] by (simp add: cfg)
    then show ?thesis by simp
  qed
  moreover have "sorted (map snd ?es)"
  proof (rule sorted_insert_entry)
    have "map snd (entries t) = map snd (butlast (entries t)) @ [snd (last (entries t))]"
      using length_entries [OF wf]
      by (cases "entries t" rule: rev_cases) (simp_all add: cfg)
    then show "sorted (map snd (butlast (entries t)))" using so by (simp add: sorted_append)
  qed
  ultimately show ?thesis
    using wf mset_insert_entry by (auto simp: free_sorted_def index_wf_with)
qed

section \<open>Taking a block\<close>

text \<open>The entry that is taken: the first on the die before the padding, or the head.\<close>

definition free_pick :: "u32 \<Rightarrow> (u32 \<times> u32) list \<Rightarrow> nat" where
  "free_pick die es =
     (let n = length (takeWhile (\<lambda>x. fst x \<noteq> INVALID_BLOCK \<and> fst x mod TOTAL_DIE_COUNT \<noteq> die) es) in
      if n < length es \<and> fst (es ! n) \<noteq> INVALID_BLOCK then n else 0)"

definition remove_entry :: "nat \<Rightarrow> (u32 \<times> u32) list \<Rightarrow> (u32 \<times> u32) list" where
  "remove_entry i es = take i es @ drop (Suc i) es @ [(INVALID_BLOCK, INVALID_EC)]"

lemma find_die_spec:
  assumes "length es = FREE_BLOCK_COUNT" "i \<le> length es"
  shows "find_die [i..<FREE_BLOCK_COUNT] die (map fst es) =
    Some (let n = i + length (takeWhile (\<lambda>x. fst x \<noteq> INVALID_BLOCK \<and>
        fst x mod TOTAL_DIE_COUNT \<noteq> die) (drop i es)) in
      if n < length es \<and> fst (es ! n) \<noteq> INVALID_BLOCK then n else FREE_BLOCK_COUNT)"
  using assms(2)
proof (induction "length es - i" arbitrary: i)
  case 0
  then show ?case using assms(1) by simp
next
  case (Suc n)
  then have i: "i < length es" "i < FREE_BLOCK_COUNT" using assms(1) by simp_all
  have d: "drop i es = es ! i # drop (Suc i) es" using i by (simp add: Cons_nth_drop_Suc)
  have r: "rd (map fst es) i = Some (fst (es ! i))" using i by (simp add: rd_in)
  have IH: "find_die [Suc i..<FREE_BLOCK_COUNT] die (map fst es) =
    Some (let n = Suc i + length (takeWhile (\<lambda>x. fst x \<noteq> INVALID_BLOCK \<and>
        fst x mod TOTAL_DIE_COUNT \<noteq> die) (drop (Suc i) es)) in
      if n < length es \<and> fst (es ! n) \<noteq> INVALID_BLOCK then n else FREE_BLOCK_COUNT)"
    by (rule Suc.hyps(1)) (use Suc.hyps(2) i in auto)
  show ?case
    unfolding upt_conv_Cons [OF i(2)] find_die.simps r d bind.bind_lunit
    using i IH by (auto simp: Let_def)
qed

lemma find_die_pick:
  assumes "length es = FREE_BLOCK_COUNT"
  shows "\<exists>k. find_die [0..<FREE_BLOCK_COUNT] die (map fst es) = Some k \<and>
    (if k = FREE_BLOCK_COUNT then 0 else k) = free_pick die es \<and> free_pick die es < FREE_BLOCK_COUNT"
  using find_die_spec [OF assms, of 0 die] assms by (auto simp: free_pick_def Let_def cfg)

lemma drop_entry_with:
  assumes "length es = FREE_BLOCK_COUNT" "i < FREE_BLOCK_COUNT"
  shows "drop_entry i (with_entries es t) = Some (with_entries (remove_entry i es) t)"
proof -
  have n: "length es = 509" "i \<le> 508" using assms by (simp_all add: cfg)
  let ?I = "\<lambda>j u. \<exists>es'. u = with_entries es' t \<and> length es' = 509 \<and>
    (\<forall>k < 509. es' ! k = (if i \<le> k \<and> k < j then es ! (k + 1) else es ! k))"
  have "\<exists>u. foldM (\<lambda>j t. copy_entry (j + 1) j t) [i..<508] (with_entries es t) = Some u \<and> ?I 508 u"
  proof (rule foldM_upt_invariant)
    show "?I i (with_entries es t)" using n by (intro exI [of _ es]) auto
  next
    fix j u assume j: "i \<le> j" "j < 508" and I: "?I j u"
    then obtain es' where es': "u = with_entries es' t" "length es' = 509"
        "\<forall>k < 509. es' ! k = (if i \<le> k \<and> k < j then es ! (k + 1) else es ! k)" by blast
    have "copy_entry (j + 1) j u = Some (with_entries (es'[j := es' ! (j + 1)]) t)"
      using es' j by simp
    moreover have "?I (Suc j) (with_entries (es'[j := es' ! (j + 1)]) t)"
      using es'(2,3) j by (intro exI [of _ "es'[j := es' ! (j + 1)]"]) (auto simp: nth_list_update less_Suc_eq)
    ultimately show "\<exists>u'. copy_entry (j + 1) j u = Some u' \<and> ?I (Suc j) u'" by blast
  qed (use n in simp)
  then obtain es' where es': "foldM (\<lambda>j t. copy_entry (j + 1) j t) [i..<508] (with_entries es t) =
      Some (with_entries es' t)" "length es' = 509"
      "\<forall>k < 509. es' ! k = (if i \<le> k \<and> k < 508 then es ! (k + 1) else es ! k)" by blast
  have "es'[508 := (INVALID_BLOCK, INVALID_EC)] = remove_entry i es"
  proof (rule nth_equalityI)
    show "length (es'[508 := (INVALID_BLOCK, INVALID_EC)]) = length (remove_entry i es)"
      using n es'(2) by (simp add: remove_entry_def)
  next
    fix k assume "k < length (es'[508 := (INVALID_BLOCK, INVALID_EC)])"
    then have k: "k < 509" using es'(2) by simp
    then show "es'[508 := (INVALID_BLOCK, INVALID_EC)] ! k = remove_entry i es ! k"
      using n es'(2,3) by (auto simp: remove_entry_def nth_append nth_list_update)
  qed
  then show ?thesis using es'(1,2) n by (simp add: drop_entry_def cfg)
qed

lemma LogBadBlock_INVALID:
  assumes "bad_wf u"
  shows "ANCHOR_LogBadBlock INVALID_BLOCK u = Some u"
proof -
  obtain bs where bs: "bad_table bs (bad_block_table (anchor_table u))"
    using assms by (auto simp: bad_wf_def)
  let ?t = "bad_block_table (anchor_table u)"
  have "log_scan [0..<ANCHOR_BADBLOCK_COUNT] INVALID_BLOCK ?t = Some ?t"
  proof (cases "length bs = ANCHOR_BADBLOCK_COUNT")
    case True
    then show ?thesis using log_scan_spec [OF bs, of 0 INVALID_BLOCK] by simp
  next
    case False
    then have l: "length bs < ANCHOR_BADBLOCK_COUNT" using bs by (simp add: bad_table_def)
    have "?t ! length bs = INVALID_BLOCK"
      using bad_table_nth [OF bs l] by (simp add: rd_eq_Some)
    then have "?t[length bs := INVALID_BLOCK] = ?t" by (metis list_update_id)
    then show ?thesis using log_scan_spec [OF bs, of 0 INVALID_BLOCK] by simp
  qed
  then show ?thesis by (simp add: ANCHOR_LogBadBlock_def)
qed

lemma valid_not_INVALID: "valid_block b \<Longrightarrow> b \<noteq> INVALID_BLOCK"
  by (auto simp: valid_block_def INVALID_BLOCK_def cfg)

text \<open>What a successful call returns, and the state it leaves.\<close>

lemma Get_found:
  fixes die ec :: u32
  assumes inv: "mtd_inv (mtd_of u)" and wf: "index_wf (index_table u)"
    and valid: "valid_block (fst (entries (index_table u) !
      free_pick (die mod TOTAL_DIE_COUNT) (entries (index_table u))))"
  defines "es \<equiv> entries (index_table u)"
  defines "i \<equiv> free_pick (die mod TOTAL_DIE_COUNT) es"
  shows "\<exists>m'. INDEX_FreeBlock_Get die ec u = Some ((STATUS_SUCCESS, fst (es ! i), snd (es ! i) + 1),
      u\<lparr>mtd_of := m', index_table := with_entries (remove_entry i es) (index_table u)\<rparr>) \<and>
    mtd_inv m' \<and> page_wiped (fst (es ! i)) (mtd_of u) m' \<and> (quiet (mtd_of u) \<longrightarrow> quiet m')"
proof -
  let ?t = "index_table u" and ?die = "die mod TOTAL_DIE_COUNT"
  have len: "length es = FREE_BLOCK_COUNT" using length_entries [OF wf] by (simp add: es_def)
  have t: "?t = with_entries es ?t" using with_entries_entries [OF wf] by (simp add: es_def)
  have ft: "free_block_table ?t = map fst es"
    by (subst t) simp
  obtain k where k: "find_die [0..<FREE_BLOCK_COUNT] ?die (map fst es) = Some k"
      "(if k = FREE_BLOCK_COUNT then 0 else k) = i" "i < FREE_BLOCK_COUNT"
    using find_die_pick [OF len, of ?die] unfolding i_def by blast
  have v: "valid_block (fst (es ! i))" using valid by (simp add: es_def i_def)
  then have ne: "fst (es ! i) \<noteq> INVALID_BLOCK" by (rule valid_not_INVALID)
  have ge: "get_entry i ?t = Some (es ! i)"
    using k(3) len by (subst t) (simp add: rd_in)
  obtain u1 where u1: "on_mtd (MTD_Erase (fst (es ! i))) u = Some (STATUS_SUCCESS, u1)"
      "wiped (fst (es ! i)) u u1"
    using erase_ubi [OF inv v] by blast
  obtain m1 where m1: "u1 = u\<lparr>mtd_of := m1\<rparr>" "mtd_inv m1"
      "page_wiped (fst (es ! i)) (mtd_of u) m1" "quiet (mtd_of u) \<longrightarrow> quiet m1"
    using u1(2) by (auto elim!: wipedE)
  have dr: "drop_entry i ?t = Some (with_entries (remove_entry i es) ?t)"
    by (subst t) (rule drop_entry_with [OF len k(3)])
  obtain b0 e0 where be: "es ! i = (b0, e0)" by fastforce
  have "free_get_loop ?die ec u = Some ((STATUS_SUCCESS, b0, e0 + 1),
      u1\<lparr>index_table := with_entries (remove_entry i es) ?t\<rparr>)"
    using ge ne u1(1) be
    by (subst free_get_loop.simps) (simp add: ft k m1(1) dr)
  then show ?thesis
    unfolding INDEX_FreeBlock_Get_def m1(1) using m1(2-4) v be by (intro exI [of _ m1]) simp
qed

lemma Get_empty:
  assumes wf: "index_wf (index_table u)" and bad: "bad_wf u"
    and none: "fst (entries (index_table u) ! 0) = INVALID_BLOCK"
  shows "INDEX_FreeBlock_Get die ec u = Some ((STATUS_TOOMANY_BADBLOCK, INVALID_BLOCK, ec), u)"
proof -
  let ?t = "index_table u" and ?es = "entries (index_table u)"
  have len: "length ?es = 509" using length_entries [OF wf] by (simp add: cfg)
  have t: "?t = with_entries ?es ?t" using with_entries_entries [OF wf] by simp
  have ft: "free_block_table ?t = map fst ?es" by (subst t) simp
  have "?es \<noteq> []" using len by auto
  then obtain e xs where x: "?es = (INVALID_BLOCK, e) # xs"
    using none by (cases ?es) auto
  have k: "find_die [0..<FREE_BLOCK_COUNT] (die mod TOTAL_DIE_COUNT) (map fst ?es) = Some FREE_BLOCK_COUNT"
    using find_die_spec [of ?es 0 "die mod TOTAL_DIE_COUNT"] len x by (simp add: cfg)
  have ge: "get_entry 0 ?t = Some (INVALID_BLOCK, e)"
    using len by (subst t) (simp add: rd_in x)
  show ?thesis
    unfolding INDEX_FreeBlock_Get_def
    by (subst free_get_loop.simps)
      (simp add: ft k ge LogBadBlock_INVALID [OF bad])
qed

section \<open>The table as a pool of free blocks\<close>

text \<open>
  \<open>free_pool t fs\<close>: the free blocks are \<open>fs\<close>, in the order of their erase counts; the entries behind
  them have no erase count and start with padding.  (A block put back without an erase count lands
  behind the padding, where it is never found again.)
\<close>

definition free_pool :: "INDEX_TABLE \<Rightarrow> (u32 \<times> u32) list \<Rightarrow> bool" where
  "free_pool t fs \<longleftrightarrow> index_wf t \<and> sorted (map snd fs) \<and>
     (\<forall>x \<in> set fs. valid_block (fst x) \<and> snd x \<noteq> INVALID_EC) \<and>
     (\<exists>rest. entries t = fs @ rest \<and> rest \<noteq> [] \<and> fst (hd rest) = INVALID_BLOCK \<and>
        (\<forall>x \<in> set rest. snd x = INVALID_EC))"

lemma INVALID_EC_max: "e \<le> INVALID_EC"
  by (simp add: INVALID_EC_def)

lemma sorted_const: "\<forall>x \<in> set xs. snd x = c \<Longrightarrow> sorted (map snd xs)"
  by (induction xs) auto

lemma free_pool_sorted: "free_pool t fs \<Longrightarrow> free_sorted t"
  by (auto simp: free_pool_def free_sorted_def ect_entries sorted_append INVALID_EC_max
      intro: sorted_const [of _ INVALID_EC])

lemma insert_entry_append:
  assumes "\<forall>x \<in> set rest. snd x = INVALID_EC" "snd be \<noteq> INVALID_EC"
  shows "insert_entry be (fs @ rest) = insert_entry be fs @ rest"
proof -
  have rest: "\<not> snd x \<le> snd be" if "x \<in> set rest" for x
    using assms that INVALID_EC_max [of "snd be"] by auto
  have "takeWhile (\<lambda>x. snd x \<le> snd be) rest = [] \<and> dropWhile (\<lambda>x. snd x \<le> snd be) rest = rest"
    using rest by (cases rest) auto
  then show ?thesis
    by (auto simp: insert_entry_def takeWhile_append dropWhile_append takeWhile_eq_all_conv [THEN iffD2])
qed

lemma insert_entry_last:
  assumes "snd be = INVALID_EC"
  shows "insert_entry be es = es @ [be]"
  using assms INVALID_EC_max by (simp add: insert_entry_def takeWhile_eq_all_conv [THEN iffD2] dropWhile_eq_Nil_conv [THEN iffD2])

text \<open>Putting back a block with an erase count adds it in order; without one it is discarded.\<close>

lemma pool_Put:
  assumes pool: "free_pool t fs" and room: "length fs < FREE_BLOCK_COUNT - 1" and b: "valid_block b"
  shows "\<exists>es. INDEX_FreeBlock_Put b e t = Some (with_entries es t) \<and>
    free_pool (with_entries es t) (if e = INVALID_EC then fs else insert_entry (b, e) fs)"
proof -
  obtain rest where rest: "entries t = fs @ rest" "rest \<noteq> []" "fst (hd rest) = INVALID_BLOCK"
      "\<forall>x \<in> set rest. snd x = INVALID_EC"
    using pool by (auto simp: free_pool_def)
  have wf: "index_wf t" and so: "sorted (map snd fs)"
    and fs: "\<forall>x \<in> set fs. valid_block (fst x) \<and> snd x \<noteq> INVALID_EC"
    using pool by (auto simp: free_pool_def)
  have "length rest \<ge> 2" using length_entries [OF wf] rest(1) room by (simp add: cfg)
  then obtain x y ys where xy: "rest = x # y # ys" by (cases rest; cases "tl rest") auto
  have bl: "butlast (fs @ rest) = fs @ butlast rest" "butlast rest \<noteq> []" "hd (butlast rest) = hd rest"
    using rest(2) xy by (simp_all add: butlast_append)
  have bec: "\<forall>x \<in> set (butlast rest). snd x = INVALID_EC" using rest(4) by (auto dest: in_set_butlastD)
  obtain t' where t': "INDEX_FreeBlock_Put b e t = Some t'" "free_sorted t'"
      "entries t' = insert_entry (b, e) (butlast (entries t))" "t' = with_entries (entries t') t"
    using Put_spec [OF free_pool_sorted [OF pool]] by blast
  define es where "es = entries t'"
  have es: "es = (if e = INVALID_EC then fs @ butlast rest @ [(b, e)]
      else insert_entry (b, e) fs @ butlast rest)"
    using t'(3) insert_entry_last [of "(b, e)"] insert_entry_append [OF bec, of "(b, e)" fs]
    unfolding es_def rest(1) bl(1) by simp
  have wf': "index_wf (with_entries es t)"
    using t'(2,4) unfolding es_def by (simp add: free_sorted_def)
  have pool': "free_pool (with_entries es t) (if e = INVALID_EC then fs else insert_entry (b, e) fs)"
  proof (cases "e = INVALID_EC")
    case True
    have "\<exists>rest. es = fs @ rest \<and> rest \<noteq> [] \<and> fst (hd rest) = INVALID_BLOCK \<and>
        (\<forall>x \<in> set rest. snd x = INVALID_EC)"
      by (intro exI [of _ "butlast rest @ [(b, e)]"]) (use es True bl rest(3) bec in auto)
    then show ?thesis using wf' so fs True by (simp add: free_pool_def)
  next
    case False
    have "\<exists>rest. es = insert_entry (b, e) fs @ rest \<and> rest \<noteq> [] \<and> fst (hd rest) = INVALID_BLOCK \<and>
        (\<forall>x \<in> set rest. snd x = INVALID_EC)"
      by (intro exI [of _ "butlast rest"]) (use es False bl rest(3) bec in auto)
    moreover have "set (insert_entry (b, e) fs) = insert (b, e) (set fs)"
      using mset_insert_entry [of "(b, e)" fs] by (metis set_mset_mset set_mset_add_mset_insert)
    ultimately show ?thesis
      using wf' sorted_insert_entry [OF so] fs b False by (simp add: free_pool_def)
  qed
  show ?thesis using t'(1,4) pool' by (intro exI [of _ es]) (simp add: es_def)
qed

text \<open>The pick is the first block on the die, or the least worn one when there is none.\<close>

definition pool_pick :: "u32 \<Rightarrow> (u32 \<times> u32) list \<Rightarrow> nat" where
  "pool_pick die fs = (let n = length (takeWhile (\<lambda>x. fst x mod TOTAL_DIE_COUNT \<noteq> die) fs) in
     if n < length fs then n else 0)"

lemma pool_pick_less: "fs \<noteq> [] \<Longrightarrow> pool_pick die fs < length fs"
  by (simp add: pool_pick_def Let_def)

lemma takeWhile_shorter: "y \<in> set xs \<Longrightarrow> \<not> P y \<Longrightarrow> length (takeWhile P xs) < length xs"
  by (induction xs) auto

lemma pool_free_pick:
  assumes "free_pool t fs" "fs \<noteq> []"
  shows "free_pick die (entries t) = pool_pick die fs"
proof -
  obtain rest where rest: "entries t = fs @ rest" "rest \<noteq> []" "fst (hd rest) = INVALID_BLOCK"
    using assms(1) by (auto simp: free_pool_def)
  have fs: "\<forall>x \<in> set fs. fst x \<noteq> INVALID_BLOCK"
    using assms(1) valid_not_INVALID by (auto simp: free_pool_def)
  obtain x ys where x: "rest = x # ys" "fst x = INVALID_BLOCK" using rest(2,3) by (cases rest) auto
  let ?P = "\<lambda>x. fst x \<noteq> INVALID_BLOCK \<and> fst x mod TOTAL_DIE_COUNT \<noteq> die"
  let ?Q = "\<lambda>x. fst x mod TOTAL_DIE_COUNT \<noteq> die"
  have PQ: "takeWhile ?P fs = takeWhile ?Q fs" by (rule takeWhile_cong) (use fs in auto)
  show ?thesis
  proof (cases "\<forall>x \<in> set fs. ?Q x")
    case True
    have "takeWhile ?P (fs @ rest) = fs" using True fs x by (subst takeWhile_append2) auto
    moreover have "length (takeWhile ?Q fs) = length fs" using True by (simp add: takeWhile_eq_all_conv [THEN iffD2])
    ultimately have "pool_pick die fs = 0" "free_pick die (entries t) = 0"
      using x by (simp_all add: free_pick_def pool_pick_def rest(1) nth_append Let_def)
    then show ?thesis by simp
  next
    case False
    then obtain y where y: "y \<in> set fs" "\<not> ?Q y" by blast
    have "takeWhile ?P (fs @ rest) = takeWhile ?P fs" using y by (intro takeWhile_append1) auto
    moreover have less: "length (takeWhile ?Q fs) < length fs"
      using takeWhile_shorter [of y fs ?Q] y by simp
    moreover have "fst (fs ! length (takeWhile ?Q fs)) \<noteq> INVALID_BLOCK" using fs less by simp
    ultimately show ?thesis
      using less PQ by (simp add: free_pick_def pool_pick_def rest(1) nth_append)
  qed
qed

definition without :: "nat \<Rightarrow> 'a list \<Rightarrow> 'a list" where
  "without i xs = take i xs @ drop (Suc i) xs"

lemma sorted_without:
  assumes "sorted (map snd xs)"
  shows "sorted (map snd (without i xs))"
proof -
  have split: "sorted (map snd (take i xs) @ map snd (drop i xs))" using assms by (simp flip: map_append)
  show ?thesis
  proof (cases "drop i xs")
    case Nil
    then show ?thesis using assms by (simp add: without_def)
  next
    case (Cons y ys)
    then have "drop (Suc i) xs = ys" by (metis drop_Suc drop_tl list.sel(3))
    then show ?thesis using split Cons by (auto simp: without_def sorted_append)
  qed
qed

text \<open>Taking a block: it leaves the pool erased, its erase count is one more than recorded.\<close>

lemma pool_Get:
  fixes die ec :: u32
  assumes inv: "mtd_inv (mtd_of u)" and pool: "free_pool (index_table u) fs" and ne: "fs \<noteq> []"
  defines "i \<equiv> pool_pick (die mod TOTAL_DIE_COUNT) fs"
  shows "\<exists>m' es. INDEX_FreeBlock_Get die ec u = Some ((STATUS_SUCCESS, fst (fs ! i), snd (fs ! i) + 1),
      u\<lparr>mtd_of := m', index_table := with_entries es (index_table u)\<rparr>) \<and>
    free_pool (with_entries es (index_table u)) (without i fs) \<and> mtd_inv m' \<and>
    page_wiped (fst (fs ! i)) (mtd_of u) m' \<and> (quiet (mtd_of u) \<longrightarrow> quiet m') \<and> valid_block (fst (fs ! i))"
proof -
  let ?t = "index_table u"
  obtain rest where rest: "entries ?t = fs @ rest" "rest \<noteq> []" "fst (hd rest) = INVALID_BLOCK"
      "\<forall>x \<in> set rest. snd x = INVALID_EC"
    using pool by (auto simp: free_pool_def)
  have wf: "index_wf ?t" and so: "sorted (map snd fs)"
    and fs: "\<forall>x \<in> set fs. valid_block (fst x) \<and> snd x \<noteq> INVALID_EC"
    using pool by (auto simp: free_pool_def)
  have il: "i < length fs" using pool_pick_less [OF ne] by (simp add: i_def)
  have nth: "entries ?t ! i = fs ! i" using il by (simp add: rest(1) nth_append)
  have pick: "free_pick (die mod TOTAL_DIE_COUNT) (entries ?t) = i"
    using pool_free_pick [OF pool ne] by (simp add: i_def)
  have "valid_block (fst (fs ! i))" using fs il by simp
  let ?es = "remove_entry i (entries ?t)"
  have get: "\<exists>m'. INDEX_FreeBlock_Get die ec u = Some ((STATUS_SUCCESS, fst (fs ! i), snd (fs ! i) + 1),
      u\<lparr>mtd_of := m', index_table := with_entries ?es ?t\<rparr>) \<and>
      mtd_inv m' \<and> page_wiped (fst (fs ! i)) (mtd_of u) m' \<and> (quiet (mtd_of u) \<longrightarrow> quiet m')"
    using Get_found [OF inv wf, of die ec, unfolded pick nth] \<open>valid_block (fst (fs ! i))\<close> by blast
  have es: "?es = without i fs @ rest @ [(INVALID_BLOCK, INVALID_EC)]"
    using il by (simp add: remove_entry_def without_def rest(1))
  have len: "length ?es = FREE_BLOCK_COUNT"
    using length_entries [OF wf] il by (simp add: remove_entry_def rest(1))
  have "sorted (map snd (without i fs))" by (rule sorted_without [OF so])
  moreover have "set (without i fs) \<subseteq> set fs"
    by (auto simp: without_def dest: in_set_takeD in_set_dropD)
  moreover have "\<exists>rest. ?es = without i fs @ rest \<and> rest \<noteq> [] \<and> fst (hd rest) = INVALID_BLOCK \<and>
      (\<forall>x \<in> set rest. snd x = INVALID_EC)"
    by (intro exI [of _ "rest @ [(INVALID_BLOCK, INVALID_EC)]"]) (use es rest in auto)
  ultimately have "free_pool (with_entries ?es ?t) (without i fs)"
    using fs index_wf_with [OF wf len] by (auto simp: free_pool_def)
  then show ?thesis using get \<open>valid_block (fst (fs ! i))\<close> by blast
qed

lemma pool_Get_empty:
  assumes "free_pool (index_table u) []" "bad_wf u"
  shows "INDEX_FreeBlock_Get die ec u = Some ((STATUS_TOOMANY_BADBLOCK, INVALID_BLOCK, ec), u)"
  using assms Get_empty [of u die ec] by (auto simp: free_pool_def hd_conv_nth)

section \<open>Exchanging the most worn block\<close>

lemma swap_scan_put:
  "swap_scan i mn t = do {
     (j, t) \<leftarrow> put_scan i (snd mn) t;
     if j > 0 then do { t \<leftarrow> set_entry (j + 1) mn t; Some (j, t) } else Some (j, t) }"
proof (induction i arbitrary: t)
  case 0
  then show ?case by simp
next
  case (Suc i)
  show ?case
    by (simp add: Suc.IH cong: if_cong split: Option.bind_split)
qed

lemma last_valid_spec:
  assumes "n < length ect"
  shows "\<exists>i \<le> n. last_valid n ect = Some i \<and> (\<forall>k. i < k \<and> k \<le> n \<longrightarrow> ect ! k = INVALID_EC) \<and>
    (i > 0 \<longrightarrow> ect ! i \<noteq> INVALID_EC)"
  using assms
proof (induction n)
  case 0
  then show ?case by simp
next
  case (Suc n)
  then show ?case
  proof (cases "ect ! Suc n = INVALID_EC")
    case True
    then obtain i where "i \<le> n" "last_valid n ect = Some i"
        "\<forall>k. i < k \<and> k \<le> n \<longrightarrow> ect ! k = INVALID_EC" "i > 0 \<longrightarrow> ect ! i \<noteq> INVALID_EC"
      using Suc by auto
    then show ?thesis
      using True Suc.prems by (intro exI [of _ i]) (auto simp: rd_in le_Suc_eq)
  next
    case False
    then show ?thesis using Suc.prems by (intro exI [of _ "Suc n"]) (auto simp: rd_in)
  qed
qed

text \<open>
  \<open>worst t = Some i\<close>: entry \<open>i\<close> is the last valid one, with at least one entry before it.
\<close>

definition worst_entry :: "(u32 \<times> u32) list \<Rightarrow> nat \<Rightarrow> bool" where
  "worst_entry es i \<longleftrightarrow> i < length es \<and> snd (es ! i) \<noteq> INVALID_EC \<and>
     (\<forall>k. i < k \<and> k < length es \<longrightarrow> snd (es ! k) = INVALID_EC)"

lemma last_valid_worst:
  assumes "length es = FREE_BLOCK_COUNT" "worst_entry es i"
  shows "last_valid 508 (map snd es) = Some i"
proof -
  have n: "length es = 509" using assms(1) by (simp add: cfg)
  obtain j where j: "j \<le> 508" "last_valid 508 (map snd es) = Some j"
      "\<forall>k. j < k \<and> k \<le> 508 \<longrightarrow> map snd es ! k = INVALID_EC" "j > 0 \<longrightarrow> map snd es ! j \<noteq> INVALID_EC"
    using last_valid_spec [of 508 "map snd es"] n by auto
  have "i = j"
  proof (cases i j rule: linorder_cases)
    case less
    then show ?thesis using j(1,4) assms(2) n by (auto simp: worst_entry_def)
  next
    case greater
    then show ?thesis using j(3) assms(2) n by (auto simp: worst_entry_def)
  qed simp
  then show ?thesis using j(2) by simp
qed

text \<open>The exchange: the most worn entry is removed and the given block inserted in order.\<close>

lemma Swap_spec:
  assumes wf: "free_sorted t" and w: "worst_entry (entries t) i" "i > 0"
    and gap: "snd (entries t ! i) > min_ec" "snd (entries t ! i) - min_ec > STATIC_WL_THRESHOLD"
  shows "INDEX_FreeBlock_SwapMaxECBlock b min_ec t = Some (with_entries
    (insert_entry (b, min_ec) (take i (entries t)) @ drop (Suc i) (entries t)) t)"
proof -
  define es where "es = entries t"
  have iw: "index_wf t" using wf by (simp add: free_sorted_def)
  have t: "t = with_entries es t" using with_entries_entries [OF iw] by (simp add: es_def)
  have len: "length es = FREE_BLOCK_COUNT" using length_entries [OF iw] by (simp add: es_def)
  have so: "sorted (map snd es)"
    using wf unfolding es_def by (simp add: free_sorted_def flip: ect_entries [OF iw])
  have w': "worst_entry es i" and il: "i < length es" using w(1) by (simp_all add: es_def worst_entry_def)
  note lv = last_valid_worst [OF len w']
  have pa: "put_at (i - 1) (b, min_ec) (with_entries es t) =
      Some (with_entries (insert_entry (b, min_ec) (take i es) @ drop (Suc i) es) t)"
    using put_at_entries [of "i - 1" es "(b, min_ec)" t] w(2) il sorted_take [OF so] by simp
  have "INDEX_FreeBlock_SwapMaxECBlock b min_ec (with_entries es t) =
      put_at (i - 1) (b, min_ec) (with_entries es t)"
    using w' il w(2) gap unfolding es_def [symmetric]
    by (simp add: INDEX_FreeBlock_SwapMaxECBlock_def lv rd_in worst_entry_def swap_scan_put put_at_def
        cfg cong: if_cong split: Option.bind_split)
  then show ?thesis using pa t by (simp flip: es_def)
qed

text \<open>With a single free block the exchange reads outside the table.\<close>

lemma Swap_single:
  assumes "index_wf t" "worst_entry (entries t) 0"
    and "snd (entries t ! 0) > min_ec" "snd (entries t ! 0) - min_ec > STATIC_WL_THRESHOLD"
  shows "INDEX_FreeBlock_SwapMaxECBlock b min_ec t = None"
proof -
  define es where "es = entries t"
  have t: "t = with_entries es t" using with_entries_entries [OF assms(1)] by (simp add: es_def)
  have len: "length es = FREE_BLOCK_COUNT" using length_entries [OF assms(1)] by (simp add: es_def)
  note lv = last_valid_worst [OF len assms(2) [folded es_def]]
  have "0 < length es" "snd (es ! 0) \<noteq> INVALID_EC"
    using assms(2) by (simp_all add: es_def worst_entry_def)
  then have "INDEX_FreeBlock_SwapMaxECBlock b min_ec (with_entries es t) = None"
    using assms(3,4) unfolding es_def [symmetric]
    by (simp add: INDEX_FreeBlock_SwapMaxECBlock_def lv rd_in cfg)
  then show ?thesis using t by simp
qed

text \<open>\<open>INDEX_FreeBlock_GetMaxECBlock\<close> finds that entry, except at index 0, which it never reports.\<close>

lemma GetMax_spec:
  assumes "index_wf t" "worst_entry (entries t) i"
  shows "INDEX_FreeBlock_GetMaxECBlock out t = Some (if i > 0 then entries t ! i else out)"
proof -
  define es where "es = entries t"
  have t: "t = with_entries es t" using with_entries_entries [OF assms(1)] by (simp add: es_def)
  have len: "length es = FREE_BLOCK_COUNT" using length_entries [OF assms(1)] by (simp add: es_def)
  note lv = last_valid_worst [OF len assms(2) [folded es_def]]
  have "i < length es" using assms(2) by (simp add: es_def worst_entry_def)
  then have "INDEX_FreeBlock_GetMaxECBlock out (with_entries es t) = Some (if i > 0 then es ! i else out)"
    by (simp add: INDEX_FreeBlock_GetMaxECBlock_def lv rd_in cfg)
  then show ?thesis using t by (simp flip: es_def)
qed

text \<open>The exchange on the pool.\<close>

lemma pool_worst:
  assumes "free_pool t fs" "fs \<noteq> []"
  shows "worst_entry (entries t) (length fs - 1)" "entries t ! (length fs - 1) = last fs"
proof -
  obtain rest where rest: "entries t = fs @ rest" "\<forall>x \<in> set rest. snd x = INVALID_EC"
    using assms(1) by (auto simp: free_pool_def)
  have nth: "(fs @ rest) ! k = rest ! (k - length fs)" "k - length fs < length rest"
    if "length fs - 1 < k" "k < length (fs @ rest)" for k
    using that assms(2) by (auto simp: nth_append)
  show "entries t ! (length fs - 1) = last fs"
    using assms(2) rest(1) by (simp add: nth_append last_conv_nth)
  moreover have "snd (last fs) \<noteq> INVALID_EC" using assms by (simp add: free_pool_def)
  moreover have "length fs - 1 < length (fs @ rest)" using assms(2) by (cases fs) simp_all
  ultimately show "worst_entry (entries t) (length fs - 1)"
    using rest nth by (auto simp: worst_entry_def)
qed

lemma pool_Swap:
  assumes pool: "free_pool t fs" and two: "length fs \<ge> 2" and b: "valid_block b"
    and gap: "snd (last fs) > min_ec" "snd (last fs) - min_ec > STATIC_WL_THRESHOLD"
  shows "\<exists>es. INDEX_FreeBlock_SwapMaxECBlock b min_ec t = Some (with_entries es t) \<and>
    free_pool (with_entries es t) (insert_entry (b, min_ec) (butlast fs))"
proof -
  obtain rest where rest: "entries t = fs @ rest" "rest \<noteq> []" "fst (hd rest) = INVALID_BLOCK"
      "\<forall>x \<in> set rest. snd x = INVALID_EC"
    using pool by (auto simp: free_pool_def)
  have wf: "index_wf t" and so: "sorted (map snd fs)"
    and fs: "\<forall>x \<in> set fs. valid_block (fst x) \<and> snd x \<noteq> INVALID_EC"
    using pool by (auto simp: free_pool_def)
  have ne: "fs \<noteq> []" using two by auto
  let ?i = "length fs - 1"
  let ?es = "insert_entry (b, min_ec) (butlast fs) @ rest"
  have i: "take ?i (entries t) = butlast fs" "drop (Suc ?i) (entries t) = rest" "?i > 0"
    using two rest(1) by (simp_all add: butlast_conv_take)
  have swap: "INDEX_FreeBlock_SwapMaxECBlock b min_ec t = Some (with_entries ?es t)"
    using Swap_spec [OF free_pool_sorted [OF pool] pool_worst(1) [OF pool ne] i(3), of min_ec b]
      gap pool_worst(2) [OF pool ne] i(1,2) by simp
  have mset: "mset (insert_entry (b, min_ec) (butlast fs)) = add_mset (b, min_ec) (mset (butlast fs))"
    by (rule mset_insert_entry)
  have "length ?es = FREE_BLOCK_COUNT"
    using length_entries [OF wf] rest(1) two arg_cong [OF mset, of size] by simp
  then have "index_wf (with_entries ?es t)" by (rule index_wf_with [OF wf])
  moreover have "sorted (map snd (butlast fs))"
    using so sorted_take [of fs "length fs - 1"] by (simp add: butlast_conv_take)
  moreover have "set (insert_entry (b, min_ec) (butlast fs)) = insert (b, min_ec) (set (butlast fs))"
    using mset by (metis set_mset_mset set_mset_add_mset_insert)
  moreover have "min_ec \<noteq> INVALID_EC" using gap(1) INVALID_EC_max [of "snd (last fs)"] by auto
  ultimately have "free_pool (with_entries ?es t) (insert_entry (b, min_ec) (butlast fs))"
    using sorted_insert_entry [of "butlast fs" "(b, min_ec)"] fs b rest(2-4)
    by (auto simp: free_pool_def dest: in_set_butlastD)
  then show ?thesis using swap by blast
qed

text \<open>Without the gap the exchange leaves the table alone.\<close>

lemma pool_no_Swap:
  assumes pool: "free_pool t fs" and ne: "fs \<noteq> []"
    and "\<not> (snd (last fs) > min_ec \<and> snd (last fs) - min_ec > STATIC_WL_THRESHOLD)"
  shows "INDEX_FreeBlock_SwapMaxECBlock b min_ec t = Some t"
proof -
  have wf: "index_wf t" using pool by (simp add: free_pool_def)
  have t: "free_block_ect t = map snd (entries t)" by (rule ect_entries [OF wf])
  note w = pool_worst [OF pool ne]
  note lv = last_valid_worst [OF length_entries [OF wf] w(1)]
  have "rd (map snd (entries t)) (length fs - 1) = Some (snd (last fs))"
    using w by (simp add: rd_in worst_entry_def)
  then show ?thesis
    using lv assms(3) by (auto simp: INDEX_FreeBlock_SwapMaxECBlock_def t cfg)
qed

section \<open>What the pick is\<close>

lemma mset_without: "i < length xs \<Longrightarrow> mset xs = add_mset (xs ! i) (mset (without i xs))"
proof -
  assume "i < length xs"
  then have "xs = take i xs @ xs ! i # drop (Suc i) xs" by (rule id_take_nth_drop)
  then have "mset xs = mset (take i xs @ xs ! i # drop (Suc i) xs)" by simp
  then show ?thesis by (simp add: without_def)
qed

lemma pool_pick_least:
  fixes die :: u32 and fs :: "(u32 \<times> u32) list"
  assumes so: "sorted (map snd fs)" and ne: "fs \<noteq> []"
  defines "i \<equiv> pool_pick die fs"
  shows "if \<exists>x \<in> set fs. fst x mod TOTAL_DIE_COUNT = die
    then fst (fs ! i) mod TOTAL_DIE_COUNT = die \<and>
      (\<forall>x \<in> set fs. fst x mod TOTAL_DIE_COUNT = die \<longrightarrow> snd (fs ! i) \<le> snd x)
    else \<forall>x \<in> set fs. snd (fs ! i) \<le> snd x"
proof -
  let ?Q = "\<lambda>x. fst x mod TOTAL_DIE_COUNT \<noteq> die"
  let ?n = "length (takeWhile ?Q fs)"
  have mono: "snd (fs ! j) \<le> snd (fs ! k)" if "j \<le> k" "k < length fs" for j k
    using sorted_nth_mono [OF so that(1)] that by simp
  show ?thesis
  proof (cases "\<exists>x \<in> set fs. fst x mod TOTAL_DIE_COUNT = die")
    case True
    then have n: "?n < length fs" using takeWhile_shorter [of _ fs ?Q] by blast
    then have i: "i = ?n" by (simp add: i_def pool_pick_def)
    have "fst (fs ! ?n) mod TOTAL_DIE_COUNT = die" using nth_length_takeWhile [OF n] by simp
    moreover have "snd (fs ! ?n) \<le> snd x" if x: "x \<in> set fs" "fst x mod TOTAL_DIE_COUNT = die" for x
    proof -
      obtain k where k: "k < length fs" "x = fs ! k" using x(1) by (auto simp: in_set_conv_nth)
      have "\<not> k < ?n"
      proof
        assume less: "k < ?n"
        then have "fs ! k \<in> set (takeWhile ?Q fs)" using nth_mem [OF less] takeWhile_nth [OF less] by simp
        then show False using set_takeWhileD [of "fs ! k" ?Q fs] k x(2) by simp
      qed
      then show ?thesis using mono [of ?n k] k by simp
    qed
    ultimately show ?thesis using True i by simp
  next
    case False
    then have "length (takeWhile ?Q fs) = length fs"
      by (simp add: takeWhile_eq_all_conv [THEN iffD2])
    then have "i = 0" by (simp add: i_def pool_pick_def Let_def)
    moreover have "snd (fs ! 0) \<le> snd x" if "x \<in> set fs" for x
      using that mono [of 0] by (auto simp: in_set_conv_nth)
    ultimately show ?thesis using False by simp
  qed
qed

end
