(* ===== verification/Device_Properties.thy ===== *)
theory Device_Properties
  imports Mtd_Flash Buf
begin

text \<open>
  The properties of the device and of the page buffer, with a concrete device (a freshly
  initialised NAND) on which each is applied.
\<close>

section \<open>A concrete device\<close>

definition fresh_nand :: nand where
  "fresh_nand = \<lparr>sim_nand = (\<lambda>_ _. erased_column), sim_nand_status = 0, sim_nand_state = STATE_READ,
     sim_nand_chip = 0, sim_nand_col_addr = 0, sim_nand_row_addr = 0\<rparr>"

definition fresh_mtd :: mtd where
  "fresh_mtd = MTD_Init \<lparr>nand_of = fresh_nand, sim_test_mode = TEST_NONE, sim_test_target = 0,
     sim_test_current = 1, TEST_total_page_program = 0\<rparr>"

lemma fresh_mtd_inv [simp]: "mtd_inv fresh_mtd" "quiet fresh_mtd" "flash_page fresh_mtd b p = None"
  using Init_spec by (auto simp: fresh_mtd_def fresh_nand_def)

lemma small_places [simp]:
  "valid_block 0" "valid_block 1" "valid_block 2" "valid_block 3" "valid_block 1023"
  "valid_page 0" "valid_page 1" "valid_page 2" "valid_page 31"
  by (simp_all add: valid_block_unat valid_page_unat)

section \<open>Address translation\<close>

text \<open>
  C17: Every page of every block has its own column: the chip number and the row address that the
  MTD computes are in range, and two (block, plane, page) triples share them only when they are equal.
\<close>

theorem row_address_injective:
  assumes "b < CFG_LOG_BLOCK_COUNT" "plane < 2" "page < PAGE_PER_PHY_BLOCK"
    and "b' < CFG_LOG_BLOCK_COUNT" "plane' < 2" "page' < PAGE_PER_PHY_BLOCK"
  shows "unat (MTD_CHIP_NUM b) < CFG_NAND_CHIP_COUNT \<and>
    unat (MTD_ROW_ADDRESS b plane page) < CFG_NAND_ROW_COUNT \<and>
    ((MTD_CHIP_NUM b, MTD_ROW_ADDRESS b plane page) = (MTD_CHIP_NUM b', MTD_ROW_ADDRESS b' plane' page')
      \<longleftrightarrow> (b, plane, page) = (b', plane', page'))"
proof -
  have v: "valid_block b" "valid_block b'" "valid_page page" "valid_page page'"
    using assms by (simp_all add: valid_block_def valid_page_def)
  define k k' where k_def: "k = unat plane" and k'_def: "k' = unat plane'"
  then have k: "plane = of_nat k" "k < 2" "plane' = of_nat k'" "k' < 2"
    using assms(2,5) by (simp_all add: word_less_nat_alt)
  have row: "MTD_ROW_ADDRESS b plane page = MTD_ROW_ADDRESS b' plane' page' \<longleftrightarrow>
      row_ix b k page = row_ix b' k' page'"
    by (simp add: row_ix_def k word_unat_eq_iff)
  have chip: "unat (MTD_CHIP_NUM b) < CFG_NAND_CHIP_COUNT"
    unfolding MTD_CHIP_NUM_def using unat_take_bit_u32 [of 2 "drop_bit 1 b"]
    by (simp add: cfg shift_defs and_3_u32)
  have "unat (MTD_ROW_ADDRESS b plane page) < CFG_NAND_ROW_COUNT"
    using row_ix_less [OF v(1) k(2) v(3)] by (simp add: row_ix_def k)
  moreover have "plane = plane' \<longleftrightarrow> k = k'"
    by (simp add: k_def k'_def word_unat_eq_iff)
  ultimately show ?thesis
    using chip row row_ix_inject [OF v(1) k(2) v(3) v(2) k(4) v(4)] by auto
qed

theorem row_address_injective_witness:
  "unat (MTD_CHIP_NUM 9) < CFG_NAND_CHIP_COUNT \<and>
   unat (MTD_ROW_ADDRESS 9 0 5) < CFG_NAND_ROW_COUNT \<and>
   (MTD_CHIP_NUM 9, MTD_ROW_ADDRESS 9 0 5) \<noteq> (MTD_CHIP_NUM 1, MTD_ROW_ADDRESS 1 1 5)"
  using row_address_injective [of 9 0 5 1 1 5] by (simp add: cfg)

section \<open>Program, erase, read\<close>

text \<open>
  C2: Programming an erased page succeeds, and afterwards every page of the device reads as it
  should: the programmed page returns the data and the spare area, every other page what it
  returned before (its data, or a failure when it is erased).
\<close>

theorem program_then_read:
  assumes "mtd_inv m" "valid_block b" "valid_page p" "flash_page m b p = None"
    and "length d = MPP_SIZE"
  shows "\<exists>m1. MTD_Program b p (Some d) sp m = Some (STATUS_SUCCESS, m1) \<and> mtd_inv m1 \<and>
    (\<forall>b' p' mem x. valid_block b' \<longrightarrow> valid_page p' \<longrightarrow> length mem = MPP_SIZE \<longrightarrow>
      (\<exists>m2. MTD_Read b' p' (Some mem) (Some x) m1 =
        Some (if b' = b \<and> p' = p then (STATUS_SUCCESS, Some d, Some (spare_val sp))
              else read_result (flash_page m b' p') (Some mem) (Some x), m2) \<and> mtd_inv m2))"
proof -
  obtain m1 where m1: "MTD_Program b p (Some d) sp m = Some (STATUS_SUCCESS, m1)" "mtd_inv m1"
      "\<forall>b' p'. valid_block b' \<longrightarrow> valid_page p' \<longrightarrow> flash_page m1 b' p' =
        (if b' = b \<and> p' = p then Some (d, spare_val sp) else flash_page m b' p')"
    using Program_spec [OF assms] by blast
  have "\<exists>m2. MTD_Read b' p' (Some mem) (Some x) m1 =
      Some (if b' = b \<and> p' = p then (STATUS_SUCCESS, Some d, Some (spare_val sp))
            else read_result (flash_page m b' p') (Some mem) (Some x), m2) \<and> mtd_inv m2"
    if "valid_block b'" "valid_page p'" "length mem = MPP_SIZE" for b' p' mem x
  proof -
    have "\<And>mem'. Some mem = Some mem' \<Longrightarrow> MPP_SIZE \<le> length mem'" using that(3) by simp
    from mtd_flash.read_ok [OF m1(2) that(1,2) this, of "Some mem" "Some x"]
    obtain m2 where "MTD_Read b' p' (Some mem) (Some x) m1 =
        Some (read_result (flash_page m1 b' p') (Some mem) (Some x), m2)" "mtd_inv m2"
      by auto
    then show ?thesis using m1(3) that by (auto simp: read_result_def)
  qed
  then show ?thesis using m1(1,2) by blast
qed

theorem program_then_read_witness:
  "\<exists>m1 m2. MTD_Program 3 2 (Some (replicate 8192 7)) (Some (5, 6)) fresh_mtd = Some (STATUS_SUCCESS, m1) \<and>
     MTD_Read 3 2 (Some (replicate 8192 0)) (Some (0, 0)) m1 =
       Some ((STATUS_SUCCESS, Some (replicate 8192 7), Some (5, 6)), m2)"
proof -
  have len: "length (replicate 8192 x) = MPP_SIZE" for x :: u8 by (simp add: cfg)
  obtain m1 where m1: "MTD_Program 3 2 (Some (replicate 8192 7)) (Some (5, 6)) fresh_mtd =
      Some (STATUS_SUCCESS, m1)" and r: "\<forall>b' p' mem x. valid_block b' \<longrightarrow> valid_page p' \<longrightarrow>
        length mem = MPP_SIZE \<longrightarrow> (\<exists>m2. MTD_Read b' p' (Some mem) (Some x) m1 =
        Some (if b' = 3 \<and> p' = 2 then (STATUS_SUCCESS, Some (replicate 8192 7), Some (spare_val (Some (5, 6))))
              else read_result (flash_page fresh_mtd b' p') (Some mem) (Some x), m2) \<and> mtd_inv m2)"
    using program_then_read [of fresh_mtd 3 2 "replicate 8192 7" "Some (5, 6)"] len by auto
  have "\<exists>m2. MTD_Read 3 2 (Some (replicate 8192 0)) (Some (0, 0)) m1 =
       Some ((STATUS_SUCCESS, Some (replicate 8192 7), Some (5, 6)), m2)"
    using r [rule_format, of 3 2 "replicate 8192 0" "(0, 0)"] len by (auto simp: spare_val_def)
  then show ?thesis using m1 by blast
qed

text \<open>
  C9: Erasing a valid block always reports success and clears exactly that block, whatever failure
  the test engine has armed: an injected power loss or bad block is used up by the first status
  read and hidden by the retry.
\<close>

theorem erase_hides_faults:
  assumes "mtd_inv m" "valid_block b"
  shows "\<exists>m1. MTD_Erase b m = Some (STATUS_SUCCESS, m1) \<and> mtd_inv m1 \<and>
    (\<forall>b' p'. valid_block b' \<longrightarrow> valid_page p' \<longrightarrow>
      flash_page m1 b' p' = (if b' = b then None else flash_page m b' p')) \<and>
    (fault_out (fault_of m) \<noteq> STATUS_SUCCESS \<longrightarrow> quiet m1)"
proof -
  obtain m1 where m1: "MTD_Erase b m = Some (STATUS_SUCCESS, m1)" "mtd_inv m1"
      "\<forall>b' p'. valid_block b' \<longrightarrow> valid_page p' \<longrightarrow>
        flash_page m1 b' p' = (if b' = b then None else flash_page m b' p')"
      "fault_of m1 = fault_tick (fault_of m)"
    using mtd_flash.erase_ok [OF assms] by blast
  obtain mode t c where f: "fault_of m = (mode, t, c)" by (cases "fault_of m") auto
  have "quiet m1" if "fault_out (fault_of m) \<noteq> STATUS_SUCCESS"
    using m1(4) that by (auto simp: quiet_def fault_of_def f split: if_splits)
  then show ?thesis using m1 by blast
qed

theorem erase_hides_faults_witness:
  "\<exists>m1. MTD_Erase 3 (MTD_TestPLR 0 fresh_mtd) = Some (STATUS_SUCCESS, m1) \<and> quiet m1"
proof -
  have "mtd_inv (MTD_TestPLR 0 fresh_mtd)"
    using mtd_inv_cong [of "MTD_TestPLR 0 fresh_mtd" fresh_mtd] by (simp add: MTD_TestPLR_def)
  then show ?thesis
    using erase_hides_faults [of "MTD_TestPLR 0 fresh_mtd" 3]
    by (auto simp: fault_of_def MTD_TestPLR_def)
qed

text \<open>
  C10: A page is never overwritten in place: programming a programmed page does not return (the
  simulator stops on its assertion), and after an erase of the block the page can be programmed
  again, with other data, exactly once.
\<close>

theorem no_overwrite:
  assumes "mtd_inv m" "valid_block b" "valid_page p" "flash_page m b p \<noteq> None" "length d = MPP_SIZE"
  shows "MTD_Program b p buf sp m = None \<and>
    (\<exists>m1 m2. MTD_Erase b m = Some (STATUS_SUCCESS, m1) \<and>
      MTD_Program b p (Some d) sp m1 = Some (STATUS_SUCCESS, m2) \<and>
      flash_page m2 b p = Some (d, spare_val sp) \<and> MTD_Program b p buf' sp' m2 = None)"
proof -
  obtain m1 where m1: "MTD_Erase b m = Some (STATUS_SUCCESS, m1)" "mtd_inv m1" "flash_page m1 b p = None"
    using mtd_flash.erase_ok [OF assms(1,2)] assms(2,3) by metis
  obtain m2 where m2: "MTD_Program b p (Some d) sp m1 = Some (STATUS_SUCCESS, m2)" "mtd_inv m2"
      "flash_page m2 b p = Some (d, spare_val sp)"
    using Program_spec [OF m1(2) assms(2,3) m1(3) assms(5), of sp] assms(2,3) by auto
  show ?thesis
    using Program_programmed [OF assms(1-4)] Program_programmed [OF m2(2) assms(2,3), of buf' sp'] m1 m2
    by auto
qed

theorem no_overwrite_witness:
  "\<exists>m. mtd_inv m \<and> MTD_Program 3 2 (Some (replicate 8192 1)) None m = None"
proof -
  have len: "length (replicate 8192 x) = MPP_SIZE" for x :: u8 by (simp add: cfg)
  obtain m where "mtd_inv m" "flash_page m 3 2 \<noteq> None"
    using Program_spec [of fresh_mtd 3 2 "replicate 8192 0" None] len by auto
  then show ?thesis
    using no_overwrite [of m 3 2 "replicate 8192 1"] len by auto
qed

section \<open>The test engine\<close>

fun status_reads :: "u32 list \<Rightarrow> mtd \<Rightarrow> (STATUS list \<times> mtd) option" where
  "status_reads [] m = Some ([], m)"
| "status_reads (b # bs) m = do {
     (r, m) \<leftarrow> MTD_ReadStatus b m;
     (rs, m) \<leftarrow> status_reads bs m;
     Some (r # rs, m) }"

lemma status_reads_quiet:
  assumes "mtd_inv m" "quiet m" "\<forall>b \<in> set bs. valid_block b"
  shows "\<exists>m'. status_reads bs m = Some (replicate (length bs) STATUS_SUCCESS, m')"
  using assms
proof (induction bs arbitrary: m)
  case Nil
  then show ?case by simp
next
  case (Cons b bs)
  obtain m1 where m1: "MTD_ReadStatus b m = Some (STATUS_SUCCESS, m1)" "mtd_inv m1"
      "fault_of m1 = fault_of m"
    using ReadStatus_quiet [of m b] Cons.prems by auto
  have "quiet m1" using Cons.prems(2) m1(3) by (simp add: quiet_def fault_of_def)
  then show ?case using Cons.IH [of m1] Cons.prems(3) m1 by auto
qed

lemma status_reads_armed:
  assumes "mtd_inv m" "fault_of m = (mode, t, c)" "c \<le> t" "mode = TEST_PLR \<or> mode = TEST_BBR"
    and "\<forall>b \<in> set bs. valid_block b"
  shows "\<exists>m'. status_reads bs m = Some (map (\<lambda>i. if i + unat c = unat t
      then if mode = TEST_PLR then STATUS_SimulatedPowerLoss else STATUS_BADBLOCK
      else STATUS_SUCCESS) [0..<length bs], m')"
  using assms
proof (induction bs arbitrary: m c)
  case Nil
  then show ?case by simp
next
  case (Cons b bs)
  let ?f = "\<lambda>c i. if i + unat c = unat t
      then if mode = TEST_PLR then STATUS_SimulatedPowerLoss else STATUS_BADBLOCK else STATUS_SUCCESS"
  have list: "map (?f c) [0..<length (b # bs)] = ?f c 0 # map (\<lambda>i. ?f c (Suc i)) [0..<length bs]"
    by (simp add: upt_conv_Cons map_Suc_upt [symmetric] comp_def del: upt_Suc)
  obtain m1 where m1: "MTD_ReadStatus b m = Some (fst (mtd_test_step m), m1)" "mtd_inv m1"
      "fault_of m1 = fault_of (snd (mtd_test_step m))"
    using ReadStatus_spec [of m b] Cons.prems by auto
  have out: "fst (mtd_test_step m) = ?f c 0"
    using Cons.prems(2,4) by (auto simp: test_step_fault word_unat_eq_iff)
  have tick: "fault_of m1 = fault_tick (mode, t, c)"
    using m1(3) Cons.prems(2) by (simp add: test_step_fault)
  show ?case
  proof (cases "c = t")
    case True
    then have "quiet m1" using tick Cons.prems(4) by (auto simp: quiet_def fault_of_def)
    then obtain m' where "status_reads bs m1 = Some (replicate (length bs) STATUS_SUCCESS, m')"
      using status_reads_quiet [OF m1(2)] Cons.prems(5) by auto
    moreover have "map (\<lambda>i. ?f c (Suc i)) [0..<length bs] = replicate (length bs) STATUS_SUCCESS"
      using True by (intro nth_equalityI) auto
    ultimately show ?thesis using m1(1) out list by simp
  next
    case False
    then have lt: "c < t" using Cons.prems(3) by simp
    then have c1: "unat (c + 1) = unat c + 1" "c + 1 \<le> t"
      using unsigned_less [of t, where ?'a = nat] by (auto simp: unat_plus_1 word_less_nat_alt word_le_nat_alt)
    have "fault_of m1 = (mode, t, c + 1)" using tick lt Cons.prems(4) by auto
    then obtain m' where "status_reads bs m1 = Some (map (?f (c + 1)) [0..<length bs], m')"
      using Cons.IH [OF m1(2) _ c1(2)] Cons.prems(4,5) by auto
    then show ?thesis using m1(1) out list c1 by (simp add: upt_conv_Cons del: upt_Suc)
  qed
qed

text \<open>
  C18: The test engine fires once, at the armed point: after \<open>MTD_TestPLR t\<close> (\<open>MTD_TestBBR t\<close>) the
  status reads of any valid blocks report success, except the one with number \<open>t\<close>, which reports
  the power loss (the bad block).
\<close>

theorem fault_fires_once:
  assumes "mtd_inv m" "\<forall>b \<in> set bs. valid_block b"
  shows "(\<exists>m'. status_reads bs (MTD_TestPLR t m) = Some (map (\<lambda>i. if i = unat t
      then STATUS_SimulatedPowerLoss else STATUS_SUCCESS) [0..<length bs], m')) \<and>
    (\<exists>m'. status_reads bs (MTD_TestBBR t m) = Some (map (\<lambda>i. if i = unat t
      then STATUS_BADBLOCK else STATUS_SUCCESS) [0..<length bs], m'))"
proof -
  have "mtd_inv (MTD_TestPLR t m)" "mtd_inv (MTD_TestBBR t m)"
    using assms(1) mtd_inv_cong [of "MTD_TestPLR t m" m] mtd_inv_cong [of "MTD_TestBBR t m" m]
    by (simp_all add: MTD_TestPLR_def MTD_TestBBR_def)
  then show ?thesis
    using status_reads_armed [of "MTD_TestPLR t m" TEST_PLR t 0 bs]
      status_reads_armed [of "MTD_TestBBR t m" TEST_BBR t 0 bs] assms(2)
    by (simp add: fault_of_def MTD_TestPLR_def MTD_TestBBR_def cong: if_cong)
qed

theorem fault_fires_once_witness:
  "\<exists>m'. status_reads [0, 1, 2] (MTD_TestPLR 1 fresh_mtd) =
     Some ([STATUS_SUCCESS, STATUS_SimulatedPowerLoss, STATUS_SUCCESS], m')"
  using fault_fires_once [of fresh_mtd "[0, 1, 2]" 1] by (simp add: upt_rec_numeral)

section \<open>The page buffers\<close>

definition fresh_buf :: buf where
  "fresh_buf = \<lparr>pb_pool = replicate 18 (replicate 8192 0), pb_pool_used = replicate 18 True,
     sector_written = replicate 16 True, write_buffer = BufNull, merge_buffer = BufNull,
     buf_start_addr = 0, buf_end_addr = 0\<rparr>"

lemma fresh_buf_wf [simp]: "buf_wf fresh_buf"
  by (simp add: fresh_buf_def buf_wf_def cfg)

fun allocations :: "nat \<Rightarrow> buf \<Rightarrow> (buffer list \<times> buf) option" where
  "allocations 0 b = Some ([], b)"
| "allocations (Suc n) b = do {
     (p, b) \<leftarrow> BUF_Allocate b;
     (ps, b) \<leftarrow> allocations n b;
     Some (p # ps, b) }"

lemma allocations_distinct:
  assumes "buf_wf b" "card (buf_used b) + n \<le> BUFFER_COUNT"
  shows "\<exists>ks b'. allocations n b = Some (map BufPool ks, b') \<and> buf_wf b' \<and> distinct ks \<and>
    set ks \<inter> buf_used b = {} \<and> set ks \<subseteq> {..<BUFFER_COUNT} \<and> buf_used b' = buf_used b \<union> set ks \<and> length ks = n"
  using assms
proof (induction n arbitrary: b)
  case 0
  then show ?case by (intro exI [of _ "[]"] exI [of _ b]) auto
next
  case (Suc n)
  have "buf_used b \<noteq> {..<BUFFER_COUNT}"
  proof
    assume "buf_used b = {..<BUFFER_COUNT}"
    then have "card (buf_used b) = BUFFER_COUNT" by simp
    then show False using Suc.prems(2) by simp
  qed
  then obtain k b1 where k: "k < BUFFER_COUNT" "k \<notin> buf_used b" "BUF_Allocate b = Some (BufPool k, b1)"
      "buf_wf b1" "buf_used b1 = insert k (buf_used b)"
    using buf_pool.alloc_cases [OF Suc.prems(1)] by blast
  have fin: "finite (buf_used b)"
    using buf_pool.used_bound [OF Suc.prems(1)] finite_subset by auto
  have "card (buf_used b1) + n \<le> BUFFER_COUNT" using Suc.prems(2) k fin by simp
  from Suc.IH [OF k(4) this] obtain ks b' where ks: "allocations n b1 = Some (map BufPool ks, b')"
      "buf_wf b'" "distinct ks" "set ks \<inter> buf_used b1 = {}" "set ks \<subseteq> {..<BUFFER_COUNT}"
      "buf_used b' = buf_used b1 \<union> set ks" "length ks = n"
    by auto
  then show ?case
    using k by (intro exI [of _ "k # ks"] exI [of _ b']) auto
qed

text \<open>
  C15: The page buffers are handed out once: after \<open>BUF_Init\<close> (which takes the write buffer) each
  of the next \<open>BUFFER_COUNT - 1\<close> allocations returns another buffer, none of them the write buffer,
  and the allocation after these returns null and changes nothing.
\<close>

theorem buffers_exhausted:
  assumes "buf_wf b"
  shows "\<exists>k b0 ks b1. BUF_Init b = Some b0 \<and> write_buffer b0 = BufPool k \<and>
    allocations (BUFFER_COUNT - 1) b0 = Some (map BufPool ks, b1) \<and> distinct (k # ks) \<and>
    set (k # ks) = {..<BUFFER_COUNT} \<and> BUF_Allocate b1 = Some (BufNull, b1)"
proof -
  obtain bi where bi: "buf_wf bi" "buf_used bi = {}"
      "BUF_Init b = map_option (\<lambda>(p, b). b\<lparr>write_buffer := p, merge_buffer := BufNull\<rparr>) (BUF_Allocate bi)"
    using Init_allocate [OF assms] by blast
  have "0 \<in> {..<BUFFER_COUNT}" by (simp add: cfg)
  then have "buf_used bi \<noteq> {..<BUFFER_COUNT}" using bi(2) by blast
  then obtain k b1 where k: "k < BUFFER_COUNT" "BUF_Allocate bi = Some (BufPool k, b1)" "buf_wf b1"
      "buf_used b1 = {k}"
    using buf_pool.alloc_cases [OF bi(1)] bi(2) by blast
  let ?b0 = "b1\<lparr>write_buffer := BufPool k, merge_buffer := BufNull\<rparr>"
  have b0: "buf_wf ?b0" "buf_used ?b0 = {k}" using k by (simp_all add: buf_wf_def buf_used_def)
  then obtain ks b2 where ks: "allocations (BUFFER_COUNT - 1) ?b0 = Some (map BufPool ks, b2)"
      "buf_wf b2" "distinct ks" "set ks \<inter> {k} = {}" "set ks \<subseteq> {..<BUFFER_COUNT}"
      "buf_used b2 = {k} \<union> set ks" "length ks = BUFFER_COUNT - 1"
    using allocations_distinct [of ?b0 "BUFFER_COUNT - 1"] by (auto simp: cfg)
  have d: "distinct (k # ks)" using ks by auto
  have full: "set (k # ks) = {..<BUFFER_COUNT}"
  proof (rule card_subset_eq)
    show "card (set (k # ks)) = card {..<BUFFER_COUNT}"
      using distinct_card [OF d] ks(7) by (simp add: cfg)
  qed (use ks k in auto)
  then have "buf_used b2 = {..<BUFFER_COUNT}" using ks(6) by simp
  then have "BUF_Allocate b2 = Some (BufNull, b2)"
    using buf_pool.alloc_cases [OF ks(2)] by auto
  moreover have "BUF_Init b = Some ?b0" using bi(3) k(2) by simp
  ultimately show ?thesis using ks(1) d full by auto
qed

theorem buffers_exhausted_witness:
  "\<exists>b0 ks b1. BUF_Init fresh_buf = Some b0 \<and> allocations (BUFFER_COUNT - 1) b0 = Some (map BufPool ks, b1) \<and>
     distinct ks \<and> BUF_Allocate b1 = Some (BufNull, b1)"
  using buffers_exhausted [OF fresh_buf_wf] by auto

text \<open>
  C16: A buffer is released only while it is in use: releasing it again does not return (the
  assertion of \<open>BUF_Free\<close>), no other buffer is touched, and the released buffer can be allocated again.
\<close>

theorem free_discipline:
  assumes "buf_wf b" "k < BUFFER_COUNT"
  shows "(k \<notin> buf_used b \<longrightarrow> BUF_Free (BufPool k) b = None) \<and>
    (k \<in> buf_used b \<longrightarrow> (\<exists>b1. BUF_Free (BufPool k) b = Some b1 \<and> buf_wf b1 \<and>
      buf_used b1 = buf_used b - {k} \<and> pb_pool b1 = pb_pool b \<and> BUF_Free (BufPool k) b1 = None \<and>
      (\<exists>i b2. BUF_Allocate b1 = Some (BufPool i, b2) \<and> i \<notin> buf_used b1)))"
proof (cases "k \<in> buf_used b")
  case False
  then show ?thesis using buf_pool.free_unused [OF assms(1,2)] by simp
next
  case True
  obtain b1 where b1: "BUF_Free (BufPool k) b = Some b1" "buf_wf b1" "buf_used b1 = buf_used b - {k}"
    using buf_pool.free_used [OF assms(1) True] by blast
  have "buf_used b1 \<noteq> {..<BUFFER_COUNT}" using b1(3) assms(2) by auto
  then obtain i b2 where "BUF_Allocate b1 = Some (BufPool i, b2)" "i \<notin> buf_used b1"
    using buf_pool.alloc_cases [OF b1(2)] by auto
  moreover have "BUF_Free (BufPool k) b1 = None"
    using buf_pool.free_unused [OF b1(2) assms(2)] b1(3) by simp
  moreover have "pb_pool b1 = pb_pool b" using b1(1) Free_pool [OF assms] True by auto
  ultimately show ?thesis using True b1 by auto
qed

theorem free_discipline_witness:
  "\<exists>b1. BUF_Free (BufPool 5) fresh_buf = Some b1 \<and> BUF_Free (BufPool 5) b1 = None"
proof -
  have "5 \<in> buf_used fresh_buf" by (simp add: buf_used_def fresh_buf_def cfg)
  then show ?thesis using free_discipline [OF fresh_buf_wf, of 5] by (auto simp: cfg)
qed

text \<open>
  C5: Sectors gathered in the write buffer: storing a sector opens the window of its page (if none
  is open), puts the data at its place in the page of the write buffer and marks it as written.  The
  state afterwards is the old one with the window, that mark and that page changed: the other sectors
  of the page, the other pages of the pool, which buffers are in use, and which are the write and the
  merge buffer stay as they were.  An address outside the open window does not return.
\<close>

theorem gather_sectors:
  assumes "buf_wf b" "write_buffer b = BufPool k" "k < BUFFER_COUNT" "length sector = SECTOR_SIZE"
  shows "(window b addr \<longrightarrow> (\<exists>mem b'. BUF_PutSector addr sector b = Some b' \<and> buf_wf b' \<and> length mem = MPP_SIZE \<and>
      b' = b\<lparr>pb_pool := (pb_pool b)[k := mem], buf_start_addr := addr AND NOT 15, buf_end_addr := addr OR 15,
        sector_written := (sector_written b)[unat addr mod 16 := True]\<rparr> \<and>
      (\<forall>i < 16. buffered_sector b' i =
         (if i = unat addr mod 16 then Some sector else buffered_sector b i)))) \<and>
    (buf_end_addr b \<noteq> INVALID_LSADDR \<and> \<not> (buf_start_addr b \<le> addr \<and> addr \<le> buf_end_addr b) \<longrightarrow>
      BUF_PutSector addr sector b = None)"
proof -
  have "BUF_PutSector addr sector b = None"
    if "buf_end_addr b \<noteq> INVALID_LSADDR" "\<not> (buf_start_addr b \<le> addr \<and> addr \<le> buf_end_addr b)"
    using PutSector_outside [OF that(1)] that(2) by (simp add: not_le)
  then show ?thesis using PutSector_spec [OF assms(1-4)] unfolding put_state_def by blast
qed

text \<open>The second sector of a window: the first one, the marks and the other buffers stay.\<close>

theorem gather_sectors_witness:
  "\<exists>mem b'. BUF_PutSector 35 (replicate 512 7)
      (fresh_buf\<lparr>write_buffer := BufPool 2, buf_start_addr := 32, buf_end_addr := 47\<rparr>) = Some b' \<and>
    b' = fresh_buf\<lparr>write_buffer := BufPool 2, buf_start_addr := 32, buf_end_addr := 47,
      pb_pool := (replicate 18 (replicate 8192 0))[2 := mem]\<rparr> \<and>
    buffered_sector b' 3 = Some (replicate 512 7) \<and> buffered_sector b' 4 = Some (replicate 512 0) \<and>
    BUF_PutSector 48 (replicate 512 7) (fresh_buf\<lparr>write_buffer := BufPool 2, buf_start_addr := 32, buf_end_addr := 47\<rparr>) = None"
proof -
  let ?b = "fresh_buf\<lparr>write_buffer := BufPool 2, buf_start_addr := 32, buf_end_addr := 47\<rparr>"
  have wf: "buf_wf ?b" using fresh_buf_wf by (simp add: buf_wf_def)
  have pre: "write_buffer ?b = BufPool 2" "2 < BUFFER_COUNT" "length (replicate 512 7 :: u8 list) = SECTOR_SIZE"
    "window ?b 35" "buf_end_addr ?b \<noteq> INVALID_LSADDR" by (simp_all add: window_def cfg sentinel_defs)
  obtain mem where mem: "BUF_PutSector 35 (replicate 512 7) ?b = Some (?b\<lparr>pb_pool := (pb_pool ?b)[2 := mem], buf_start_addr := 35 AND NOT 15,
      buf_end_addr := 35 OR 15, sector_written := (sector_written ?b)[unat (35 :: u32) mod 16 := True]\<rparr>)"
    "\<forall>i < 16. buffered_sector (?b\<lparr>pb_pool := (pb_pool ?b)[2 := mem], buf_start_addr := 35 AND NOT 15,
      buf_end_addr := 35 OR 15, sector_written := (sector_written ?b)[unat (35 :: u32) mod 16 := True]\<rparr>) i =
      (if i = unat (35 :: u32) mod 16 then Some (replicate 512 7) else buffered_sector ?b i)"
    using gather_sectors [OF wf pre(1-3), of 35] pre(4) by blast
  have old: "buffered_sector ?b 4 = Some (replicate 512 0)"
    by (simp add: buffered_sector_def buf_contents_def rd_def fresh_buf_def memget_def cfg)
  have marks: "(sector_written ?b)[unat (35 :: u32) mod 16 := True] = sector_written ?b"
    by (simp add: fresh_buf_def list_update_same_conv)
  have state: "?b\<lparr>pb_pool := (pb_pool ?b)[2 := mem], buf_start_addr := 35 AND NOT 15,
      buf_end_addr := 35 OR 15, sector_written := (sector_written ?b)[unat (35 :: u32) mod 16 := True]\<rparr> =
    ?b\<lparr>pb_pool := (replicate 18 (replicate 8192 0))[2 := mem]\<rparr>"
    unfolding marks by (simp add: fresh_buf_def)
  have "BUF_PutSector 48 (replicate 512 7) ?b = None"
    using gather_sectors [OF wf pre(1-3), of 48] pre(5) by simp
  then show ?thesis
    using mem [unfolded state] old by (intro exI [of _ mem]) (simp add: fresh_buf_def)
qed

end
