(* ===== verification/Ubi_Area.thy ===== *)
theory Ubi_Area
  imports Ubi_Index
begin

text \<open>
  The area tables (core/ubi/ubi_area.c), which map logical to physical blocks, and the writing of
  the index table (\<open>index_update\<close>, \<open>INDEX_Update_Commit\<close>, \<open>INDEX_Init\<close>, \<open>INDEX_Format\<close> of
  core/ubi/ubi_index.c), which calls them.
\<close>

section \<open>Reading an area table\<close>

definition AREA_Read :: "u32 \<Rightarrow> ubi \<Rightarrow> (STATUS \<times> ubi) option" where
  "AREA_Read area u = do {
     (ret, u) \<leftarrow>
       (if area \<noteq> cached_area_number u then do {
          ASSERT (area \<noteq> INVALID_AREA);
          block \<leftarrow> rd (area_index_table (index_table u)) (unat area);
          page \<leftarrow> rd (area_offset_table u) (unat area);
          ((ret, page, buffer), u) \<leftarrow> table_read block page (Some (area_bytes (cached_area_table u))) u;
          offs \<leftarrow> wr (area_offset_table u) (unat area) page;
          bytes \<leftarrow> buffer;
          Some (ret, u\<lparr>area_offset_table := offs, cached_area_table := area_of_bytes bytes\<rparr>) }
        else Some (STATUS_SUCCESS, u));
     Some (ret, u\<lparr>cached_area_number := (if ret = STATUS_SUCCESS then area else INVALID_AREA)\<rparr>) }"

definition AREA_Init :: "u32 \<Rightarrow> ubi \<Rightarrow> (STATUS \<times> ubi) option" where
  "AREA_Init area_index u = do {
     let u = u\<lparr>cached_area_number := INVALID_AREA\<rparr>;
     offs \<leftarrow> wr (area_offset_table u) (unat area_index) INVALID_PAGE;
     AREA_Read area_index (u\<lparr>area_offset_table := offs\<rparr>) }"

definition AREA_IsFull :: "u32 \<Rightarrow> ubi \<Rightarrow> (bool \<times> ubi) option" where
  "AREA_IsFull logical_block u = do {
     let area = AREA_INDEX logical_block;
     (status, u) \<leftarrow> AREA_Read area u;
     if status = STATUS_SUCCESS then do {
       off \<leftarrow> rd (area_offset_table u) (unat area);
       Some (off = PAGE_PER_PHY_BLOCK - 1, u) }
     else Some (False, u) }"

text \<open>The loop body of \<open>AREA_FindMinECBlock\<close>.\<close>

definition min_ec_step :: "AREA_BLOCK list \<Rightarrow> nat \<Rightarrow> nat \<Rightarrow> nat option" where
  "min_ec_step tbl i min_off = do {
     e \<leftarrow> rd tbl i;
     mn \<leftarrow> rd tbl min_off;
     Some (if physical_block_ec e < physical_block_ec mn then i else min_off) }"

text \<open>\<open>out\<close> is the content of the two output variables before the call.\<close>

definition AREA_FindMinECBlock :: "u32 \<Rightarrow> u32 \<times> u32 \<Rightarrow> ubi \<Rightarrow> ((u32 \<times> u32 \<times> u32) \<times> ubi) option" where
  "AREA_FindMinECBlock area out u = do {
     (status, u) \<leftarrow> AREA_Read area u;
     if status = STATUS_SUCCESS then do {
       k \<leftarrow> foldM (min_ec_step (cached_area_table u)) [0..<CFG_PHY_BLOCK_PER_AREA] 0;
       e \<leftarrow> rd (cached_area_table u) k;
       Some ((of_nat k, physical_block e, physical_block_ec e), u) }
     else Some ((0, out), u) }"

definition AREA_GetBlock :: "u32 \<Rightarrow> ubi \<Rightarrow> (u32 \<times> ubi) option" where
  "AREA_GetBlock logical_block u = do {
     let block = BLOCK_OFFSET_AREA logical_block;
     let area = AREA_INDEX logical_block;
     (status, u) \<leftarrow> AREA_Read area u;
     if status = STATUS_SUCCESS then do {
       e \<leftarrow> rd (cached_area_table u) (unat block);
       Some (physical_block e, u) }
     else Some (INVALID_BLOCK, u) }"

definition AREA_GetEC :: "u32 \<Rightarrow> ubi \<Rightarrow> (u32 \<times> ubi) option" where
  "AREA_GetEC logical_block u = do {
     let block = BLOCK_OFFSET_AREA logical_block;
     let area = AREA_INDEX logical_block;
     (status, u) \<leftarrow> AREA_Read area u;
     if status = STATUS_SUCCESS then do {
       e \<leftarrow> rd (cached_area_table u) (unat block);
       Some (physical_block_ec e, u) }
     else Some (INVALID_EC, u) }"

section \<open>Writing an area table\<close>

definition AREA_CheckUpdatePLR :: "u32 \<Rightarrow> u32 \<Rightarrow> u32 \<Rightarrow> ubi \<Rightarrow> (bool \<times> ubi) option" where
  "AREA_CheckUpdatePLR logical_block origin_block block_ec u = do {
     let block_offset = BLOCK_OFFSET_AREA logical_block;
     e \<leftarrow> rd (cached_area_table u) (unat block_offset);
     if physical_block e = origin_block \<and> physical_block_ec e = block_ec then Some (False, u)
     else do {
       tbl \<leftarrow> wr (cached_area_table u) (unat block_offset)
         \<lparr>physical_block = origin_block, physical_block_ec = block_ec\<rparr>;
       Some (True, u\<lparr>cached_area_table := tbl\<rparr>) } }"

definition AREA_Update :: "u32 \<Rightarrow> u32 \<Rightarrow> u32 \<Rightarrow> ubi \<Rightarrow> (STATUS \<times> ubi) option" where
  "AREA_Update logical_block new_origin_block new_origin_ec u = do {
     let block = BLOCK_OFFSET_AREA logical_block;
     let area = AREA_INDEX logical_block;
     let page = INVALID_PAGE;
     (ret, u) \<leftarrow> AREA_Read area u;
     (ret, page, u) \<leftarrow>
       (if ret = STATUS_SUCCESS then do {
          u \<leftarrow> (if new_origin_block \<noteq> INVALID_BLOCK then do {
                 tbl \<leftarrow> wr (cached_area_table u) (unat block)
                   \<lparr>physical_block = new_origin_block, physical_block_ec = new_origin_ec\<rparr>;
                 Some (u\<lparr>cached_area_table := tbl\<rparr>) }
               else Some u);
          off \<leftarrow> rd (area_offset_table u) (unat area);
          let page = (off + 1) mod PAGE_PER_PHY_BLOCK;
          area_block \<leftarrow> rd (area_index_table (index_table u)) (unat area);
          (ret, u) \<leftarrow> table_write area_block page (area_bytes (cached_area_table u)) u;
          Some (ret, page, u) }
        else Some (ret, page, u));
     if ret = STATUS_SUCCESS then do {
       ASSERT (page \<noteq> INVALID_PAGE);
       offs \<leftarrow> wr (area_offset_table u) (unat area) page;
       Some (ret, u\<lparr>area_offset_table := offs\<rparr>) }
     else if ret = STATUS_BADBLOCK then do {
       offs \<leftarrow> wr (area_offset_table u) (unat area) (PAGE_PER_PHY_BLOCK - 1);
       ects \<leftarrow> wr (area_index_ect (index_table u)) (unat area) INVALID_EC;
       Some (ret, u\<lparr>area_offset_table := offs,
         index_table := (index_table u)\<lparr>area_index_ect := ects\<rparr>\<rparr>) }
     else Some (ret, u) }"

section \<open>Formatting an area\<close>

text \<open>
  The loop over candidate blocks.  \<open>i\<close> counts the good blocks found, \<open>b\<close> is the current block;
  the loop ends when the area is full or the device is exhausted.
\<close>

function area_format_loop :: "nat \<Rightarrow> u32 \<Rightarrow> nat \<Rightarrow> STATUS \<Rightarrow> ubi \<Rightarrow> ((STATUS \<times> u32) \<times> ubi) option" where
  "area_format_loop block_count b i ret u =
     (if i < block_count \<and> b < CFG_LOG_BLOCK_COUNT then do {
        (ret, u) \<leftarrow> erase_good b u;
        if ret = STATUS_SUCCESS then do {
          tbl \<leftarrow> wr (cached_area_table u) i \<lparr>physical_block = b, physical_block_ec = 0\<rparr>;
          area_format_loop block_count (b + 1) (i + 1) ret (u\<lparr>cached_area_table := tbl\<rparr>) }
        else area_format_loop block_count (b + 1) i ret u }
      else Some ((ret, b), u))"
  by pat_completeness auto
termination
  by (relation "measure (\<lambda>(n, b, i, ret, u). 1024 - unat b)")
    (auto simp: cfg unat_plus_1 word_less_nat_alt)

declare area_format_loop.simps [simp del]

partial_function (option) skip_bad :: "u32 \<Rightarrow> ubi \<Rightarrow> u32 option" where
  "skip_bad b u = do {
     bad \<leftarrow> ANCHOR_IsBadBlock b u;
     if bad then skip_bad (b + 1) u else Some b }"

definition AREA_Format :: "u32 \<Rightarrow> u32 \<Rightarrow> u32 \<Rightarrow> ubi \<Rightarrow> (u32 \<times> ubi) option" where
  "AREA_Format block_count fmt_current_block area u = do {
     let u = u\<lparr>cached_area_table := area_of_bytes (replicate MPP_SIZE 0xff)\<rparr>;
     ((ret, b), u) \<leftarrow> area_format_loop (unat block_count) fmt_current_block 0 STATUS_SUCCESS u;
     tbl \<leftarrow> foldM (\<lambda>i t. wr t i \<lparr>physical_block = INVALID_BLOCK, physical_block_ec = INVALID_EC\<rparr>)
       [unat block_count..<CFG_PHY_BLOCK_PER_AREA] (cached_area_table u);
     let u = u\<lparr>cached_area_table := tbl\<rparr>;
     (ret, b, u) \<leftarrow>
       (if ret = STATUS_SUCCESS then do {
          b \<leftarrow> skip_bad b u;
          (ret, u) \<leftarrow> on_mtd (MTD_Erase b) u;
          Some (ret, b, u) }
        else Some (ret, b, u));
     (ret, u) \<leftarrow> (if ret = STATUS_SUCCESS then table_write b 0 (area_bytes (cached_area_table u)) u
                 else Some (ret, u));
     if ret = STATUS_SUCCESS then do {
       bs \<leftarrow> wr (area_index_table (index_table u)) (unat area) b;
       es \<leftarrow> wr (area_index_ect (index_table u)) (unat area) 0;
       offs \<leftarrow> wr (area_offset_table u) (unat area) 0;
       Some (b + 1, u\<lparr>index_table := (index_table u)\<lparr>area_index_table := bs, area_index_ect := es\<rparr>,
         area_offset_table := offs\<rparr>) }
     else do {
       u \<leftarrow> ANCHOR_LogBadBlock b u;
       Some (INVALID_BLOCK, u) } }"

section \<open>Writing the index table\<close>

definition index_update :: "ubi \<Rightarrow> (STATUS \<times> ubi) option" where
  "index_update u = do {
     (ret, u) \<leftarrow>
       (if index_next_page u = PAGE_PER_PHY_BLOCK then do {
          ((ret, free_block, ec), u) \<leftarrow> INDEX_FreeBlock_Get (index_block u) (stack_word u) u;
          (ret, u) \<leftarrow> (if ret = STATUS_SUCCESS
             then ANCHOR_Update (ANCHOR_IndexReclaim (index_block u) (index_block_ec u) free_block ec u)
             else Some (ret, u));
          if ret = STATUS_SUCCESS then do {
            u \<leftarrow> on_index (INDEX_FreeBlock_Put (index_block u) (index_block_ec u)) u;
            Some (ret, u\<lparr>index_block := free_block, index_next_page := 0, index_block_ec := ec\<rparr>) }
          else Some (ret, u) }
        else Some (STATUS_SUCCESS, u));
     (ret, u) \<leftarrow> (if ret = STATUS_SUCCESS
        then table_write (index_block u) (index_next_page u) (index_bytes (index_table u)) u
        else Some (ret, u));
     Some (ret,
       if ret = STATUS_SUCCESS then u\<lparr>index_next_page := index_next_page u + 1\<rparr>
       else if ret = STATUS_BADBLOCK
       then u\<lparr>index_next_page := PAGE_PER_PHY_BLOCK, index_block_ec := INVALID_EC\<rparr>
       else u) }"

text \<open>One pass of the loop of \<open>INDEX_Update_Commit\<close>; \<open>area_reclaim\<close> survives into the next pass.\<close>

definition index_commit_pass :: "bool \<Rightarrow> ubi \<Rightarrow> ((STATUS \<times> bool) \<times> ubi) option" where
  "index_commit_pass area_reclaim u =
     (if is_updating_area u then do {
        let plr = area_update_plr (index_table u);
        let logical_block = area_updating_logical_block plr;
        (full, u) \<leftarrow> AREA_IsFull logical_block u;
        ((ret, area_reclaim), u) \<leftarrow>
          (if full then do {
             let area = AREA_INDEX logical_block;
             area_block \<leftarrow> rd (area_index_table (index_table u)) (unat area);
             ((ret, new_area_block, new_area_ec), u) \<leftarrow>
               INDEX_FreeBlock_Get area_block (stack_word u) u;
             if ret = STATUS_SUCCESS then do {
               u \<leftarrow> on_index (INDEX_Update_AreaReclaim area new_area_block new_area_ec) u;
               Some ((ret, True), u) }
             else Some ((ret, area_reclaim), u) }
           else do {
             (ret, u) \<leftarrow> index_update u;
             Some ((ret, area_reclaim), u) });
        (ret, u) \<leftarrow>
          (if ret = STATUS_SUCCESS then do {
             (ret, u) \<leftarrow> AREA_Update logical_block (area_updating_physical_block plr)
               (area_updating_block_ec plr) u;
             if ret = STATUS_SUCCESS \<and> area_reclaim then index_update u else Some (ret, u) }
           else Some (ret, u));
        Some ((ret, area_reclaim),
          if ret = STATUS_SUCCESS then u\<lparr>is_updating_area := False\<rparr> else u) }
      else do {
        (ret, u) \<leftarrow> index_update u;
        Some ((ret, area_reclaim), u) })"

partial_function (option) index_commit_loop :: "bool \<Rightarrow> ubi \<Rightarrow> (STATUS \<times> ubi) option" where
  "index_commit_loop area_reclaim u = do {
     ((ret, area_reclaim), u) \<leftarrow> index_commit_pass area_reclaim u;
     if ret = STATUS_BADBLOCK then index_commit_loop area_reclaim u else Some (ret, u) }"

definition INDEX_Update_Commit :: "ubi \<Rightarrow> (STATUS \<times> ubi) option" where
  "INDEX_Update_Commit u = index_commit_loop False u"

section \<open>Starting and formatting the index\<close>

definition INDEX_Init :: "ubi \<Rightarrow> ((STATUS \<times> u32 \<times> u32 \<times> u32) \<times> ubi) option" where
  "INDEX_Init u = do {
     let u = u\<lparr>is_updating_area := False\<rparr>;
     ASSERT (index_new_block (anchor_table u) \<noteq> INVALID_BLOCK);
     ((ret, page_offset, buffer), u) \<leftarrow> table_read (index_new_block (anchor_table u)) INVALID_OFFSET
       (Some (index_bytes (index_table u))) u;
     bytes \<leftarrow> buffer;
     let u = u\<lparr>index_table := index_of_bytes bytes\<rparr>;
     (ret, u) \<leftarrow>
       (if ret = STATUS_SUCCESS then do {
          (_, u) \<leftarrow> index_update (u\<lparr>index_block := index_new_block (anchor_table u),
             index_block_ec := index_new_ec (anchor_table u), index_next_page := page_offset + 1\<rparr>);
          Some (ret, u) }
        else do {
          ASSERT (index_old_block (anchor_table u) \<noteq> INVALID_BLOCK);
          ((ret, page_offset, buffer), u) \<leftarrow> table_read (index_old_block (anchor_table u)) page_offset
            (Some (index_bytes (index_table u))) u;
          bytes \<leftarrow> buffer;
          let u = u\<lparr>index_table := index_of_bytes bytes\<rparr>;
          if ret = STATUS_SUCCESS then
            index_update (u\<lparr>index_block := index_old_block (anchor_table u),
               index_block_ec := index_old_ec (anchor_table u),
               index_next_page := PAGE_PER_PHY_BLOCK\<rparr>)
          else Some (ret, u) });
     let plr = area_update_plr (index_table u);
     Some ((ret, area_updating_logical_block plr, area_updating_physical_block plr,
       area_updating_block_ec plr), u) }"

text \<open>The loop body of \<open>INDEX_Format\<close>; the local \<open>index_block\<close> hides the static variable.\<close>

definition index_format_step ::
  "nat \<Rightarrow> (STATUS \<times> nat \<times> u32) \<times> ubi \<Rightarrow> ((STATUS \<times> nat \<times> u32) \<times> ubi) option" where
  "index_format_step b s = do {
     let ((ret, free_block_index, local_index_block), u) = s;
     (ret, u) \<leftarrow> erase_good (of_nat b) u;
     if ret = STATUS_SUCCESS then
       if local_index_block = INVALID_BLOCK then Some ((ret, free_block_index, of_nat b), u)
       else do {
         ASSERT (free_block_index < FREE_BLOCK_COUNT);
         u \<leftarrow> on_index (set_entry free_block_index (of_nat b, 0)) u;
         Some ((ret, free_block_index + 1, local_index_block), u) }
     else Some ((ret, free_block_index, local_index_block), u) }"

definition INDEX_Format :: "u32 \<Rightarrow> u32 \<Rightarrow> ubi \<Rightarrow> (u32 \<times> ubi) option" where
  "INDEX_Format total_block fmt_current_block u = do {
     let u = u\<lparr>index_table := (index_table u)\<lparr>area_update_plr :=
       \<lparr>area_updating_logical_block = INVALID_BLOCK, area_updating_physical_block = INVALID_BLOCK,
        area_updating_block_ec = INVALID_EC\<rparr>\<rparr>\<rparr>;
     ((ret, free_block_index, local_index_block), u) \<leftarrow>
       foldM index_format_step [unat fmt_current_block..<unat total_block]
         ((STATUS_SUCCESS, 0, INVALID_BLOCK), u);
     let fmt_current_block = max fmt_current_block total_block;
     u \<leftarrow> foldM (\<lambda>i. on_index (set_entry i (INVALID_BLOCK, INVALID_EC)))
       [free_block_index..<FREE_BLOCK_COUNT] u;
     ASSERT (local_index_block = INVALID_BLOCK \<longrightarrow> ret \<noteq> STATUS_SUCCESS);
     bad \<leftarrow> (if ret = STATUS_SUCCESS then ANCHOR_IsBadBlock local_index_block u else Some False);
     let ret = (if bad then STATUS_BADBLOCK else ret);
     (ret, u) \<leftarrow> (if ret = STATUS_SUCCESS then on_mtd (MTD_Erase local_index_block) u
                 else Some (ret, u));
     (ret, u) \<leftarrow> (if ret = STATUS_SUCCESS
        then table_write local_index_block 0 (index_bytes (index_table u)) u else Some (ret, u));
     if ret = STATUS_SUCCESS then
       Some (fmt_current_block, u\<lparr>anchor_table := (anchor_table u)\<lparr>
         index_new_block := local_index_block, index_new_ec := 0,
         index_old_block := INVALID_BLOCK, index_old_ec := INVALID_EC\<rparr>\<rparr>)
     else do {
       u \<leftarrow> ANCHOR_LogBadBlock local_index_block u;
       Some (INVALID_BLOCK, u) } }"

end
