(* ===== verification/Ubi_Api.thy ===== *)
theory Ubi_Api
  imports Ubi_Area
begin

text \<open>
  The interface of the block layer (core/ubi/ubi_api.c): logical blocks with bad-block
  replacement, pages held back until their die reports the status, and static wear levelling.
\<close>

section \<open>Helpers\<close>

definition held :: "nat \<Rightarrow> ubi \<Rightarrow> DIE_HOLD_PAGE option" where
  "held i u = rd (dice_hold u) i"

definition set_held :: "nat \<Rightarrow> DIE_HOLD_PAGE \<Rightarrow> ubi \<Rightarrow> ubi option" where
  "set_held i h u = do { hs \<leftarrow> wr (dice_hold u) i h; Some (u\<lparr>dice_hold := hs\<rparr>) }"

fun find_die_scan :: "nat list \<Rightarrow> u32 \<Rightarrow> DIE_HOLD_PAGE list \<Rightarrow> nat option" where
  "find_die_scan [] die_index hs = Some TOTAL_DIE_COUNT"
| "find_die_scan (i # is) die_index hs = do {
     h \<leftarrow> rd hs i;
     if dh_phy_block h \<noteq> INVALID_BLOCK \<and> drop_bit BLOCK_PER_PLANE_SHIFT (dh_phy_block h) = die_index
     then Some i else find_die_scan is die_index hs }"

definition ubi_find_die_buffer :: "u32 \<Rightarrow> ubi \<Rightarrow> nat option" where
  "ubi_find_die_buffer block u = do {
     i \<leftarrow> find_die_scan [0..<TOTAL_DIE_COUNT] (drop_bit BLOCK_PER_PLANE_SHIFT block) (dice_hold u);
     ASSERT (i \<noteq> TOTAL_DIE_COUNT);
     Some i }"

text \<open>
  The copy loop of \<open>ubi_reclaim_badblock\<close> and \<open>UBI_SWL\<close>: the status of the read is ignored, the
  first page that does not program ends the loop.
\<close>

fun copy_pages :: "nat list \<Rightarrow> u32 \<Rightarrow> u32 \<Rightarrow> SPARE option \<Rightarrow> ubi \<Rightarrow> (STATUS \<times> ubi) option" where
  "copy_pages [] src dst spare u = Some (STATUS_SUCCESS, u)"
| "copy_pages (i # is) src dst spare u = do {
     ((_, buffer, spare), u) \<leftarrow> on_mtd (MTD_Read src (of_nat i) (Some (tmp_data_buffer u)) spare) u;
     tmp \<leftarrow> buffer;
     let u = u\<lparr>tmp_data_buffer := tmp\<rparr>;
     (ret, u) \<leftarrow> on_mtd (MTD_Program dst (of_nat i) (Some tmp) spare) u;
     (ret, u) \<leftarrow> (if ret = STATUS_SUCCESS then on_mtd (MTD_WaitReady dst) u else Some (ret, u));
     if ret \<noteq> STATUS_SUCCESS then Some (ret, u) else copy_pages is src dst spare u }"

definition ubi_reclaim_badblock ::
  "u32 \<Rightarrow> u32 \<Rightarrow> u32 \<Rightarrow> u32 \<Rightarrow> ubi \<Rightarrow> ((STATUS \<times> u32 \<times> u32) \<times> ubi) option" where
  "ubi_reclaim_badblock log_block phy_block phy_block_ec bad_page u = do {
     let junk = stack_word u;
     ((ret, new_block, new_ec), u) \<leftarrow> INDEX_FreeBlock_Get phy_block junk u;
     (ret, u) \<leftarrow> (if ret = STATUS_SUCCESS
        then copy_pages [0..<unat bad_page] phy_block new_block (Some (junk, junk)) u
        else Some (ret, u));
     (ret, u) \<leftarrow> (if ret = STATUS_SUCCESS then do {
          u \<leftarrow> on_index (INDEX_FreeBlock_Put phy_block (phy_block_ec + STATIC_WL_THRESHOLD)) u;
          u \<leftarrow> INDEX_Update_AreaUpdate log_block new_block new_ec u;
          INDEX_Update_Commit u }
        else Some (ret, u));
     Some (if ret = STATUS_SUCCESS then (ret, new_block, new_ec)
           else (ret, INVALID_BLOCK, INVALID_EC), u) }"

section \<open>Format and start-up\<close>

definition format_probe :: "nat \<Rightarrow> ubi \<Rightarrow> ubi option" where
  "format_probe b u = do {
     let block = of_nat b;
     (ret, u) \<leftarrow> on_mtd (MTD_CheckBlock block) u;
     (ret, u) \<leftarrow> (if ret = STATUS_SUCCESS then on_mtd (MTD_Erase block) u else Some (ret, u));
     if ret \<noteq> STATUS_SUCCESS then ANCHOR_LogBadBlock block u else Some u }"

text \<open>The loop over the areas; the result is the next block (or \<open>INVALID_BLOCK\<close>) and the total.\<close>

partial_function (option) format_areas :: "u32 \<Rightarrow> u32 \<Rightarrow> u32 \<Rightarrow> ubi \<Rightarrow> ((u32 \<times> u32) \<times> ubi) option" where
  "format_areas fmt_current_block area tot u = do {
     ASSERT (fmt_current_block < DATA_BLOCK_COUNT);
     let block_count = min (DATA_BLOCK_COUNT - fmt_current_block) (of_nat CFG_PHY_BLOCK_PER_AREA);
     (fmt_current_block, u) \<leftarrow> AREA_Format block_count fmt_current_block area u;
     if fmt_current_block \<noteq> INVALID_BLOCK then
       if fmt_current_block < DATA_BLOCK_COUNT
       then format_areas fmt_current_block (area + 1) (tot + block_count) u
       else Some ((fmt_current_block, tot + block_count), u)
     else Some ((fmt_current_block, tot), u) }"

definition UBI_Format :: "ubi \<Rightarrow> (STATUS \<times> ubi) option" where
  "UBI_Format u = do {
     (ret, u) \<leftarrow> ANCHOR_Init u;
     u \<leftarrow> (if ret \<noteq> STATUS_SUCCESS then foldM format_probe [0..<CFG_LOG_BLOCK_COUNT] u else Some u);
     ((fmt_current_block, tot), u) \<leftarrow> format_areas DATA_FIRST_BLOCK 0 0 u;
     (fmt_current_block, u) \<leftarrow>
       (if fmt_current_block \<noteq> INVALID_BLOCK
        then INDEX_Format CFG_LOG_BLOCK_COUNT fmt_current_block u
        else Some (fmt_current_block, u));
     if fmt_current_block \<noteq> INVALID_BLOCK then do {
       ASSERT (fmt_current_block = CFG_LOG_BLOCK_COUNT);
       ANCHOR_Format tot u }
     else do {
       (_, u) \<leftarrow> ANCHOR_Format INVALID_BLOCK u;
       Some (STATUS_UBI_FORMAT_ERROR, u) } }"

fun init_areas :: "nat list \<Rightarrow> u32 \<times> u32 \<times> u32 \<Rightarrow> ubi \<Rightarrow> (STATUS \<times> ubi) option" where
  "init_areas [] plr u = Some (STATUS_SUCCESS, u)"
| "init_areas (a # rest) plr u = do {
     let (logical_block, origin_block, block_ec) = plr;
     let updating_area =
       (if logical_block \<noteq> INVALID_BLOCK then AREA_INDEX logical_block else INVALID_AREA);
     (ret, u) \<leftarrow> AREA_Init (of_nat a) u;
     if ret = STATUS_SUCCESS then do {
       (ret, u) \<leftarrow>
         (if of_nat a = updating_area then do {
            (need_plr, u) \<leftarrow> AREA_CheckUpdatePLR logical_block origin_block block_ec u;
            if need_plr then do {
              u \<leftarrow> INDEX_Update_AreaUpdate logical_block origin_block block_ec u;
              INDEX_Update_Commit u }
            else Some (ret, u) }
          else Some (ret, u));
       if rest = [] then Some (ret, u) else init_areas rest plr u }
     else Some (ret, u) }"

definition UBI_Init :: "ubi \<Rightarrow> (STATUS \<times> ubi) option" where
  "UBI_Init u = do {
     (ret, u) \<leftarrow> ANCHOR_Init u;
     ((ret, plr), u) \<leftarrow>
       (if ret = STATUS_SUCCESS then INDEX_Init u
        else Some ((ret, INVALID_BLOCK, INVALID_BLOCK, INVALID_EC), u));
     (ret, u) \<leftarrow> (if ret = STATUS_SUCCESS then init_areas [0..<AREA_COUNT] plr u else Some (ret, u));
     u \<leftarrow> (if ret = STATUS_SUCCESS
           then foldM (\<lambda>die u. do {
                  h \<leftarrow> held die u;
                  set_held die (h\<lparr>dh_phy_block := INVALID_BLOCK\<rparr>) u }) [0..<TOTAL_DIE_COUNT] u
           else Some u);
     Some (ret, u) }"

section \<open>Reading\<close>

definition UBI_Read :: "u32 \<Rightarrow> u32 \<Rightarrow> u8 list option \<Rightarrow> SPARE option \<Rightarrow> ubi \<Rightarrow>
    ((STATUS \<times> u8 list option \<times> SPARE option) \<times> ubi) option" where
  "UBI_Read block page buffer spare u =
     (if block \<noteq> INVALID_BLOCK \<and> page \<noteq> INVALID_PAGE then do {
        (phy_block, u) \<leftarrow> AREA_GetBlock block u;
        ASSERT (phy_block \<noteq> INVALID_BLOCK);
        on_mtd (MTD_Read phy_block page buffer spare) u }
      else do {
        ASSERT (block = INVALID_BLOCK \<and> page = INVALID_PAGE);
        mem \<leftarrow> buffer;
        mem \<leftarrow> memcpy_at mem 0 (replicate MPP_SIZE 0);
        Some ((STATUS_SUCCESS, Some mem, spare), u) })"

definition UBI_ReadStatus :: "u32 \<Rightarrow> ubi \<Rightarrow> (STATUS \<times> ubi) option" where
  "UBI_ReadStatus block u = do {
     (phy_block, u) \<leftarrow> AREA_GetBlock block u;
     ASSERT (phy_block \<noteq> INVALID_BLOCK);
     on_mtd (MTD_ReadStatus phy_block) u }"

section \<open>Writing\<close>

definition program_buffer :: "u32 \<Rightarrow> u32 \<Rightarrow> buffer \<Rightarrow> SPARE option \<Rightarrow> ubi \<Rightarrow> (STATUS \<times> ubi) option" where
  "program_buffer block page p spare u =
     on_mtd (MTD_Program block page (buf_contents (buf_of u) p) spare) u"

text \<open>The loop that replaces the block of the page held back when its program failed.\<close>

partial_function (option) write_settle :: "u32 \<Rightarrow> STATUS \<Rightarrow> nat \<Rightarrow> ubi \<Rightarrow> ((STATUS \<times> nat) \<times> ubi) option" where
  "write_settle phy_block ret die_index u =
     (if ret = STATUS_BADBLOCK then do {
        die_index \<leftarrow> ubi_find_die_buffer phy_block u;
        h \<leftarrow> held die_index u;
        ASSERT (dh_phy_block h \<noteq> INVALID_BLOCK);
        ((ret, new_phy_block, new_ec), u) \<leftarrow>
          ubi_reclaim_badblock (dh_log_block h) (dh_phy_block h) (dh_ec h) (dh_page h) u;
        h \<leftarrow> held die_index u;
        (ret, u) \<leftarrow>
          (if ret = STATUS_SUCCESS \<and> dh_phy_block h \<noteq> INVALID_BLOCK then do {
             u \<leftarrow> set_held die_index (h\<lparr>dh_phy_block := new_phy_block, dh_ec := new_ec\<rparr>) u;
             program_buffer new_phy_block (dh_page h) (dh_buffer h) (Some (dh_spare h)) u }
           else Some (ret, u));
        (ret, u) \<leftarrow> (if ret = STATUS_SUCCESS then on_mtd (MTD_WaitReady new_phy_block) u
                    else Some (ret, u));
        write_settle phy_block ret die_index u }
      else Some ((ret, die_index), u))"

partial_function (option) write_sync :: "u32 \<Rightarrow> u32 \<Rightarrow> u32 \<Rightarrow> u32 \<Rightarrow> buffer \<Rightarrow> SPARE option \<Rightarrow> STATUS \<Rightarrow>
    ubi \<Rightarrow> (STATUS \<times> ubi) option" where
  "write_sync block phy_block phy_block_ec page p spare ret u =
     (if ret = STATUS_BADBLOCK then do {
        ((ret, new_phy_block, new_ec), u) \<leftarrow>
          ubi_reclaim_badblock block phy_block phy_block_ec page u;
        (ret, u) \<leftarrow> (if ret = STATUS_SUCCESS then program_buffer new_phy_block page p spare u
                    else Some (ret, u));
        (ret, u) \<leftarrow> (if ret = STATUS_SUCCESS then on_mtd (MTD_WaitReady new_phy_block) u
                    else Some (ret, u));
        write_sync block phy_block phy_block_ec page p spare ret u }
      else Some (ret, u))"

text \<open>The release of the page held back.\<close>

definition write_release :: "STATUS \<Rightarrow> nat \<Rightarrow> ubi \<Rightarrow> ubi option" where
  "write_release ret die_index u = do {
     h \<leftarrow> held die_index u;
     if ret = STATUS_SUCCESS \<and> dh_phy_block h \<noteq> INVALID_BLOCK then do {
       ASSERT (dh_buffer h \<noteq> BufNull);
       u \<leftarrow> on_buf (BUF_Free (dh_buffer h)) u;
       set_held die_index (h\<lparr>dh_buffer := BufNull, dh_phy_block := INVALID_BLOCK\<rparr>) u }
     else Some u }"

definition UBI_Write :: "u32 \<Rightarrow> u32 \<Rightarrow> buffer \<Rightarrow> SPARE option \<Rightarrow> bool \<Rightarrow> ubi \<Rightarrow> (STATUS \<times> ubi) option" where
  "UBI_Write block page p spare async u = do {
     (phy_block, u) \<leftarrow> AREA_GetBlock block u;
     (phy_block_ec, u) \<leftarrow> AREA_GetEC block u;
     ASSERT (phy_block \<noteq> INVALID_BLOCK);
     (ret, u) \<leftarrow> on_mtd (MTD_WaitReady phy_block) u;
     ((ret, die_index), u) \<leftarrow> write_settle phy_block ret 0 u;
     u \<leftarrow> write_release ret die_index u;
     if ret = STATUS_SUCCESS \<and> page \<noteq> INVALID_PAGE then do {
       ASSERT (p \<noteq> BufNull);
       (ret, u) \<leftarrow> program_buffer phy_block page p spare u;
       if ret = STATUS_SUCCESS then
         if \<not> async then do {
           (ret, u) \<leftarrow> on_mtd (MTD_WaitReady phy_block) u;
           (ret, u) \<leftarrow> write_sync block phy_block phy_block_ec page p spare ret u;
           ASSERT (ret = STATUS_SUCCESS);
           u \<leftarrow> on_buf (BUF_Free p) u;
           Some (ret, u) }
         else do {
           sp \<leftarrow> spare;
           u \<leftarrow> set_held die_index \<lparr>dh_log_block = block, dh_phy_block = phy_block,
             dh_ec = phy_block_ec, dh_page = page, dh_buffer = p, dh_spare = sp\<rparr> u;
           Some (ret, u) }
       else Some (ret, u) }
     else Some (ret, u) }"

definition flush_step :: "nat \<Rightarrow> STATUS \<times> ubi \<Rightarrow> (STATUS \<times> ubi) option" where
  "flush_step i s = do {
     let (ret, u) = s;
     if ret = STATUS_SUCCESS then do {
       h \<leftarrow> held i u;
       UBI_Write (dh_log_block h) INVALID_PAGE BufNull None True u }
     else Some (ret, u) }"

definition UBI_Flush :: "ubi \<Rightarrow> (STATUS \<times> ubi) option" where
  "UBI_Flush u = foldM flush_step [0..<TOTAL_DIE_COUNT] (STATUS_SUCCESS, u)"

definition UBI_Erase :: "u32 \<Rightarrow> u32 \<Rightarrow> ubi \<Rightarrow> (STATUS \<times> ubi) option" where
  "UBI_Erase block die_index u = do {
     let die = die_index mod TOTAL_DIE_COUNT;
     h \<leftarrow> held (unat die) u;
     (ret, u) \<leftarrow> UBI_Write (dh_log_block h) INVALID_PAGE BufNull None True u;
     ((ret, phy_block, ec), u) \<leftarrow>
       (if ret = STATUS_SUCCESS then INDEX_FreeBlock_Get (die_index mod TOTAL_DIE_COUNT) INVALID_EC u
        else Some ((ret, INVALID_BLOCK, INVALID_EC), u));
     if ret = STATUS_SUCCESS then do {
       ASSERT (block \<noteq> INVALID_BLOCK \<and> ec \<noteq> INVALID_EC);
       (old_block, u) \<leftarrow> AREA_GetBlock block u;
       (old_ec, u) \<leftarrow> AREA_GetEC block u;
       u \<leftarrow> on_index (INDEX_FreeBlock_Put old_block old_ec) u;
       u \<leftarrow> INDEX_Update_AreaUpdate block phy_block ec u;
       INDEX_Update_Commit u }
     else Some (ret, u) }"

section \<open>Static wear levelling\<close>

definition swl_required :: "u32 \<times> u32 \<Rightarrow> u32 \<times> u32 \<Rightarrow> bool" where
  "swl_required mx mn \<longleftrightarrow>
     (let (max_block, max_ec) = mx; (min_block, min_ec) = mn in
      max_block \<noteq> min_block \<and> max_block \<noteq> INVALID_BLOCK \<and> min_block \<noteq> INVALID_BLOCK \<and>
      max_ec \<noteq> INVALID_EC \<and> min_ec \<noteq> INVALID_EC \<and> max_ec > min_ec \<and>
      max_ec - min_ec > STATIC_WL_THRESHOLD)"

definition UBI_SWL :: "ubi \<Rightarrow> (STATUS \<times> ubi) option" where
  "UBI_SWL u = do {
     let junk = stack_word u;
     ((min_offset, min_block, min_ec), u) \<leftarrow>
       AREA_FindMinECBlock (swl_current_area (anchor_table u)) (junk, junk) u;
     (max_block, max_ec) \<leftarrow> INDEX_FreeBlock_GetMaxECBlock (junk, junk) (index_table u);
     if swl_required (max_block, max_ec) (min_block, min_ec) then do {
       (ret, u) \<leftarrow> on_mtd (MTD_Erase max_block) u;
       (ret, u) \<leftarrow> (if ret = STATUS_SUCCESS
          then copy_pages [0..<PAGE_PER_PHY_BLOCK] min_block max_block (Some (junk, junk)) u
          else Some (ret, u));
       if ret = STATUS_SUCCESS then do {
         let logical_block =
           swl_current_area (anchor_table u) * of_nat CFG_PHY_BLOCK_PER_AREA + min_offset;
         u \<leftarrow> INDEX_Update_AreaUpdate logical_block max_block max_ec u;
         u \<leftarrow> on_index (INDEX_FreeBlock_SwapMaxECBlock min_block min_ec) u;
         INDEX_Update_Commit u }
       else Some (ret, u) }
     else Some (STATUS_SUCCESS, u\<lparr>anchor_table := (anchor_table u)\<lparr>swl_current_area :=
       (swl_current_area (anchor_table u) + 1) mod of_nat AREA_COUNT\<rparr>\<rparr>) }"

end
