(* ===== verification/Ftl_Types.thy ===== *)
theory Ftl_Types
  imports Ubi_Api
begin

text \<open>
  The data of the translation layer: node addresses, the root table and the state of core/ftl
  (core/ftl/ftl_inc.h and the static variables of the ftl files).
\<close>

section \<open>Node addresses\<close>

text \<open>
  A node address is either \<open>((block * 32 + page) << 2) + 1\<close>, a place in flash, or the address of a
  cached node (bit 0 clear, bit 1 set when dirty).
\<close>

definition PM_NODE_IS_CACHED :: "u32 \<Rightarrow> bool" where
  "PM_NODE_IS_CACHED p \<longleftrightarrow> p AND 1 = 0"
definition PM_NODE_IS_DIRTY :: "u32 \<Rightarrow> bool" where
  "PM_NODE_IS_DIRTY p \<longleftrightarrow> p AND 2 \<noteq> 0"
definition PM_NODE_ADDRESS :: "u32 \<Rightarrow> u32" where
  "PM_NODE_ADDRESS p = p AND NOT 3"
definition PM_NODE_BLOCK :: "u32 \<Rightarrow> u32" where
  "PM_NODE_BLOCK p = drop_bit PAGE_PER_BLOCK_SHIFT (drop_bit 2 p)"
definition PM_NODE_PAGE :: "u32 \<Rightarrow> u32" where
  "PM_NODE_PAGE p = drop_bit 2 p AND (push_bit PAGE_PER_BLOCK_SHIFT 1 - 1)"
definition PM_NODE_SET_DIRTY :: "u32 \<Rightarrow> u32" where
  "PM_NODE_SET_DIRTY p = p OR 2"
definition PM_NODE_SET_BLOCKPAGE :: "u32 \<Rightarrow> u32 \<Rightarrow> u32" where
  "PM_NODE_SET_BLOCKPAGE blk page = push_bit 2 (push_bit PAGE_PER_BLOCK_SHIFT blk + page) + 1"
definition INVALID_PM_NODE :: u32 where "INVALID_PM_NODE = -1"

section \<open>Layout\<close>

definition JOURNAL_BLOCK_COUNT :: nat where "JOURNAL_BLOCK_COUNT = TOTAL_DIE_COUNT"
definition PM_PER_NODE :: nat where "PM_PER_NODE = MPP_SIZE div 4"
definition CLUSTER_INDEX :: "u32 \<Rightarrow> nat" where "CLUSTER_INDEX pa = unat pa div PM_PER_NODE"
definition PAGE_IN_CLUSTER :: "u32 \<Rightarrow> nat" where "PAGE_IN_CLUSTER pa = unat pa mod PM_PER_NODE"
definition BDT_BLOCK0 :: u32 where "BDT_BLOCK0 = 0"
definition ROOT_BLOCK0 :: u32 where "ROOT_BLOCK0 = 2"
definition ROOT_BLOCK1 :: u32 where "ROOT_BLOCK1 = 3"
definition HDI_BLOCK0 :: u32 where "HDI_BLOCK0 = 4"
definition PMT_START_BLOCK :: nat where "PMT_START_BLOCK = 6"
definition PMT_BLOCK_COUNT :: nat where
  "PMT_BLOCK_COUNT = (CFG_LOG_BLOCK_COUNT + PM_PER_NODE - 1) div PM_PER_NODE * 5"
definition DATA_START_BLOCK :: nat where "DATA_START_BLOCK = PMT_START_BLOCK + PMT_BLOCK_COUNT"
definition MAX_DIRTY_PAGES :: nat where "MAX_DIRTY_PAGES = PAGE_PER_PHY_BLOCK - 1"
definition MAX_PM_CLUSTERS :: nat where
  "MAX_PM_CLUSTERS = MPP_SIZE div 4 - (JOURNAL_BLOCK_COUNT * 3 + 6)"
definition BDT_PAGE_COUNT :: nat where
  "BDT_PAGE_COUNT = (CFG_LOG_BLOCK_COUNT + MPP_SIZE - 1) div MPP_SIZE"
definition HDI_FUNC_COUNT :: nat where "HDI_FUNC_COUNT = 4"
definition HDI_HOT_DATA_THERSHOLD :: u8 where "HDI_HOT_DATA_THERSHOLD = 0x60"
definition HDI_COLDDOWN_DELAY :: u32 where "HDI_COLDDOWN_DELAY = 0x1000"

lemma ftl_cfg [cfg]:
  "JOURNAL_BLOCK_COUNT = 8" "PM_PER_NODE = 2048" "PMT_START_BLOCK = 6" "PMT_BLOCK_COUNT = 5"
  "DATA_START_BLOCK = 11" "MAX_DIRTY_PAGES = 31" "MAX_PM_CLUSTERS = 2018" "BDT_PAGE_COUNT = 1"
  "HDI_FUNC_COUNT = 4"
  by (simp_all add: JOURNAL_BLOCK_COUNT_def PM_PER_NODE_def PMT_START_BLOCK_def
      PMT_BLOCK_COUNT_def DATA_START_BLOCK_def MAX_DIRTY_PAGES_def MAX_PM_CLUSTERS_def
      BDT_PAGE_COUNT_def HDI_FUNC_COUNT_def cfg)

section \<open>The root table\<close>

record ROOT =
  hot_journal :: "u32 list"
  cold_journal :: "u32 list"
  reclaim_journal :: "u32 list"
  pmt_current_block :: u32
  pmt_reclaim_block :: u32
  hdi_current_journal :: u32
  bdt_current_journal :: u32
  root_current_journal :: u32
  root_edition :: u32
  page_mapping_nodes :: "u32 list"

definition root_words :: "ROOT \<Rightarrow> u32 list" where
  "root_words t = hot_journal t @ cold_journal t @ reclaim_journal t @
     [pmt_current_block t, pmt_reclaim_block t, hdi_current_journal t, bdt_current_journal t,
      root_current_journal t, root_edition t] @ page_mapping_nodes t"

definition root_of_words :: "u32 list \<Rightarrow> ROOT" where
  "root_of_words ws = (let j = JOURNAL_BLOCK_COUNT; vs = drop (3 * j) ws in
     \<lparr>hot_journal = take j ws, cold_journal = take j (drop j ws),
      reclaim_journal = take j (drop (2 * j) ws), pmt_current_block = vs ! 0,
      pmt_reclaim_block = vs ! 1, hdi_current_journal = vs ! 2, bdt_current_journal = vs ! 3,
      root_current_journal = vs ! 4, root_edition = vs ! 5, page_mapping_nodes = drop 6 vs\<rparr>)"

definition root_bytes :: "ROOT \<Rightarrow> u8 list" where
  "root_bytes t = bytes_of_u32s (root_words t)"

definition root_of_bytes :: "u8 list \<Rightarrow> ROOT" where
  "root_of_bytes bs = root_of_words (u32s_of_bytes bs)"

definition root_wf :: "ROOT \<Rightarrow> bool" where
  "root_wf t \<longleftrightarrow> length (hot_journal t) = JOURNAL_BLOCK_COUNT \<and>
     length (cold_journal t) = JOURNAL_BLOCK_COUNT \<and>
     length (reclaim_journal t) = JOURNAL_BLOCK_COUNT \<and>
     length (page_mapping_nodes t) = MAX_PM_CLUSTERS"

lemma root_of_words_words: "root_wf t \<Longrightarrow> root_of_words (root_words t) = t"
  by (simp add: root_of_words_def root_words_def root_wf_def Let_def cfg)

lemma length_root_words: "root_wf t \<Longrightarrow> length (root_words t) = 2048"
  by (simp add: root_words_def root_wf_def cfg)

lemma root_words_of_words:
  assumes "length ws = 2048"
  shows "root_words (root_of_words ws) = ws"
proof -
  let ?vs = "drop 24 ws"
  have "?vs = take 6 ?vs @ drop 6 ?vs" by (simp only: append_take_drop_id)
  moreover have "take 6 ?vs = [?vs ! 0, ?vs ! 1, ?vs ! 2, ?vs ! 3, ?vs ! 4, ?vs ! 5]"
    using assms by (simp add: list_eq_iff_nth_eq less_Suc_eq eval_nat_numeral)
  ultimately have v: "[?vs ! 0, ?vs ! 1, ?vs ! 2, ?vs ! 3, ?vs ! 4, ?vs ! 5] @ drop 6 ?vs = ?vs" by metis
  have "ws = take 8 ws @ take 8 (drop 8 ws) @ take 8 (drop 16 ws) @ ?vs"
    using append_take_drop_id [of 8 ws] append_take_drop_id [of 8 "drop 8 ws"] append_take_drop_id [of 8 "drop 16 ws"] by simp
  then show ?thesis
    using v by (simp add: root_words_def root_of_words_def Let_def cfg)
qed

interpretation root_codec: table_codec root_wf root_bytes root_of_bytes
proof unfold_locales
  show "\<And>t. root_wf t \<Longrightarrow> length (root_bytes t) = MPP_SIZE"
    by (simp add: root_bytes_def length_root_words cfg)
  show "\<And>t. root_wf t \<Longrightarrow> root_of_bytes (root_bytes t) = t"
    by (simp add: root_bytes_def root_of_bytes_def root_of_words_words)
  show "\<And>bs. length bs = MPP_SIZE \<Longrightarrow> root_wf (root_of_bytes bs)"
    by (simp add: root_wf_def root_of_bytes_def root_of_words_def Let_def cfg)
  show "\<And>bs. length bs = MPP_SIZE \<Longrightarrow> root_bytes (root_of_bytes bs) = bs"
    by (simp add: root_bytes_def root_of_bytes_def root_words_of_words bytes_of_u32s_of_bytes cfg)
qed

section \<open>Spare areas as words\<close>

fun spare_words :: "SPARE list \<Rightarrow> u32 list" where
  "spare_words [] = []"
| "spare_words ((a, b) # sps) = a # b # spare_words sps"

fun spares_of_words :: "u32 list \<Rightarrow> SPARE list" where
  "spares_of_words (a # b # ws) = (a, b) # spares_of_words ws"
| "spares_of_words ws = []"

lemma length_spare_words [simp]: "length (spare_words sps) = 2 * length sps"
  by (induction sps rule: spare_words.induct) auto

lemma spares_of_spare_words: "spares_of_words (spare_words sps @ [w]) = sps"
  "spares_of_words (spare_words sps) = sps"
  by (induction sps rule: spare_words.induct) auto

section \<open>State\<close>

text \<open>
  \<open>pm_cache_base\<close> is the address of \<open>pm_node_caches\<close>; \<open>beyond\<close> is the memory that follows the
  static meta-data arrays, which are shorter than the page the code writes from them.
\<close>

record ftl =
  ubi_of :: ubi
  root_table :: ROOT
  root_current_block :: u32
  root_current_page :: u32
  root_edition_count :: u32
  block_dirty_table :: "u8 list"
  bdt_current_block :: u32
  bdt_current_page :: u32
  hdi_hash_table :: "u8 list"
  hdi_current_block :: u32
  hdi_current_page :: u32
  hdi_count :: u32
  pm_node_caches :: "u32 list list"
  pm_cache_origin_location :: "u32 list"
  pm_cache_cluster :: "u32 list"
  pmt_meta_data :: "u32 list"
  clusters :: "u32 list"
  pm_node_buffer :: "u8 list"
  edition_in_hot_journal :: u32
  edition_in_cold_journal :: u32
  hot_meta_data :: "SPARE list"
  cold_meta_data :: "SPARE list"
  pages_buffer :: "SPARE list"
  data_buffer :: "u8 list"
  dirty_blocks :: "u32 list"
  pm_cache_base :: u32
  beyond :: "u8 list"

definition on_ubi :: "(ubi \<Rightarrow> ('a \<times> ubi) option) \<Rightarrow> ftl \<Rightarrow> ('a \<times> ftl) option" where
  "on_ubi f s = do { (r, u) \<leftarrow> f (ubi_of s); Some (r, s\<lparr>ubi_of := u\<rparr>) }"

lemma on_ubi_Some: "f (ubi_of s) = Some (r, u) \<Longrightarrow> on_ubi f s = Some (r, s\<lparr>ubi_of := u\<rparr>)"
  by (simp add: on_ubi_def)

definition junk_word :: "ftl \<Rightarrow> u32" where
  "junk_word s = stack_word (ubi_of s)"

text \<open>A page written from an array that is shorter than a page: the bytes behind it follow.\<close>

definition overread :: "u32 list \<Rightarrow> ftl \<Rightarrow> u8 list" where
  "overread ws s = bytes_of_u32s ws @ beyond s"

definition set_root :: "(ROOT \<Rightarrow> ROOT) \<Rightarrow> ftl \<Rightarrow> ftl" where
  "set_root f s = s\<lparr>root_table := f (root_table s)\<rparr>"

definition get_node :: "nat \<Rightarrow> ftl \<Rightarrow> u32 option" where
  "get_node cluster s = rd (page_mapping_nodes (root_table s)) cluster"

definition set_node :: "nat \<Rightarrow> u32 \<Rightarrow> ftl \<Rightarrow> ftl option" where
  "set_node cluster p s = do {
     ns \<leftarrow> wr (page_mapping_nodes (root_table s)) cluster p;
     Some (set_root (\<lambda>r. r\<lparr>page_mapping_nodes := ns\<rparr>) s) }"

definition set_dirty_count :: "nat \<Rightarrow> u8 \<Rightarrow> ftl \<Rightarrow> ftl option" where
  "set_dirty_count block n s = do {
     t \<leftarrow> wr (block_dirty_table s) block n;
     Some (s\<lparr>block_dirty_table := t\<rparr>) }"

text \<open>\<open>block_dirty_table[block]++\<close> with the assertion that follows it.\<close>

definition inc_dirty_count :: "nat \<Rightarrow> ftl \<Rightarrow> ftl option" where
  "inc_dirty_count block s = do {
     n \<leftarrow> rd (block_dirty_table s) block;
     s \<leftarrow> set_dirty_count block (n + 1) s;
     ASSERT (unat (n + 1) \<le> MAX_DIRTY_PAGES);
     Some s }"

section \<open>Properties of node addresses\<close>

definition node_place :: "u32 \<Rightarrow> u32 \<Rightarrow> bool" where
  "node_place blk page \<longleftrightarrow> unat blk < 2 ^ 25 \<and> unat page < 32"

lemma unat_blockpage:
  assumes "node_place blk page"
  shows "unat (PM_NODE_SET_BLOCKPAGE blk page) = (unat blk * 32 + unat page) * 4 + 1"
proof -
  have b: "unat (push_bit 5 blk) = unat blk * 32"
    using assms unat_push_bit_u32 [of blk 5] by (simp add: node_place_def)
  have s: "unat (push_bit 5 blk + page) = unat blk * 32 + unat page"
    using assms b by (simp add: node_place_def unat_word_ariths)
  have "unat (push_bit 2 (push_bit 5 blk + page)) = (unat blk * 32 + unat page) * 4"
    using assms s unat_push_bit_u32 [of "push_bit 5 blk + page" 2] by (simp add: node_place_def)
  then show ?thesis
    using assms by (simp add: PM_NODE_SET_BLOCKPAGE_def shift_defs node_place_def unat_plus_1)
qed

lemma node_fields:
  assumes "node_place blk page"
  shows "PM_NODE_BLOCK (PM_NODE_SET_BLOCKPAGE blk page) = blk"
    and "PM_NODE_PAGE (PM_NODE_SET_BLOCKPAGE blk page) = page"
    and "\<not> PM_NODE_IS_CACHED (PM_NODE_SET_BLOCKPAGE blk page)"
proof -
  let ?p = "PM_NODE_SET_BLOCKPAGE blk page"
  have page: "unat page < 32" using assms by (simp add: node_place_def)
  have q: "unat (drop_bit 2 ?p) = unat blk * 32 + unat page"
    using unat_blockpage [OF assms] by (simp add: unat_drop_bit_u32)
  show "PM_NODE_BLOCK ?p = blk"
    using q page unat_drop_bit_u32 [of 5 "drop_bit 2 ?p"]
    by (simp add: PM_NODE_BLOCK_def shift_defs word_unat_eq_iff)
  have m: "push_bit 5 1 - 1 = (mask 5 :: u32)" by (simp add: mask_eq_exp_minus_1)
  have "PM_NODE_PAGE ?p = take_bit 5 (drop_bit 2 ?p)"
    unfolding PM_NODE_PAGE_def shift_defs m take_bit_eq_mask ..
  then show "PM_NODE_PAGE ?p = page"
    using q page unat_take_bit_u32 [of 5 "drop_bit 2 ?p"] by (simp add: word_unat_eq_iff)
  have "unat ?p = Suc (2 * ((unat blk * 32 + unat page) * 2))"
    using unat_blockpage [OF assms] by simp
  then obtain k where k: "unat ?p = Suc (2 * k)" by blast
  have "unat (?p AND 1) = unat ?p mod 2" by (simp add: and_one_eq unat_mod)
  also have "\<dots> = 1" unfolding k by simp
  finally show "\<not> PM_NODE_IS_CACHED ?p"
    by (auto simp: PM_NODE_IS_CACHED_def)
qed

end
