(* ===== verification/Anchor_Properties.thy ===== *)
theory Anchor_Properties
  imports Device_Properties Anchor_Safety Ftl_Types
begin

text \<open>
  The properties of the tables in flash and of the anchor, each applied to a concrete state of the
  block layer whose device is empty.
\<close>

section \<open>A concrete state\<close>

definition fresh_anchor :: ANCHOR_TABLE where
  "fresh_anchor = \<lparr>index_new_block = 8, index_new_ec = 0, index_old_block = INVALID_BLOCK,
     index_old_ec = INVALID_EC, previous_anchor_block = INVALID_BLOCK, total_data_block = 996,
     swl_current_area = 0, oath = ANCHOR_OATH @ [0], version = ANCHOR_VERSION,
     bad_block_table = replicate ANCHOR_BADBLOCK_COUNT INVALID_BLOCK\<rparr>"

definition fresh_index :: INDEX_TABLE where
  "fresh_index = \<lparr>area_index_table = replicate AREA_TABLE_SIZE INVALID_BLOCK,
     area_index_ect = replicate AREA_TABLE_SIZE INVALID_EC,
     free_block_table = [40, 41] @ replicate (FREE_BLOCK_COUNT - 2) INVALID_BLOCK,
     free_block_ect = [3, 5] @ replicate (FREE_BLOCK_COUNT - 2) INVALID_EC,
     area_update_plr = \<lparr>area_updating_logical_block = INVALID_BLOCK,
       area_updating_physical_block = INVALID_BLOCK, area_updating_block_ec = INVALID_EC\<rparr>,
     index_padding = \<lparr>area_updating_logical_block = INVALID_BLOCK,
       area_updating_physical_block = INVALID_BLOCK, area_updating_block_ec = INVALID_EC\<rparr>\<rparr>"

definition fresh_area :: "AREA_BLOCK list" where
  "fresh_area = replicate CFG_PHY_BLOCK_PER_AREA \<lparr>physical_block = INVALID_BLOCK, physical_block_ec = INVALID_EC\<rparr>"

definition fresh_ubi :: ubi where
  "fresh_ubi = \<lparr>mtd_of = fresh_mtd, buf_of = fresh_buf, anchor_table = fresh_anchor, anchor_block = 1,
     anchor_next_page = 0, index_table = fresh_index, index_block = 8, index_block_ec = 0,
     index_next_page = 0, is_updating_area = False, area_offset_table = replicate AREA_TABLE_SIZE INVALID_PAGE,
     cached_area_table = fresh_area, cached_area_number = INVALID_AREA,
     dice_hold = [], tmp_data_buffer = replicate 8192 0, stack_word = 77\<rparr>"

lemma fresh_logs [simp]: "table_log fresh_mtd b []"
  by (simp add: table_log_def)

lemma fresh_wf [simp]: "anchor_wf fresh_anchor" "index_wf fresh_index" "area_wf fresh_area"
  by (simp_all add: anchor_wf_def index_wf_def area_wf_def fresh_anchor_def fresh_index_def fresh_area_def
      ANCHOR_OATH_def cfg)

lemma fresh_fields [simp]: "mtd_of fresh_ubi = fresh_mtd" "anchor_table fresh_ubi = fresh_anchor"
  "anchor_block fresh_ubi = 1" "index_table fresh_ubi = fresh_index" "anchor_next_page fresh_ubi = 0"
  by (simp_all add: fresh_ubi_def)

lemma fresh_bad [simp]: "bad_wf fresh_ubi" "bad_blocks fresh_ubi = {}"
  by (auto simp: bad_wf_def bad_table_def bad_blocks_def fresh_ubi_def fresh_anchor_def intro: exI [of _ "[]"])

lemma fresh_anchor_state [simp]: "anchor_state fresh_ubi []"
  by (simp add: anchor_state_def anchor_region_def)

section \<open>Tables in flash\<close>

text \<open>
  The members of the four structures at their byte addresses, counted from the declarations of
  ubi_inc.h and ftl_inc.h: every member is a 32-bit word, but for the 12 bytes of \<open>oath\<close>.
\<close>

definition anchor_layout :: "ANCHOR_TABLE \<Rightarrow> u8 list \<Rightarrow> bool" where
  "anchor_layout a bs \<longleftrightarrow> length bs = 8192 \<and>
     word_at bs 0 = index_new_block a \<and> word_at bs 4 = index_new_ec a \<and> word_at bs 8 = index_old_block a \<and>
     word_at bs 12 = index_old_ec a \<and> word_at bs 16 = previous_anchor_block a \<and> word_at bs 20 = total_data_block a \<and>
     word_at bs 24 = swl_current_area a \<and> take 12 (drop 28 bs) = oath a \<and> word_at bs 40 = version a \<and>
     words_at bs 44 (bad_block_table a)"

definition index_layout :: "INDEX_TABLE \<Rightarrow> u8 list \<Rightarrow> bool" where
  "index_layout i bs \<longleftrightarrow> length bs = 8192 \<and>
     words_at bs 0 (area_index_table i) \<and> words_at bs 2048 (area_index_ect i) \<and>
     words_at bs 4096 (free_block_table i) \<and> words_at bs 6132 (free_block_ect i) \<and>
     word_at bs 8168 = area_updating_logical_block (area_update_plr i) \<and>
     word_at bs 8172 = area_updating_physical_block (area_update_plr i) \<and>
     word_at bs 8176 = area_updating_block_ec (area_update_plr i) \<and>
     word_at bs 8180 = area_updating_logical_block (index_padding i) \<and>
     word_at bs 8184 = area_updating_physical_block (index_padding i) \<and>
     word_at bs 8188 = area_updating_block_ec (index_padding i)"

definition area_layout :: "AREA_BLOCK list \<Rightarrow> u8 list \<Rightarrow> bool" where
  "area_layout e bs \<longleftrightarrow> length bs = 8192 \<and> (\<forall>j < length e.
     word_at bs (8 * j) = physical_block (e ! j) \<and> word_at bs (8 * j + 4) = physical_block_ec (e ! j))"

definition root_layout :: "ROOT \<Rightarrow> u8 list \<Rightarrow> bool" where
  "root_layout r bs \<longleftrightarrow> length bs = 8192 \<and>
     words_at bs 0 (hot_journal r) \<and> words_at bs 32 (cold_journal r) \<and> words_at bs 64 (reclaim_journal r) \<and>
     word_at bs 96 = pmt_current_block r \<and> word_at bs 100 = pmt_reclaim_block r \<and>
     word_at bs 104 = hdi_current_journal r \<and> word_at bs 108 = bdt_current_journal r \<and>
     word_at bs 112 = root_current_journal r \<and> word_at bs 116 = root_edition r \<and>
     words_at bs 120 (page_mapping_nodes r)"

lemma area_layoutD:
  assumes "area_layout e bs" "j < length e"
  shows "word_at bs (8 * j) = physical_block (e ! j)" "word_at bs (8 * j + 4) = physical_block_ec (e ! j)"
  using assms by (simp_all add: area_layout_def)

lemma words_at_Cons: "words_at bs k (w # ws) \<longleftrightarrow> word_at bs k = w \<and> words_at bs (k + 4) ws"
  unfolding words_at_def by (auto simp: less_Suc_eq_0_disj algebra_simps)

lemma words_at_Nil [simp]: "words_at bs k []"
  by (simp add: words_at_def)

lemma words_at_append: "words_at bs k (xs @ ys) \<longleftrightarrow> words_at bs k xs \<and> words_at bs (k + 4 * length xs) ys"
  by (induction xs arbitrary: k) (simp_all add: words_at_Cons algebra_simps)

lemma anchor_laid_out:
  assumes wf: "anchor_wf a"
  shows "anchor_layout a (anchor_bytes a)"
proof -
  let ?ws = "[index_new_block a, index_new_ec a, index_old_block a, index_old_ec a, previous_anchor_block a, total_data_block a,
    swl_current_area a]" and ?vs = "version a # bad_block_table a"
  have l: "length (oath a) = 12" using wf by (simp add: anchor_wf_def)
  have b: "anchor_bytes a = bytes_of_u32s ?ws @ oath a @ bytes_of_u32s ?vs" by (rule anchor_bytes_def)
  have "words_at (anchor_bytes a) 0 ?ws"
    unfolding b by (rule words_at_prefix [OF words_at_front]) simp
  moreover have "words_at (anchor_bytes a) 40 ?vs"
    using words_at_shift [of 40 "bytes_of_u32s ?ws @ oath a" 0 "bytes_of_u32s ?vs" ?vs] words_at_front [of ?vs] l
    unfolding b append_assoc by (simp del: bytes_of_u32s.simps)
  moreover have "take 12 (drop 28 (anchor_bytes a)) = oath a"
    using l by (simp add: b del: bytes_of_u32s.simps)
  moreover have "length (anchor_bytes a) = 8192" using anchor_codec.length_enc [OF wf] by (simp add: cfg)
  ultimately show ?thesis by (simp add: anchor_layout_def words_at_Cons)
qed

lemma index_laid_out:
  assumes wf: "index_wf i"
  shows "index_layout i (index_bytes i)"
proof -
  have "words_at (index_bytes i) 0 (area_index_table i @ area_index_ect i @ free_block_table i @ free_block_ect i @
      plr_words (area_update_plr i) @ plr_words (index_padding i))"
    unfolding index_bytes_def by (rule words_at_front)
  moreover have "length (index_bytes i) = 8192" using index_codec.length_enc [OF wf] by (simp add: cfg)
  ultimately show ?thesis
    using wf by (simp add: index_layout_def index_wf_def words_at_append words_at_Cons plr_words_def cfg)
qed

lemma area_word_pairs: "j < length e \<Longrightarrow> area_words e ! (2 * j) = physical_block (e ! j) \<and> area_words e ! Suc (2 * j) = physical_block_ec (e ! j)"
  by (induction e arbitrary: j) (auto simp: nth_Cons split: nat.splits)

lemma area_laid_out:
  assumes wf: "area_wf e"
  shows "area_layout e (area_bytes e)"
proof -
  have "word_at (area_bytes e) (8 * j) = physical_block (e ! j) \<and> word_at (area_bytes e) (8 * j + 4) = physical_block_ec (e ! j)"
    if j: "j < length e" for j
    using word_at_words [of "2 * j" "area_words e"] word_at_words [of "Suc (2 * j)" "area_words e"] area_word_pairs [OF j] j
    by (simp add: area_bytes_def algebra_simps)
  then show ?thesis using area_codec.length_enc [OF wf] by (simp add: area_layout_def cfg)
qed

lemma root_laid_out:
  assumes wf: "root_wf r"
  shows "root_layout r (root_bytes r)"
proof -
  have "words_at (root_bytes r) 0 (root_words r)" unfolding root_bytes_def by (rule words_at_front)
  moreover have "length (root_bytes r) = 8192" using root_codec.length_enc [OF wf] by (simp add: cfg)
  ultimately show ?thesis
    using wf by (simp add: root_layout_def root_words_def root_wf_def words_at_append words_at_Cons cfg)
qed

text \<open>
  C14: The tables in flash are the C structures.  Each of the four tables fills exactly one page with
  every member at the byte address that its declaration gives it, and the table that is read from a
  page is determined by the same addresses: what is decoded from a table's page is the table, and
  every page is the layout of the table decoded from it, so that copying the bytes copies the table.
\<close>

theorem table_layouts:
  assumes "anchor_wf a" "index_wf i" "area_wf e" "root_wf r" "length bs = MPP_SIZE"
  shows "anchor_layout a (anchor_bytes a) \<and> index_layout i (index_bytes i) \<and> area_layout e (area_bytes e) \<and>
      root_layout r (root_bytes r) \<and>
    anchor_of_bytes (anchor_bytes a) = a \<and> index_of_bytes (index_bytes i) = i \<and> area_of_bytes (area_bytes e) = e \<and>
      root_of_bytes (root_bytes r) = r \<and>
    anchor_layout (anchor_of_bytes bs) bs \<and> index_layout (index_of_bytes bs) bs \<and> area_layout (area_of_bytes bs) bs \<and>
      root_layout (root_of_bytes bs) bs"
proof -
  note wf = anchor_codec.wf_dec [OF assms(5)] index_codec.wf_dec [OF assms(5)] area_codec.wf_dec [OF assms(5)]
    root_codec.wf_dec [OF assms(5)]
  note page = anchor_codec.enc_dec [OF assms(5)] index_codec.enc_dec [OF assms(5)] area_codec.enc_dec [OF assms(5)]
    root_codec.enc_dec [OF assms(5)]
  show ?thesis
    using anchor_laid_out [OF assms(1)] index_laid_out [OF assms(2)] area_laid_out [OF assms(3)] root_laid_out [OF assms(4)]
      anchor_laid_out [OF wf(1)] index_laid_out [OF wf(2)] area_laid_out [OF wf(3)] root_laid_out [OF wf(4)]
      anchor_codec.dec_enc [OF assms(1)] index_codec.dec_enc [OF assms(2)] area_codec.dec_enc [OF assms(3)]
      root_codec.dec_enc [OF assms(4)]
    unfolding page by blast
qed

text \<open>All four tables with concrete contents, and a page of equal bytes read as each of them.\<close>

definition sample_root :: ROOT where
  "sample_root = \<lparr>hot_journal = [1, 2, 3, 4, 5, 6, 7, 8], cold_journal = replicate 8 9, reclaim_journal = replicate 8 10,
     pmt_current_block = 11, pmt_reclaim_block = 12, hdi_current_journal = 13, bdt_current_journal = 14,
     root_current_journal = 15, root_edition = 16, page_mapping_nodes = replicate 2018 17\<rparr>"

theorem table_layouts_witness:
  "length (anchor_bytes fresh_anchor) = 8192 \<and> word_at (anchor_bytes fresh_anchor) 0 = 8 \<and>
     word_at (anchor_bytes fresh_anchor) 20 = 996 \<and> word_at (anchor_bytes fresh_anchor) 40 = 123 \<and>
     anchor_of_bytes (anchor_bytes fresh_anchor) = fresh_anchor \<and>
   length (index_bytes fresh_index) = 8192 \<and> word_at (index_bytes fresh_index) 4096 = 40 \<and>
     word_at (index_bytes fresh_index) 6136 = 5 \<and> index_of_bytes (index_bytes fresh_index) = fresh_index \<and>
   length (area_bytes fresh_area) = 8192 \<and> word_at (area_bytes fresh_area) 8188 = INVALID_EC \<and>
     area_of_bytes (area_bytes fresh_area) = fresh_area \<and>
   length (root_bytes sample_root) = 8192 \<and> word_at (root_bytes sample_root) 28 = 8 \<and>
     word_at (root_bytes sample_root) 100 = 12 \<and> word_at (root_bytes sample_root) 8188 = 17 \<and>
     root_of_bytes (root_bytes sample_root) = sample_root \<and>
   version (anchor_of_bytes (replicate 8192 1)) = 0x01010101 \<and> root_edition (root_of_bytes (replicate 8192 1)) = 0x01010101"
proof -
  have r: "root_wf sample_root" by (simp add: root_wf_def sample_root_def cfg)
  have b: "length (replicate 8192 1 :: u8 list) = MPP_SIZE" by (simp add: cfg)
  note T = table_layouts [OF fresh_wf r b]
  have w: "word_at (replicate 8192 1) k = 0x01010101" if "k + 3 < 8192" for k
    using that by (simp add: word_at_def u32_of_4_def)
  have "words_at (index_bytes fresh_index) 4096 (free_block_table fresh_index)"
    "words_at (index_bytes fresh_index) 6132 (free_block_ect fresh_index)" using T by (simp_all add: index_layout_def)
  note I = words_atD [OF this(1), of 0] words_atD [OF this(2), of 1]
  have "area_layout fresh_area (area_bytes fresh_area)" using T by (rule conjunct1 [OF conjunct2 [OF conjunct2]])
  note E = area_layoutD [OF this, of 1023]
  have "words_at (root_bytes sample_root) 0 (hot_journal sample_root)"
    "words_at (root_bytes sample_root) 120 (page_mapping_nodes sample_root)" using T by (simp_all add: root_layout_def)
  note R = words_atD [OF this(1), of 7] words_atD [OF this(2), of 2017]
  show ?thesis
    using T I E R w [of 40] w [of 116]
    by (simp add: anchor_layout_def index_layout_def area_layout_def root_layout_def fresh_anchor_def fresh_index_def
        fresh_area_def sample_root_def ANCHOR_VERSION_def cfg)
qed

text \<open>The writes of a list of tables to the pages \<open>0, 1, \<dots>\<close> of a block.\<close>

fun write_tables :: "u32 \<Rightarrow> u32 \<Rightarrow> nat \<Rightarrow> u8 list list \<Rightarrow> mtd \<Rightarrow> mtd option" where
  "write_tables junk b n [] m = Some m"
| "write_tables junk b n (d # ds) m = do {
     (_, m) \<leftarrow> TABLE_Write junk b (of_nat n) d m;
     write_tables junk b (Suc n) ds m }"

lemma write_tables_put_all: "write_tables junk b n ds m = mtd_tables.put_all junk b n ds m"
  by (induction ds arbitrary: n m) (auto split: Option.bind_split)

text \<open>
  C6: A block is a log of tables: after writing any one to 32 tables to an erased block in order, the
  binary search of \<open>TABLE_Read\<close> returns the last one and its page number; on an erased block the
  read of page 0 fails.
\<close>

theorem last_table_found:
  assumes "mtd_inv m" "quiet m" "valid_block b" "table_log m b []"
    and "ds \<noteq> []" "length ds \<le> PAGE_PER_PHY_BLOCK" "\<forall>d \<in> set ds. length d = MPP_SIZE"
    and "length mem = MPP_SIZE"
  shows "(\<exists>m1 m2. write_tables junk b 0 ds m = Some m1 \<and> TABLE_Read junk b INVALID_PAGE (Some mem) m1 =
      Some ((STATUS_SUCCESS, of_nat (length ds - 1), Some (last ds)), m2)) \<and>
    (\<exists>m2. TABLE_Read junk b 0 None m = Some ((STATUS_FAILURE, INVALID_PAGE, None), m2))"
  using mtd_tables.get_after_put_all [OF assms, of junk] mtd_tables.get_none [OF assms(1,3,4), of junk]
  by (auto simp: write_tables_put_all)

theorem last_table_found_witness:
  "\<exists>m1 m2. write_tables 0 9 0 [replicate 8192 1, replicate 8192 2, replicate 8192 3] fresh_mtd = Some m1 \<and>
     TABLE_Read 0 9 INVALID_PAGE (Some (replicate 8192 0)) m1 =
       Some ((STATUS_SUCCESS, 2, Some (replicate 8192 3)), m2)"
proof -
  have "valid_block 9" by (simp add: valid_block_unat)
  then show ?thesis
    using last_table_found [of fresh_mtd 9 "[replicate 8192 1, replicate 8192 2, replicate 8192 3]"
        "replicate 8192 0" 0] by (simp add: cfg)
qed

section \<open>The bad-block log\<close>

text \<open>
  C13: The log of bad blocks is a set: after logging any blocks, in any order and with repetitions, as
  long as they fit, a block is reported bad exactly when it was logged before or is one of them.
\<close>

theorem bad_blocks_logged:
  assumes "bad_wf u" "INVALID_BLOCK \<notin> set xs" "card (bad_blocks u \<union> set xs) \<le> ANCHOR_BADBLOCK_COUNT"
    and "b \<noteq> INVALID_BLOCK"
  shows "\<exists>u'. foldM ANCHOR_LogBadBlock xs u = Some u' \<and>
    ANCHOR_IsBadBlock b u' = Some (b \<in> bad_blocks u \<or> b \<in> set xs)"
  using anchor_bads.record_list [OF assms(1-3)] anchor_bads.is_bad_ok [OF _ assms(4)] by fastforce

theorem bad_blocks_logged_witness:
  "\<exists>u'. foldM ANCHOR_LogBadBlock [30, 20, 30] fresh_ubi = Some u' \<and> ANCHOR_IsBadBlock 20 u' = Some True"
  using bad_blocks_logged [of fresh_ubi "[30, 20, 30]" 20]
  by (simp add: cfg INVALID_BLOCK_def card_insert_if del: foldM.simps)

section \<open>The anchor\<close>

text \<open>
  C1: The anchor survives power cycles: an update (an append, or a reclaim into another block when
  the current one is full) succeeds, and starting with any contents of the memory on the resulting
  device restores exactly the table, the block and the next page, so that the next update is possible.
\<close>

theorem anchor_power_cycle:
  assumes "anchor_state u ts" "anchor_alone u" "anchor_room u" "\<not> anchor_invalid (anchor_table u)"
    and "\<And>w. mtd_of (v w) = mtd_of w"
  shows "\<exists>u1 v1. ANCHOR_Update u = Some (STATUS_SUCCESS, u1) \<and>
    (\<exists>p. anchor_table u1 = (anchor_table u)\<lparr>previous_anchor_block := p\<rparr>) \<and>
    ANCHOR_Init (v u1) = Some (STATUS_SUCCESS, v1) \<and> anchor_table v1 = anchor_table u1 \<and>
    anchor_block v1 = anchor_block u1 \<and> anchor_next_page v1 = anchor_next_page u1 \<and> anchor_saved v1"
proof -
  obtain u1 p where u1: "ANCHOR_Update u = Some (STATUS_SUCCESS, u1)" "anchor_saved u1"
      "anchor_table u1 = (anchor_table u)\<lparr>previous_anchor_block := p\<rparr>"
    using Update_saved [OF assms(1-3)] by auto
  have valid: "\<not> anchor_invalid (anchor_table u1)"
    using assms(4) u1(3) by (simp add: anchor_invalid_def)
  obtain m where m: "ANCHOR_Init (v u1) = Some (STATUS_SUCCESS, (v u1)\<lparr>mtd_of := m,
        anchor_table := anchor_table u1, index_table := blank_index, anchor_block := anchor_block u1,
        anchor_next_page := anchor_next_page u1\<rparr>)"
      "mtd_inv m" "quiet m" "table_log m = table_log (mtd_of u1)"
    using Init_saved [OF u1(2) assms(5)] valid by auto
  let ?v1 = "(v u1)\<lparr>mtd_of := m, anchor_table := anchor_table u1, index_table := blank_index,
    anchor_block := anchor_block u1, anchor_next_page := anchor_next_page u1\<rparr>"
  have "bad_wf ?v1 = bad_wf u1" by (rule bad_blocks_table) simp
  then have "anchor_saved ?v1"
    using u1(2) m(2-4) by (auto simp: anchor_saved_def anchor_alone_def anchor_state_def)
  then show ?thesis using u1(1,3) m(1) by auto
qed

theorem anchor_power_cycle_witness:
  "\<exists>u1 v1. ANCHOR_Update fresh_ubi = Some (STATUS_SUCCESS, u1) \<and>
     ANCHOR_Init (fresh_ubi\<lparr>mtd_of := mtd_of u1, anchor_table := blank_anchor\<rparr>) = Some (STATUS_SUCCESS, v1) \<and>
     anchor_table v1 = anchor_table u1"
proof -
  have alone: "anchor_alone fresh_ubi" by (simp add: anchor_alone_def)
  have room: "anchor_room fresh_ubi"
    by (auto simp: anchor_room_def anchor_region_def intro: bexI [of _ 2])
  have valid: "\<not> anchor_invalid (anchor_table fresh_ubi)"
    by (simp add: anchor_invalid_def fresh_anchor_def ANCHOR_OATH_def cfg INVALID_BLOCK_def)
  show ?thesis
    using anchor_power_cycle [OF fresh_anchor_state alone room valid,
        of "\<lambda>w. fresh_ubi\<lparr>mtd_of := mtd_of w, anchor_table := blank_anchor\<rparr>"] by auto
qed

text \<open>
  C8: The search for the next anchor block: when another block of the region is good, one of those
  is returned, freshly erased, and nothing else is touched.  When there is none, the search comes
  round to the current block, which holds the only valid anchor, erases it, and only then reports
  the failure.
\<close>

theorem next_anchor_block:
  assumes "mtd_inv (mtd_of u)" "bad_wf u" "c \<in> set anchor_region" "c \<notin> bad_blocks u"
  shows "\<exists>r b u'. anchor_find_next_block c u = Some ((r, b), u') \<and> wiped b u u' \<and> b \<in> set anchor_region \<and>
    b \<notin> bad_blocks u \<and> (if \<exists>g \<in> set anchor_region. g \<noteq> c \<and> g \<notin> bad_blocks u
      then r = STATUS_SUCCESS \<and> b \<noteq> c else r = STATUS_FAILURE \<and> b = c)"
proof (cases "\<exists>g \<in> set anchor_region. g \<noteq> c \<and> g \<notin> bad_blocks u")
  case True
  then show ?thesis using find_next_good [OF assms(1-3) True] by auto
next
  case False
  then show ?thesis using find_next_none [OF assms] assms(3,4) by auto
qed

theorem next_anchor_block_witness:
  "\<exists>b u'. anchor_find_next_block 1 fresh_ubi = Some ((STATUS_SUCCESS, b), u') \<and> b \<noteq> 1"
proof -
  have "\<exists>g \<in> set anchor_region. g \<noteq> 1 \<and> g \<notin> bad_blocks fresh_ubi"
    by (auto simp: anchor_region_def intro: bexI [of _ 2])
  then show ?thesis
    using next_anchor_block [of fresh_ubi 1] by (auto simp: anchor_region_def)
qed

text \<open>
  C7: A power loss between the write of a new anchor block and the erase of the old one leaves two
  blocks with tables.  The next start keeps the newer block and erases the older one; but the table
  in memory is the one of the block with the higher number: when the newer block is the lower one
  (the region has wrapped around), the stale table of the erased block is used from then on.
\<close>

theorem two_anchor_blocks:
  assumes "mtd_inv (mtd_of u)" "quiet (mtd_of u)"
    and "lo \<in> set anchor_region" "hi \<in> set anchor_region" "lo < hi"
    and "table_log (mtd_of u) lo ts_lo" "ts_lo \<noteq> []" "table_log (mtd_of u) hi ts_hi" "ts_hi \<noteq> []"
    and "\<forall>d \<in> set anchor_region - {lo, hi}. table_log (mtd_of u) d []"
    and "(newer, older, ts_newer) = (if wrapped then (lo, hi, ts_lo) else (hi, lo, ts_hi))"
    and "previous_anchor_block (anchor_of_bytes (last ts_newer)) = older"
    and "wrapped \<or> previous_anchor_block (anchor_of_bytes (last ts_lo)) \<noteq> hi"
  shows "\<exists>r u'. ANCHOR_Init u = Some (r, u') \<and> anchor_block u' = newer \<and>
    anchor_next_page u' = of_nat (length ts_newer) \<and> table_log (mtd_of u') older [] \<and>
    table_log (mtd_of u') newer = table_log (mtd_of u) newer \<and>
    anchor_table u' = anchor_of_bytes (last ts_hi)"
proof -
  let ?first = "previous_anchor_block (anchor_of_bytes (last ts_lo)) = hi"
  have f: "?first = wrapped" using assms(11-13) by (auto split: if_splits)
  have "?first \<or> previous_anchor_block (anchor_of_bytes (last ts_hi)) = lo"
    using assms(11,12) f by (auto split: if_splits)
  from Init_two [OF assms(1-10) this] show ?thesis
    using assms(11) f by (cases wrapped) auto
qed

definition anchor_from :: "u32 \<Rightarrow> u8 list" where
  "anchor_from b = anchor_bytes (fresh_anchor\<lparr>previous_anchor_block := b\<rparr>)"

lemma anchor_from [simp]:
  "length (anchor_from b) = MPP_SIZE"
  "anchor_of_bytes (anchor_from b) = fresh_anchor\<lparr>previous_anchor_block := b\<rparr>"
proof -
  have "anchor_wf (fresh_anchor\<lparr>previous_anchor_block := b\<rparr>)" using fresh_wf(1) by (simp add: anchor_wf_def)
  then show "length (anchor_from b) = MPP_SIZE"
    "anchor_of_bytes (anchor_from b) = fresh_anchor\<lparr>previous_anchor_block := b\<rparr>"
    by (simp_all add: anchor_from_def anchor_codec.length_enc anchor_codec.dec_enc)
qed

text \<open>A device after such a power loss: block 6 was full of tables, block 1 has its successor.\<close>

lemma two_anchors_device:
  "\<exists>m. mtd_inv m \<and> quiet m \<and> table_log m 1 [anchor_from 6] \<and> table_log m 6 [anchor_from 5] \<and>
     (\<forall>d \<in> {2, 3, 4, 5}. table_log m d [])"
proof -
  have v: "valid_block d" if "d \<in> {1, 2, 3, 4, 5, 6}" for d
    using that by (auto simp: valid_block_unat)
  obtain m1 where m1: "mtd_inv m1" "quiet m1" "table_log m1 6 [anchor_from 5]"
      "\<forall>b ts. valid_block b \<longrightarrow> b \<noteq> 6 \<longrightarrow> table_log m1 b ts = table_log fresh_mtd b ts"
    using mtd_tables.put_append [of fresh_mtd 6 "[]" "anchor_from 5" 0] v by (auto simp: cfg)
  obtain m2 where m2: "mtd_inv m2" "quiet m2" "table_log m2 1 [anchor_from 6]"
      "\<forall>b ts. valid_block b \<longrightarrow> b \<noteq> 1 \<longrightarrow> table_log m2 b ts = table_log m1 b ts"
    using mtd_tables.put_append [of m1 1 "[]" "anchor_from 6" 0] v m1 by (auto simp: cfg)
  have "\<forall>d \<in> {2, 3, 4, 5}. table_log m2 d []" using m1(4) m2(4) v by simp
  moreover have "table_log m2 6 [anchor_from 5]" using m1(3) m2(4) v by simp
  ultimately show ?thesis using m2 by blast
qed

theorem two_anchor_blocks_witness:
  "\<exists>u r u'. ANCHOR_Init u = Some (r, u') \<and> anchor_block u' = 1 \<and> anchor_next_page u' = 1 \<and>
     table_log (mtd_of u') 1 [anchor_from 6] \<and> anchor_table u' = anchor_of_bytes (anchor_from 5)"
proof -
  obtain m where m: "mtd_inv m" "quiet m" "table_log m 1 [anchor_from 6]" "table_log m 6 [anchor_from 5]"
      "\<forall>d \<in> {2, 3, 4, 5}. table_log m d []"
    using two_anchors_device by blast
  let ?u = "fresh_ubi\<lparr>mtd_of := m\<rparr>"
  have "\<forall>d \<in> set anchor_region - {1, 6}. table_log (mtd_of ?u) d []"
    using m(5) by (auto simp: anchor_region_def)
  then have "\<exists>r u'. ANCHOR_Init ?u = Some (r, u') \<and> anchor_block u' = 1 \<and>
      anchor_next_page u' = of_nat (length [anchor_from 6]) \<and> table_log (mtd_of u') 6 [] \<and>
      table_log (mtd_of u') 1 = table_log (mtd_of ?u) 1 \<and>
      anchor_table u' = anchor_of_bytes (last [anchor_from 5])"
    by (rule two_anchor_blocks [of ?u 1 6 "[anchor_from 6]" "[anchor_from 5]" 1 6 "[anchor_from 6]" True,
        rotated 9]) (use m in \<open>simp_all add: anchor_region_def\<close>)
  then obtain r u' where "ANCHOR_Init ?u = Some (r, u')" "anchor_block u' = 1" "anchor_next_page u' = 1"
      "table_log (mtd_of u') 1 = table_log m 1" "anchor_table u' = anchor_of_bytes (anchor_from 5)"
    by auto
  then show ?thesis using m(3) by metis
qed

end
