(* ===== verification/Free_Block_Properties.thy ===== *)
theory Free_Block_Properties
  imports Free_Blocks Anchor_Properties
begin

text \<open>
  The properties of the free-block table: it is a pool of blocks ordered by erase count, of which
  the least worn block on a die is taken and into which static wear levelling exchanges blocks.
\<close>

section \<open>A concrete table\<close>

lemma fresh_pool: "free_pool fresh_index [(40, 3), (41, 5)]"
proof -
  have "entries fresh_index = [(40, 3), (41, 5)] @ replicate 507 (INVALID_BLOCK, INVALID_EC)"
    by (simp add: entries_def fresh_index_def cfg)
  then show ?thesis
    using fresh_wf(2)
    by (auto simp: free_pool_def INVALID_EC_def valid_block_unat)
qed

section \<open>Properties\<close>

text \<open>
  C4: Putting a block back keeps the pool ordered by erase count and adds exactly that block; a
  block without an erase count (one discarded after a failure) is not added.  Nothing but the
  entries changes.
\<close>

theorem put_keeps_pool:
  assumes "free_pool t fs" "length fs < FREE_BLOCK_COUNT - 1" "valid_block b"
  shows "\<exists>es fs'. INDEX_FreeBlock_Put b e t = Some (with_entries es t) \<and>
    free_pool (with_entries es t) fs' \<and> sorted (map snd fs') \<and>
    mset fs' = (if e = INVALID_EC then mset fs else add_mset (b, e) (mset fs))"
proof -
  let ?fs' = "if e = INVALID_EC then fs else insert_entry (b, e) fs"
  obtain es where es: "INDEX_FreeBlock_Put b e t = Some (with_entries es t)"
      "free_pool (with_entries es t) ?fs'"
    using pool_Put [OF assms] by blast
  have "sorted (map snd ?fs')" using es(2) unfolding free_pool_def by blast
  moreover have "mset ?fs' = (if e = INVALID_EC then mset fs else add_mset (b, e) (mset fs))"
    using mset_insert_entry by simp
  ultimately show ?thesis using es by blast
qed

theorem put_keeps_pool_witness:
  "\<exists>es fs'. INDEX_FreeBlock_Put 50 4 fresh_index = Some (with_entries es fresh_index) \<and>
    free_pool (with_entries es fresh_index) fs' \<and> mset fs' = {#(40, 3), (50, 4), (41, 5)#}"
proof -
  have "valid_block 50" by (simp add: valid_block_unat)
  then show ?thesis
    using put_keeps_pool [OF fresh_pool, of 50 4] by (auto simp: cfg INVALID_EC_def add_mset_commute)
qed

text \<open>
  C3: Taking a block returns the least worn block on the wanted die, or the least worn of all when
  the die has none; the block has been erased, its erase count is the recorded one plus one, it
  leaves the pool, and nothing else changes.  From an empty pool the call reports that there are
  too many bad blocks and changes nothing.
\<close>

theorem get_least_worn:
  assumes "mtd_inv (mtd_of u)" "free_pool (index_table u) fs" "bad_wf u"
  shows "(fs = [] \<longrightarrow> INDEX_FreeBlock_Get die ec u = Some ((STATUS_TOOMANY_BADBLOCK, INVALID_BLOCK, ec), u)) \<and>
    (fs \<noteq> [] \<longrightarrow> (\<exists>b e m' es fs'.
      INDEX_FreeBlock_Get die ec u = Some ((STATUS_SUCCESS, b, e + 1),
        u\<lparr>mtd_of := m', index_table := with_entries es (index_table u)\<rparr>) \<and>
      free_pool (with_entries es (index_table u)) fs' \<and> mset fs = add_mset (b, e) (mset fs') \<and>
      (if \<exists>x \<in> set fs. fst x mod TOTAL_DIE_COUNT = die mod TOTAL_DIE_COUNT
       then b mod TOTAL_DIE_COUNT = die mod TOTAL_DIE_COUNT \<and>
         (\<forall>x \<in> set fs. fst x mod TOTAL_DIE_COUNT = die mod TOTAL_DIE_COUNT \<longrightarrow> e \<le> snd x)
       else \<forall>x \<in> set fs. e \<le> snd x) \<and>
      mtd_inv m' \<and> page_wiped b (mtd_of u) m'))"
proof (cases "fs = []")
  case True
  then show ?thesis using pool_Get_empty [of u die ec] assms(2,3) by simp
next
  case False
  define i where "i = pool_pick (die mod TOTAL_DIE_COUNT) fs"
  obtain m' es where g: "INDEX_FreeBlock_Get die ec u = Some ((STATUS_SUCCESS, fst (fs ! i), snd (fs ! i) + 1),
      u\<lparr>mtd_of := m', index_table := with_entries es (index_table u)\<rparr>)"
    "free_pool (with_entries es (index_table u)) (without i fs)" "mtd_inv m'"
    "page_wiped (fst (fs ! i)) (mtd_of u) m'"
    using pool_Get [OF assms(1,2) False, of die ec] unfolding i_def by blast
  have il: "i < length fs" using pool_pick_less [OF False] by (simp add: i_def)
  have so: "sorted (map snd fs)" using assms(2) by (simp add: free_pool_def)
  show ?thesis
    using g mset_without [OF il] pool_pick_least [OF so False, of "die mod TOTAL_DIE_COUNT"] False
    unfolding i_def [symmetric]
    by (intro conjI impI exI [of _ "fst (fs ! i)"] exI [of _ "snd (fs ! i)"] exI [of _ m'] exI [of _ es]
        exI [of _ "without i fs"]) simp_all
qed

theorem get_least_worn_witness:
  "\<exists>b e m' es. INDEX_FreeBlock_Get 1 0 fresh_ubi = Some ((STATUS_SUCCESS, b, e + 1),
     fresh_ubi\<lparr>mtd_of := m', index_table := with_entries es fresh_index\<rparr>) \<and> b mod 8 = 1"
  using get_least_worn [of fresh_ubi "[(40, 3), (41, 5)]" 1 0] fresh_pool by (auto simp: cfg)

text \<open>
  C11: Static wear levelling with at least two free blocks: the last block of the table is the most worn
  free block, and when it is more than the threshold ahead of the given block, it leaves the pool, the
  given block enters it in order, and the pool stays ordered; otherwise the table is unchanged.  (The
  overview at the head of ubi_index.c names the first block of the table, which is the least worn one;
  the comment in the function names the one with the greatest erase count, as the code does.)
\<close>

theorem swap_most_worn:
  assumes "free_pool t fs" "length fs \<ge> 2" "valid_block b"
  shows "(\<forall>x \<in> set fs. snd (hd fs) \<le> snd x \<and> snd x \<le> snd (last fs)) \<and>
    (if snd (last fs) > min_ec \<and> snd (last fs) - min_ec > STATIC_WL_THRESHOLD
     then \<exists>es fs'. INDEX_FreeBlock_SwapMaxECBlock b min_ec t = Some (with_entries es t) \<and>
       free_pool (with_entries es t) fs' \<and> sorted (map snd fs') \<and> mset fs' = add_mset (b, min_ec) (mset fs - {#last fs#})
     else INDEX_FreeBlock_SwapMaxECBlock b min_ec t = Some t)"
proof -
  have ne: "fs \<noteq> []" using assms(2) by auto
  have so: "sorted (map snd fs)" using assms(1) by (simp add: free_pool_def)
  have ends: "snd (hd fs) \<le> snd x \<and> snd x \<le> snd (last fs)" if x: "x \<in> set fs" for x
  proof
    have "fs = hd fs # tl fs" using ne by simp
    then have "x = hd fs \<or> x \<in> set (tl fs)" "sorted (snd (hd fs) # map snd (tl fs))"
      using x so by (metis set_ConsD, metis list.simps(9))
    then show "snd (hd fs) \<le> snd x" by auto
    have "fs = butlast fs @ [last fs]" using ne by simp
    then have "x = last fs \<or> x \<in> set (butlast fs)" "sorted (map snd (butlast fs) @ [snd (last fs)])"
      using x so by (metis rotate1.simps(2) set_ConsD set_rotate1, metis list.simps(8,9) map_append)
    then show "snd x \<le> snd (last fs)" by (auto simp: sorted_append)
  qed
  have "mset fs - {#last fs#} = mset (butlast fs)"
    by (subst append_butlast_last_id [OF ne, symmetric]) simp
  then have m: "mset (insert_entry (b, min_ec) (butlast fs)) = add_mset (b, min_ec) (mset fs - {#last fs#})"
    by (simp add: mset_insert_entry)
  show ?thesis
  proof (cases "snd (last fs) > min_ec \<and> snd (last fs) - min_ec > STATIC_WL_THRESHOLD")
    case True
    then obtain es where "INDEX_FreeBlock_SwapMaxECBlock b min_ec t = Some (with_entries es t)"
        "free_pool (with_entries es t) (insert_entry (b, min_ec) (butlast fs))"
      using pool_Swap [OF assms, of min_ec] by blast
    moreover from this(2) have "sorted (map snd (insert_entry (b, min_ec) (butlast fs)))" unfolding free_pool_def by blast
    ultimately show ?thesis using True m ends by auto
  next
    case False
    then show ?thesis using pool_no_Swap [OF assms(1) ne False, of b] ends by (simp only: if_False) blast
  qed
qed

text \<open>Both outcomes: an exchange with a block that is worn out, and none below the threshold.\<close>

theorem swap_most_worn_witness:
  "(\<exists>es fs'. INDEX_FreeBlock_SwapMaxECBlock 60 2
        (with_entries ((40, 3) # (41, 2000) # replicate 507 (INVALID_BLOCK, INVALID_EC)) fresh_index) =
      Some (with_entries es (with_entries ((40, 3) # (41, 2000) # replicate 507 (INVALID_BLOCK, INVALID_EC)) fresh_index)) \<and>
      free_pool (with_entries es (with_entries ((40, 3) # (41, 2000) # replicate 507 (INVALID_BLOCK, INVALID_EC)) fresh_index)) fs' \<and>
      mset fs' = {#(60, 2), (40, 3)#}) \<and>
   INDEX_FreeBlock_SwapMaxECBlock 60 2 fresh_index = Some fresh_index"
proof -
  have v: "valid_block 60" by (simp add: valid_block_unat)
  have worn: "free_pool (with_entries ((40, 3) # (41, 2000) # replicate 507 (INVALID_BLOCK, INVALID_EC)) fresh_index)
      [(40, 3), (41, 2000)]"
    using fresh_wf(2) by (auto simp: free_pool_def index_wf_with cfg INVALID_EC_def valid_block_unat)
  show ?thesis
    using swap_most_worn [OF worn _ v, of 2] swap_most_worn [OF fresh_pool _ v, of 2]
    by (auto simp: STATIC_WL_THRESHOLD_def)
qed

text \<open>
  C12: With a single free block the wear-levelling operations fail: the search for the most worn
  block never looks at entry 0 and leaves its outputs as they were, and the exchange, which does,
  reads outside the table.
\<close>

theorem single_free_block:
  assumes "free_pool t [(f, e)]"
  shows "INDEX_FreeBlock_GetMaxECBlock out t = Some out \<and>
    (e > min_ec \<and> e - min_ec > STATIC_WL_THRESHOLD \<longrightarrow> INDEX_FreeBlock_SwapMaxECBlock b min_ec t = None)"
proof -
  have wf: "index_wf t" using assms by (simp add: free_pool_def)
  have w: "worst_entry (entries t) 0" "entries t ! 0 = (f, e)" using pool_worst [OF assms] by simp_all
  show ?thesis using GetMax_spec [OF wf w(1)] Swap_single [OF wf w(1)] w(2) by simp
qed

theorem single_free_block_witness:
  "INDEX_FreeBlock_GetMaxECBlock (1, 2) (with_entries ((40, 3) # replicate 508 (INVALID_BLOCK, INVALID_EC)) fresh_index)
    = Some (1, 2)"
proof -
  have "free_pool (with_entries ((40, 3) # replicate 508 (INVALID_BLOCK, INVALID_EC)) fresh_index) [(40, 3)]"
    using fresh_wf(2) by (auto simp: free_pool_def index_wf_with cfg INVALID_EC_def valid_block_unat)
  then show ?thesis using single_free_block by blast
qed

end
