(* ===== verification/Ftl_Tables.thy ===== *)
theory Ftl_Tables
  imports Ftl_Types
begin

text \<open>
  The root table (core/ftl/ftl_root.c), the block dirty table (ftl_bdt.c) and the hot-data
  identification (ftl_hdi.c).  Each is a log in a pair of blocks: when one block is full the other
  is erased and takes over.
\<close>

section \<open>Root table\<close>

definition ROOT_Commit :: "ftl \<Rightarrow> (STATUS \<times> ftl) option" where
  "ROOT_Commit s = do {
     (ret, s) \<leftarrow>
       (if root_current_page s = PAGE_PER_PHY_BLOCK then do {
          let next_block = root_current_block s XOR 1;
          (ret, s) \<leftarrow> on_ubi (UBI_Erase next_block next_block) s;
          Some (ret, if ret = STATUS_SUCCESS
            then s\<lparr>root_current_page := 0, root_current_block := next_block\<rparr> else s) }
        else Some (STATUS_SUCCESS, s));
     (ret, s) \<leftarrow>
       (if ret = STATUS_SUCCESS then do {
          let s = set_root (\<lambda>r. r\<lparr>
            root_current_journal := PM_NODE_SET_BLOCKPAGE (root_current_block s) (root_current_page s),
            root_edition := root_edition_count s\<rparr>) s;
          let s = s\<lparr>root_edition_count := root_edition_count s + 1\<rparr>;
          let footprint = (0, junk_word s);
          on_ubi (UBI_Write (root_current_block s) (root_current_page s)
            (BufMem (root_bytes (root_table s))) (Some footprint) False) s }
        else Some (ret, s));
     Some (ret, if ret = STATUS_SUCCESS
       then s\<lparr>root_current_page := root_current_page s + 1\<rparr> else s) }"

definition ROOT_Format :: "ftl \<Rightarrow> (STATUS \<times> ftl) option" where
  "ROOT_Format s = do {
     let s = s\<lparr>root_current_block := ROOT_BLOCK0, root_current_page := 0, root_edition_count := 0\<rparr>;
     (ret, s) \<leftarrow> on_ubi (UBI_Erase (root_current_block s) (root_current_block s)) s;
     if ret = STATUS_SUCCESS then ROOT_Commit s else Some (ret, s) }"

text \<open>\<open>UBI_Read (block, page, &root_table, spare)\<close>.\<close>

definition root_read :: "u32 \<Rightarrow> u32 \<Rightarrow> SPARE option \<Rightarrow> ftl \<Rightarrow> ((STATUS \<times> SPARE option) \<times> ftl) option" where
  "root_read block page spare s = do {
     ((ret, buffer, spare), s) \<leftarrow>
       on_ubi (UBI_Read block page (Some (root_bytes (root_table s))) spare) s;
     bytes \<leftarrow> buffer;
     Some ((ret, spare), set_root (\<lambda>_. root_of_bytes bytes) s) }"

text \<open>The scan for the last valid root page; the result is the loop variable at the end.\<close>

fun root_scan :: "nat list \<Rightarrow> SPARE option \<Rightarrow> STATUS \<Rightarrow> ftl \<Rightarrow> ((STATUS \<times> nat) \<times> ftl) option" where
  "root_scan [] footprint ret s = Some ((ret, PAGE_PER_PHY_BLOCK), s)"
| "root_scan (i # is) footprint ret s = do {
     ((ret, footprint), s) \<leftarrow> root_read (root_current_block s) (of_nat i) footprint s;
     sp \<leftarrow> footprint;
     if ret \<noteq> STATUS_SUCCESS \<or> fst sp = INVALID_INDEX then Some ((ret, i), s)
     else root_scan is footprint ret s }"

definition ROOT_Init :: "ftl \<Rightarrow> (STATUS \<times> ftl) option" where
  "ROOT_Init s = do {
     ((ret, _), s) \<leftarrow> root_read ROOT_BLOCK0 0 None s;
     (ret, s) \<leftarrow>
       (if ret = STATUS_SUCCESS then do {
          let s = s\<lparr>root_edition_count := root_edition (root_table s), root_current_block := ROOT_BLOCK0\<rparr>;
          ((ret, _), s) \<leftarrow> root_read ROOT_BLOCK1 0 None s;
          Some (ret, s\<lparr>root_current_block :=
            (if ret = STATUS_SUCCESS \<and> \<not> root_edition_count s > root_edition (root_table s)
             then ROOT_BLOCK1 else ROOT_BLOCK0)\<rparr>) }
        else Some (ret, s\<lparr>root_current_block := ROOT_BLOCK1\<rparr>));
     ((ret, i), s) \<leftarrow>
       root_scan [0..<PAGE_PER_PHY_BLOCK] (Some (junk_word s, junk_word s)) ret s;
     ret \<leftarrow> (if i = PAGE_PER_PHY_BLOCK then do { ASSERT (ret = STATUS_SUCCESS); Some ret }
             else do { ASSERT (ret \<noteq> STATUS_SUCCESS); Some STATUS_SUCCESS });
     ((ret, _), s) \<leftarrow> (if ret = STATUS_SUCCESS
        then root_read (root_current_block s) (of_nat i - 1) None s else Some ((ret, None), s));
     if ret = STATUS_SUCCESS then do {
       (_, s) \<leftarrow> ROOT_Commit (s\<lparr>root_current_page := of_nat i,
         root_edition_count := root_edition (root_table s) + 1\<rparr>);
       Some (ret, s) }
     else Some (ret, s) }"

section \<open>Block dirty table\<close>

definition BDT_Commit :: "ftl \<Rightarrow> (STATUS \<times> ftl) option" where
  "BDT_Commit s = do {
     (ret, s) \<leftarrow>
       (if bdt_current_page s = PAGE_PER_PHY_BLOCK then do {
          let next_block = bdt_current_block s XOR 1;
          (ret, s) \<leftarrow> on_ubi (UBI_Erase next_block next_block) s;
          Some (ret, if ret = STATUS_SUCCESS
            then s\<lparr>bdt_current_page := 0, bdt_current_block := next_block\<rparr> else s) }
        else Some (STATUS_SUCCESS, s));
     (ret, s) \<leftarrow> foldM (\<lambda>i (ret, s).
        if ret = STATUS_SUCCESS then
          on_ubi (UBI_Write (bdt_current_block s) (bdt_current_page s + of_nat i)
            (BufMem (take MPP_SIZE (drop (i * MPP_SIZE) (block_dirty_table s)))) None False) s
        else Some (ret, s)) [0..<BDT_PAGE_COUNT] (ret, s);
     Some (ret, if ret = STATUS_SUCCESS
       then (set_root (\<lambda>r. r\<lparr>bdt_current_journal :=
               PM_NODE_SET_BLOCKPAGE (bdt_current_block s) (bdt_current_page s)\<rparr>) s)
              \<lparr>bdt_current_page := bdt_current_page s + of_nat BDT_PAGE_COUNT\<rparr>
       else s) }"

definition BDT_Format :: "ftl \<Rightarrow> (STATUS \<times> ftl) option" where
  "BDT_Format s = do {
     let s = s\<lparr>bdt_current_block := BDT_BLOCK0, bdt_current_page := 0\<rparr>;
     (ret, s) \<leftarrow> on_ubi (UBI_Erase (bdt_current_block s) (bdt_current_block s)) s;
     if ret = STATUS_SUCCESS then BDT_Commit s else Some (ret, s) }"

text \<open>
  The scan for the first erased page, shared by \<open>BDT_Init\<close> and \<open>HDI_Init\<close>: a read without buffers
  at every page of the list.  The result is the first page that does not read, if there is one.
\<close>

fun scan_erased :: "u32 \<Rightarrow> nat list \<Rightarrow> ftl \<Rightarrow> (nat option \<times> ftl) option" where
  "scan_erased block [] s = Some (None, s)"
| "scan_erased block (i # is) s = do {
     ((ret, _, _), s) \<leftarrow> on_ubi (UBI_Read block (of_nat i) None None) s;
     if ret \<noteq> STATUS_SUCCESS then Some (Some i, s) else scan_erased block is s }"

definition bdt_read_page :: "nat \<Rightarrow> ftl \<Rightarrow> ftl option" where
  "bdt_read_page i s = do {
     ((ret, buffer, _), s) \<leftarrow> on_ubi (UBI_Read (bdt_current_block s) (bdt_current_page s + of_nat i)
       (Some (take MPP_SIZE (drop (i * MPP_SIZE) (block_dirty_table s)))) None) s;
     bytes \<leftarrow> buffer;
     t \<leftarrow> memcpy_at (block_dirty_table s) (i * MPP_SIZE) bytes;
     ASSERT (ret = STATUS_SUCCESS);
     Some (s\<lparr>block_dirty_table := t\<rparr>) }"

definition BDT_Init :: "ftl \<Rightarrow> (STATUS \<times> ftl) option" where
  "BDT_Init s = do {
     let s = s\<lparr>bdt_current_block := PM_NODE_BLOCK (bdt_current_journal (root_table s)),
               bdt_current_page := PM_NODE_PAGE (bdt_current_journal (root_table s))\<rparr>;
     s \<leftarrow> foldM bdt_read_page [0..<BDT_PAGE_COUNT] s;
     (found, s) \<leftarrow> scan_erased (bdt_current_block s)
       [unat (bdt_current_page s) + BDT_PAGE_COUNT..<PAGE_PER_PHY_BLOCK] s;
     let s = s\<lparr>bdt_current_page := (case found of Some i \<Rightarrow> of_nat i | None \<Rightarrow> PAGE_PER_PHY_BLOCK)\<rparr>;
     (_, s) \<leftarrow> BDT_Commit s;
     Some (STATUS_SUCCESS, s) }"

section \<open>Hot-data identification\<close>

definition HDI_FUNCTION :: "u32 \<Rightarrow> nat \<Rightarrow> nat" where
  "HDI_FUNCTION a i = unat (drop_bit (i * 3) a AND of_nat (MPP_SIZE - 1))"

definition HDI_Commit :: "ftl \<Rightarrow> (STATUS \<times> ftl) option" where
  "HDI_Commit s = do {
     (ret, s) \<leftarrow>
       (if hdi_current_page s = PAGE_PER_PHY_BLOCK then do {
          let next_block = hdi_current_block s XOR 1;
          (ret, s) \<leftarrow> on_ubi (UBI_Erase next_block next_block) s;
          Some (ret, if ret = STATUS_SUCCESS
            then s\<lparr>hdi_current_page := 0, hdi_current_block := next_block\<rparr> else s) }
        else Some (STATUS_SUCCESS, s));
     (ret, s) \<leftarrow> (if ret = STATUS_SUCCESS
        then on_ubi (UBI_Write (hdi_current_block s) (hdi_current_page s)
               (BufMem (hdi_hash_table s)) None False) s
        else Some (ret, s));
     Some (ret, if ret = STATUS_SUCCESS
       then (set_root (\<lambda>r. r\<lparr>hdi_current_journal :=
               PM_NODE_SET_BLOCKPAGE (hdi_current_block s) (hdi_current_page s)\<rparr>) s)
              \<lparr>hdi_current_page := hdi_current_page s + 1\<rparr>
       else s) }"

definition HDI_Format :: "ftl \<Rightarrow> (STATUS \<times> ftl) option" where
  "HDI_Format s = do {
     t \<leftarrow> foldM (\<lambda>i t. wr t i 0) [0..<MPP_SIZE] (hdi_hash_table s);
     let s = s\<lparr>hdi_hash_table := t, hdi_current_block := HDI_BLOCK0, hdi_current_page := 0\<rparr>;
     (ret, s) \<leftarrow> on_ubi (UBI_Erase (hdi_current_block s) (hdi_current_block s)) s;
     if ret = STATUS_SUCCESS then HDI_Commit s else Some (ret, s) }"

text \<open>The start-up of the hash table commits the block dirty table, as the code does.\<close>

definition HDI_Init :: "ftl \<Rightarrow> (STATUS \<times> ftl) option" where
  "HDI_Init s = do {
     let s = s\<lparr>hdi_current_block := PM_NODE_BLOCK (hdi_current_journal (root_table s)),
               hdi_current_page := PM_NODE_PAGE (hdi_current_journal (root_table s))\<rparr>;
     ((ret, buffer, _), s) \<leftarrow>
       on_ubi (UBI_Read (hdi_current_block s) (hdi_current_page s) (Some (hdi_hash_table s)) None) s;
     bytes \<leftarrow> buffer;
     ASSERT (ret = STATUS_SUCCESS);
     let s = s\<lparr>hdi_hash_table := bytes\<rparr>;
     (found, s) \<leftarrow> scan_erased (hdi_current_block s)
       [unat (hdi_current_page s) + 1..<PAGE_PER_PHY_BLOCK] s;
     let s = s\<lparr>hdi_current_page := (case found of Some i \<Rightarrow> of_nat i | None \<Rightarrow> PAGE_PER_PHY_BLOCK)\<rparr>;
     (_, s) \<leftarrow> BDT_Commit s;
     Some (STATUS_SUCCESS, s) }"

text \<open>One hash function of \<open>HDI_IsHotPage\<close>: count the access, saturating, and test the slot.\<close>

definition hdi_step :: "u32 \<Rightarrow> nat \<Rightarrow> bool \<times> u8 list \<Rightarrow> (bool \<times> u8 list) option" where
  "hdi_step addr i s = do {
     let (ret, tbl) = s;
     let k = HDI_FUNCTION addr i;
     v \<leftarrow> rd tbl k;
     let v = (if v \<noteq> MAX_UINT8 then v + 1 else v);
     tbl \<leftarrow> wr tbl k v;
     Some (if v < HDI_HOT_DATA_THERSHOLD then False else ret, tbl) }"

definition HDI_IsHotPage :: "u32 \<Rightarrow> ftl \<Rightarrow> (bool \<times> ftl) option" where
  "HDI_IsHotPage addr s = do {
     (ret, tbl) \<leftarrow> foldM (hdi_step addr) [0..<HDI_FUNC_COUNT] (True, hdi_hash_table s);
     let count = hdi_count s;
     if count = HDI_COLDDOWN_DELAY then do {
       tbl \<leftarrow> foldM (\<lambda>i t. do { v \<leftarrow> rd t i; wr t i (drop_bit 1 v) }) [0..<MPP_SIZE] tbl;
       Some (ret, s\<lparr>hdi_hash_table := tbl, hdi_count := 0\<rparr>) }
     else Some (ret, s\<lparr>hdi_hash_table := tbl, hdi_count := count + 1\<rparr>) }"

end
