(* ===== verification/Ftl_Pmt.thy ===== *)
theory Ftl_Pmt
  imports Ftl_Tables
begin

text \<open>
  The page mapping table (core/ftl/ftl_pmt.c).  Its first level, in the root table, points to the
  nodes of the second level, in flash or in one of \<open>PMT_CACHE_COUNT\<close> caches.  \<open>DATA_Commit\<close>
  (ftl_data.c) is here because loading a node may have to commit everything.
\<close>

section \<open>Capacity and caches\<close>

definition UBI_Capacity :: "ftl \<Rightarrow> u32" where
  "UBI_Capacity s = total_data_block (anchor_table (ubi_of s))"

definition FTL_Capacity :: "ftl \<Rightarrow> u32" where
  "FTL_Capacity s =
     (let block = UBI_Capacity s;
          block = block - of_nat JOURNAL_BLOCK_COUNT;
          block = block - of_nat JOURNAL_BLOCK_COUNT;
          block = block - of_nat JOURNAL_BLOCK_COUNT;
          block = block - of_nat PMT_BLOCK_COUNT;
          block = block - 2;
          block = block - 2;
          block = block - 2;
          block = block - block div 100 * OVER_PROVISION_RATE in
      block * (PAGE_PER_PHY_BLOCK - 1))"

text \<open>The address of cache \<open>i\<close>, and the cache at an address.\<close>

definition cache_addr :: "nat \<Rightarrow> ftl \<Rightarrow> u32" where
  "cache_addr i s = pm_cache_base s + of_nat (i * MPP_SIZE)"

definition cache_at :: "u32 \<Rightarrow> ftl \<Rightarrow> nat option" where
  "cache_at addr s = List.find (\<lambda>i. cache_addr i s = addr) [0..<PMT_CACHE_COUNT]"

definition read_cached :: "u32 \<Rightarrow> nat \<Rightarrow> ftl \<Rightarrow> u32 option" where
  "read_cached addr k s = do {
     i \<leftarrow> cache_at addr s;
     node \<leftarrow> rd (pm_node_caches s) i;
     rd node k }"

definition write_cached :: "u32 \<Rightarrow> nat \<Rightarrow> u32 \<Rightarrow> ftl \<Rightarrow> ftl option" where
  "write_cached addr k v s = do {
     i \<leftarrow> cache_at addr s;
     node \<leftarrow> rd (pm_node_caches s) i;
     node \<leftarrow> wr node k v;
     caches \<leftarrow> wr (pm_node_caches s) i node;
     Some (s\<lparr>pm_node_caches := caches\<rparr>) }"

definition clear_cache :: "nat \<Rightarrow> ftl \<Rightarrow> ftl option" where
  "clear_cache i s = do {
     caches \<leftarrow> wr (pm_node_caches s) i (replicate PM_PER_NODE 0);
     origins \<leftarrow> wr (pm_cache_origin_location s) i INVALID_PM_NODE;
     cls \<leftarrow> wr (pm_cache_cluster s) i INVALID_CLUSTER;
     Some (s\<lparr>pm_node_caches := caches, pm_cache_origin_location := origins,
       pm_cache_cluster := cls\<rparr>) }"

definition PMT_Init :: "ftl \<Rightarrow> (STATUS \<times> ftl) option" where
  "PMT_Init s = do {
     s \<leftarrow> foldM clear_cache [0..<PMT_CACHE_COUNT] s;
     Some (STATUS_SUCCESS, s) }"

text \<open>The first index at which an array holds a word; \<open>None\<close> inside when it ends first.\<close>

fun find_word :: "nat list \<Rightarrow> u32 \<Rightarrow> u32 list \<Rightarrow> nat option option" where
  "find_word [] w t = Some None"
| "find_word (i # is) w t = do {
     e \<leftarrow> rd t i;
     if e = w then Some (Some i) else find_word is w t }"

section \<open>Format\<close>

definition pmt_write_meta :: "u32 \<Rightarrow> u32 \<Rightarrow> ftl \<Rightarrow> (STATUS \<times> ftl) option" where
  "pmt_write_meta block page s =
     on_ubi (UBI_Write block page (BufMem (overread (pmt_meta_data s) s)) None False) s"

definition pmt_format_step ::
  "nat \<Rightarrow> (STATUS \<times> u32 \<times> u32) \<times> ftl \<Rightarrow> ((STATUS \<times> u32 \<times> u32) \<times> ftl) option" where
  "pmt_format_step i st = do {
     let ((ret, pmt_block, pmt_page), s) = st;
     (ret, s) \<leftarrow> (if ret = STATUS_SUCCESS then do {
         let pm_node = replicate PM_PER_NODE INVALID_PM_NODE;
         on_ubi (UBI_Write pmt_block pmt_page (BufMem (bytes_of_u32s pm_node))
           (Some (of_nat i, junk_word s)) False) s }
       else Some (ret, s));
     if ret = STATUS_SUCCESS then do {
       md \<leftarrow> wr (pmt_meta_data s) (unat pmt_page) (of_nat i);
       s \<leftarrow> set_node i (PM_NODE_SET_BLOCKPAGE pmt_block pmt_page) (s\<lparr>pmt_meta_data := md\<rparr>);
       let pmt_page = (if pmt_page < PAGE_PER_PHY_BLOCK - 1 then pmt_page + 1 else pmt_page);
       if pmt_page = PAGE_PER_PHY_BLOCK - 1 then do {
         (ret, s) \<leftarrow> pmt_write_meta pmt_block pmt_page s;
         if ret = STATUS_SUCCESS then do {
           s \<leftarrow> set_dirty_count (unat pmt_block) 0 s;
           Some ((ret, pmt_block + 1, 0), s) }
         else Some ((ret, pmt_block, pmt_page), s) }
       else Some ((ret, pmt_block, pmt_page), s) }
     else Some ((ret, pmt_block, pmt_page), s) }"

definition PMT_Format :: "ftl \<Rightarrow> (STATUS \<times> ftl) option" where
  "PMT_Format s = do {
     let pmt_cluster_count = (FTL_Capacity s + of_nat PM_PER_NODE - 1) div of_nat PM_PER_NODE;
     ASSERT (unat pmt_cluster_count < MAX_PM_CLUSTERS);
     ((ret, pmt_block, pmt_page), s) \<leftarrow> foldM pmt_format_step [0..<unat pmt_cluster_count]
       ((STATUS_SUCCESS, of_nat PMT_START_BLOCK, 0), s);
     if ret = STATUS_SUCCESS then do {
       let s = set_root (\<lambda>r. r\<lparr>pmt_current_block := PM_NODE_SET_BLOCKPAGE pmt_block pmt_page,
         pmt_reclaim_block := PM_NODE_SET_BLOCKPAGE (pmt_block + 1) 0\<rparr>) s;
       s \<leftarrow> set_dirty_count (unat pmt_block) 0 s;
       s \<leftarrow> set_dirty_count (unat (pmt_block + 1)) 0 s;
       Some (ret, s) }
     else Some (ret, s) }"

section \<open>Reclaim\<close>

text \<open>One pass of the search over the blocks of the table; \<open>found\<close> is the block settled on.\<close>

fun pmt_find_pass :: "nat list \<Rightarrow> nat \<Rightarrow> nat \<Rightarrow> ftl \<Rightarrow> ((nat option \<times> nat) \<times> ftl) option" where
  "pmt_find_pass [] target next_count s = Some ((None, next_count), s)"
| "pmt_find_pass (i # is) target next_count s = do {
     n \<leftarrow> rd (block_dirty_table s) i;
     if unat n = target then do {
       (ret, s) \<leftarrow> on_ubi (UBI_ReadStatus (of_nat i)) s;
       if ret = STATUS_SUCCESS then Some ((Some i, next_count), s)
       else pmt_find_pass is target next_count s }
     else pmt_find_pass is target
            (if unat n < target \<and> unat n > next_count then unat n else next_count) s }"

partial_function (option) pmt_find_dirtiest :: "nat \<Rightarrow> nat \<Rightarrow> ftl \<Rightarrow> (nat \<times> ftl) option" where
  "pmt_find_dirtiest target next_count s = do {
     ((found, next_count), s) \<leftarrow>
       pmt_find_pass [PMT_START_BLOCK..<PMT_START_BLOCK + PMT_BLOCK_COUNT] target next_count s;
     case found of
       Some i \<Rightarrow> Some (i, s)
     | None \<Rightarrow> pmt_find_dirtiest next_count next_count s }"

text \<open>
  Where the current copy of a cluster is, for the reclaim: nowhere when it is cached and dirty, the
  origin of the cache when it is cached and clean.  The second component is the cache to clear.
\<close>

definition reclaim_source :: "u32 \<Rightarrow> u32 \<Rightarrow> ftl \<Rightarrow> (u32 \<times> nat option) option" where
  "reclaim_source cluster pm_node s =
     (if PM_NODE_IS_CACHED pm_node then
        if PM_NODE_IS_DIRTY pm_node then Some (INVALID_PM_NODE, None)
        else do {
          found \<leftarrow> find_word [0..<PMT_CACHE_COUNT] cluster (pm_cache_cluster s);
          i \<leftarrow> found;
          origin \<leftarrow> rd (pm_cache_origin_location s) i;
          Some (origin, Some i) }
      else Some (pm_node, None))"

text \<open>One page of the dirty block; the status of an earlier page does not stop the loop.\<close>

definition pmt_reclaim_page ::
  "u32 \<Rightarrow> u32 \<Rightarrow> nat \<Rightarrow> (STATUS \<times> u32) \<times> ftl \<Rightarrow> ((STATUS \<times> u32) \<times> ftl) option" where
  "pmt_reclaim_page dirty_block reclaim_block page st = do {
     let ((ret, reclaim_page), s) = st;
     cl \<leftarrow> rd (clusters s) page;
     let cluster = unat cl;
     pm_node \<leftarrow> get_node cluster s;
     (pm_node, cleared) \<leftarrow> reclaim_source cl pm_node s;
     if pm_node \<noteq> INVALID_PM_NODE \<and> PM_NODE_BLOCK pm_node = dirty_block \<and>
        PM_NODE_PAGE pm_node = of_nat page
     then do {
       ((ret, buffer, _), s) \<leftarrow>
         on_ubi (UBI_Read dirty_block (of_nat page) (Some (pm_node_buffer s)) None) s;
       bytes \<leftarrow> buffer;
       let s = s\<lparr>pm_node_buffer := bytes\<rparr>;
       (ret, s) \<leftarrow> (if ret = STATUS_SUCCESS
          then on_ubi (UBI_Write reclaim_block reclaim_page (BufMem bytes) None False) s
          else Some (ret, s));
       if ret = STATUS_SUCCESS then do {
         s \<leftarrow> set_node cluster (PM_NODE_SET_BLOCKPAGE reclaim_block reclaim_page) s;
         md \<leftarrow> wr (pmt_meta_data s) (unat reclaim_page) cl;
         let s = s\<lparr>pmt_meta_data := md\<rparr>;
         s \<leftarrow> (case cleared of None \<Rightarrow> Some s | Some i \<Rightarrow> clear_cache i s);
         Some ((ret, reclaim_page + 1), s) }
       else Some ((ret, reclaim_page), s) }
     else Some ((ret, reclaim_page), s) }"

definition pmt_reclaim_blocks :: "ftl \<Rightarrow> (STATUS \<times> ftl) option" where
  "pmt_reclaim_blocks s = do {
     (i, s) \<leftarrow> pmt_find_dirtiest MAX_DIRTY_PAGES 0 s;
     n \<leftarrow> rd (block_dirty_table s) i;
     let dirty_block = of_nat i;
     if MAX_DIRTY_PAGES - unat n \<noteq> 0 then do {
       let reclaim_block = PM_NODE_BLOCK (pmt_reclaim_block (root_table s));
       ((ret, buffer, _), s) \<leftarrow> on_ubi (UBI_Read dirty_block (PAGE_PER_PHY_BLOCK - 1)
         (Some (bytes_of_u32s (clusters s))) None) s;
       bytes \<leftarrow> buffer;
       let s = s\<lparr>clusters := u32s_of_bytes bytes\<rparr>;
       ((ret, reclaim_page), s) \<leftarrow> (if ret = STATUS_SUCCESS
          then foldM (pmt_reclaim_page dirty_block reclaim_block) [0..<PAGE_PER_PHY_BLOCK - 1] ((ret, 0), s)
          else Some ((ret, 0), s));
       (ret, s) \<leftarrow> (if ret = STATUS_SUCCESS then on_ubi (UBI_Erase dirty_block dirty_block) s
                   else Some (ret, s));
       if ret = STATUS_SUCCESS then do {
         let s = set_root (\<lambda>r. r\<lparr>pmt_current_block := PM_NODE_SET_BLOCKPAGE reclaim_block reclaim_page,
           pmt_reclaim_block := PM_NODE_SET_BLOCKPAGE dirty_block 0\<rparr>) s;
         s \<leftarrow> set_dirty_count (unat reclaim_block) 0 s;
         s \<leftarrow> set_dirty_count i 0 s;
         Some (ret, s) }
       else Some (ret, s) }
     else do {
       (ret, s) \<leftarrow> on_ubi (UBI_Erase dirty_block dirty_block) s;
       if ret = STATUS_SUCCESS then do {
         let s = set_root (\<lambda>r. r\<lparr>pmt_current_block := PM_NODE_SET_BLOCKPAGE dirty_block 0\<rparr>) s;
         s \<leftarrow> set_dirty_count i 0 s;
         Some (ret, s) }
       else Some (ret, s) } }"

section \<open>Commit\<close>

definition pmt_cur_block :: "ftl \<Rightarrow> u32" where
  "pmt_cur_block s = PM_NODE_BLOCK (pmt_current_block (root_table s))"
definition pmt_cur_page :: "ftl \<Rightarrow> u32" where
  "pmt_cur_page s = PM_NODE_PAGE (pmt_current_block (root_table s))"

text \<open>
  The spare area of a node page is the array \<open>pm_cache_cluster\<close> from index \<open>i\<close> on: the cluster and
  the entry behind it, which for the last cache is whatever follows the array.
\<close>

definition cluster_spare :: "nat \<Rightarrow> ftl \<Rightarrow> SPARE option" where
  "cluster_spare i s = do {
     a \<leftarrow> rd (pm_cache_cluster s) i;
     b \<leftarrow> rd (pm_cache_cluster s @ [junk_word s]) (i + 1);
     Some (a, b) }"

definition pmt_commit_node :: "nat \<Rightarrow> u32 \<Rightarrow> STATUS \<Rightarrow> ftl \<Rightarrow> (STATUS \<times> ftl) option" where
  "pmt_commit_node i cluster ret s =
     (if pmt_cur_page s \<noteq> PAGE_PER_PHY_BLOCK then do {
        ASSERT (pmt_cur_page s \<noteq> PAGE_PER_PHY_BLOCK - 1);
        if ret = STATUS_SUCCESS then do {
          node \<leftarrow> rd (pm_node_caches s) i;
          sp \<leftarrow> cluster_spare i s;
          (ret, s) \<leftarrow> on_ubi (UBI_Write (pmt_cur_block s) (pmt_cur_page s)
            (BufMem (bytes_of_u32s node)) (Some sp) False) s;
          if ret = STATUS_SUCCESS then do {
            md \<leftarrow> wr (pmt_meta_data s) (unat (pmt_cur_page s)) cluster;
            s \<leftarrow> set_node (unat cluster) (PM_NODE_SET_BLOCKPAGE (pmt_cur_block s) (pmt_cur_page s))
              (s\<lparr>pmt_meta_data := md\<rparr>);
            let s = set_root (\<lambda>r. r\<lparr>pmt_current_block :=
              PM_NODE_SET_BLOCKPAGE (pmt_cur_block s) (pmt_cur_page s + 1)\<rparr>) s;
            origin \<leftarrow> rd (pm_cache_origin_location s) i;
            s \<leftarrow> inc_dirty_count (unat (PM_NODE_BLOCK origin)) s;
            Some (ret, s) }
          else Some (ret, s) }
        else Some (ret, s) }
      else Some (ret, s))"

definition pmt_commit_step :: "nat \<Rightarrow> STATUS \<times> ftl \<Rightarrow> (STATUS \<times> ftl) option" where
  "pmt_commit_step i st = do {
     let (ret, s) = st;
     cluster \<leftarrow> rd (pm_cache_cluster s) i;
     if cluster = INVALID_CLUSTER then Some (ret, s)
     else do {
       pm_node \<leftarrow> get_node (unat cluster) s;
       ASSERT (PM_NODE_IS_CACHED pm_node);
       if \<not> PM_NODE_IS_DIRTY pm_node then do {
         origin \<leftarrow> rd (pm_cache_origin_location s) i;
         s \<leftarrow> set_node (unat cluster) origin s;
         Some (ret, s) }
       else do {
         (ret, s) \<leftarrow> pmt_commit_node i cluster ret s;
         if pmt_cur_page s = PAGE_PER_PHY_BLOCK - 1 then do {
           (ret, s) \<leftarrow> (if ret = STATUS_SUCCESS
              then pmt_write_meta (pmt_cur_block s) (pmt_cur_page s) s else Some (ret, s));
           (ret, s) \<leftarrow> (if ret = STATUS_SUCCESS then on_ubi UBI_Flush s else Some (ret, s));
           if ret = STATUS_SUCCESS then pmt_reclaim_blocks s else Some (ret, s) }
         else Some (ret, s) } } }"

definition PMT_Commit :: "ftl \<Rightarrow> (STATUS \<times> ftl) option" where
  "PMT_Commit s = do {
     (ret, s) \<leftarrow> foldM pmt_commit_step [0..<PMT_CACHE_COUNT] (STATUS_SUCCESS, s);
     if ret = STATUS_SUCCESS then PMT_Init s else Some (ret, s) }"

definition DATA_Commit :: "ftl \<Rightarrow> (STATUS \<times> ftl) option" where
  "DATA_Commit s = do {
     (ret, s) \<leftarrow> HDI_Commit s;
     (ret, s) \<leftarrow> (if ret = STATUS_SUCCESS then PMT_Commit s else Some (ret, s));
     (ret, s) \<leftarrow> (if ret = STATUS_SUCCESS then BDT_Commit s else Some (ret, s));
     (ret, s) \<leftarrow> (if ret = STATUS_SUCCESS then ROOT_Commit s else Some (ret, s));
     Some (ret, if ret = STATUS_SUCCESS
       then s\<lparr>edition_in_hot_journal := 0, edition_in_cold_journal := 0\<rparr> else s) }"

section \<open>Loading, searching and updating\<close>

definition PMT_Load :: "u32 \<Rightarrow> u32 \<Rightarrow> nat \<Rightarrow> ftl \<Rightarrow> (STATUS \<times> ftl) option" where
  "PMT_Load block page cluster s = do {
     found \<leftarrow> find_word [0..<PMT_CACHE_COUNT] INVALID_PM_NODE (pm_cache_origin_location s);
     ((ret, i, block, page), s) \<leftarrow>
       (case found of
          Some i \<Rightarrow> Some ((STATUS_SUCCESS, i, block, page), s)
        | None \<Rightarrow> do {
            (ret, s) \<leftarrow> DATA_Commit s;
            if ret = STATUS_SUCCESS then do {
              p \<leftarrow> get_node cluster s;
              Some ((ret, 0, PM_NODE_BLOCK p, PM_NODE_PAGE p), s) }
            else Some ((ret, 0, block, page), s) });
     (ret, s) \<leftarrow>
       (if ret = STATUS_SUCCESS then do {
          node \<leftarrow> rd (pm_node_caches s) i;
          ((ret, buffer, _), s) \<leftarrow> on_ubi (UBI_Read block page (Some (bytes_of_u32s node)) None) s;
          bytes \<leftarrow> buffer;
          caches \<leftarrow> wr (pm_node_caches s) i (u32s_of_bytes bytes);
          Some (ret, s\<lparr>pm_node_caches := caches\<rparr>) }
        else Some (ret, s));
     if ret = STATUS_SUCCESS then do {
       origins \<leftarrow> wr (pm_cache_origin_location s) i (PM_NODE_SET_BLOCKPAGE block page);
       s \<leftarrow> set_node cluster (cache_addr i s) (s\<lparr>pm_cache_origin_location := origins\<rparr>);
       ASSERT (cache_addr i s AND 3 = 0);
       cls \<leftarrow> wr (pm_cache_cluster s) i (of_nat cluster);
       Some (ret, s\<lparr>pm_cache_cluster := cls\<rparr>) }
     else Some (ret, s) }"

text \<open>Loading the node of a cluster unless it is cached.\<close>

definition pmt_ensure :: "nat \<Rightarrow> ftl \<Rightarrow> (STATUS \<times> ftl) option" where
  "pmt_ensure cluster s = do {
     p \<leftarrow> get_node cluster s;
     if \<not> PM_NODE_IS_CACHED p then PMT_Load (PM_NODE_BLOCK p) (PM_NODE_PAGE p) cluster s
     else Some (STATUS_SUCCESS, s) }"

definition PMT_Update :: "u32 \<Rightarrow> u32 \<Rightarrow> u32 \<Rightarrow> ftl \<Rightarrow> (STATUS \<times> ftl) option" where
  "PMT_Update page_addr block page s = do {
     let cluster = CLUSTER_INDEX page_addr;
     let k = PAGE_IN_CLUSTER page_addr;
     (ret, s) \<leftarrow> pmt_ensure cluster s;
     if ret = STATUS_SUCCESS then do {
       p \<leftarrow> get_node cluster s;
       let addr = PM_NODE_ADDRESS p;
       old \<leftarrow> read_cached addr k s;
       s \<leftarrow> (if old \<noteq> INVALID_PM_NODE then inc_dirty_count (unat (PM_NODE_BLOCK old)) s else Some s);
       s \<leftarrow> (if block \<noteq> INVALID_BLOCK then do {
              ASSERT (page \<noteq> INVALID_PAGE);
              write_cached addr k (PM_NODE_SET_BLOCKPAGE block page) s }
            else do {
              ASSERT (page = INVALID_PAGE);
              write_cached addr k INVALID_PM_NODE s });
       s \<leftarrow> set_node cluster (PM_NODE_SET_DIRTY p) s;
       Some (ret, s) }
     else Some (ret, s) }"

text \<open>\<open>out\<close> is the content of the output variables before the call.\<close>

definition PMT_Search :: "u32 \<Rightarrow> u32 \<times> u32 \<Rightarrow> ftl \<Rightarrow> ((STATUS \<times> u32 \<times> u32) \<times> ftl) option" where
  "PMT_Search page_addr out s = do {
     let cluster = CLUSTER_INDEX page_addr;
     (ret, s) \<leftarrow> pmt_ensure cluster s;
     if ret = STATUS_SUCCESS then do {
       p \<leftarrow> get_node cluster s;
       ASSERT (p \<noteq> INVALID_PM_NODE);
       let addr = PM_NODE_ADDRESS p;
       ASSERT (addr \<noteq> 0);
       pm_node \<leftarrow> read_cached addr (PAGE_IN_CLUSTER page_addr) s;
       Some (if pm_node \<noteq> INVALID_PM_NODE
             then (ret, PM_NODE_BLOCK pm_node, PM_NODE_PAGE pm_node)
             else (ret, INVALID_BLOCK, INVALID_PAGE), s) }
     else Some ((ret, out), s) }"

end
