(* ===== verification/Ftl_Data.thy ===== *)
theory Ftl_Data
  imports Ftl_Pmt
begin

text \<open>
  The data journals (core/ftl/ftl_data.c): hot and cold pages are appended to journal blocks in
  different dice, full journals are replaced by reclaiming the dirtiest blocks, and after a power
  loss the pages written since the last commit are replayed in the order of their editions.
\<close>

section \<open>The two journals\<close>

definition data_journal :: "bool \<Rightarrow> ftl \<Rightarrow> u32 list" where
  "data_journal is_hot s = (if is_hot then hot_journal (root_table s) else cold_journal (root_table s))"

definition set_journal :: "bool \<Rightarrow> nat \<Rightarrow> u32 \<Rightarrow> ftl \<Rightarrow> ftl option" where
  "set_journal is_hot i p s = do {
     js \<leftarrow> wr (data_journal is_hot s) i p;
     Some (set_root (\<lambda>r. if is_hot then r\<lparr>hot_journal := js\<rparr> else r\<lparr>cold_journal := js\<rparr>) s) }"

definition set_reclaim_journal :: "nat \<Rightarrow> u32 \<Rightarrow> ftl \<Rightarrow> ftl option" where
  "set_reclaim_journal i p s = do {
     js \<leftarrow> wr (reclaim_journal (root_table s)) i p;
     Some (set_root (\<lambda>r. r\<lparr>reclaim_journal := js\<rparr>) s) }"

text \<open>The meta data of all journal blocks is one array of \<open>8 * 32\<close> spare areas.\<close>

definition meta_data :: "bool \<Rightarrow> ftl \<Rightarrow> SPARE list" where
  "meta_data is_hot s = (if is_hot then hot_meta_data s else cold_meta_data s)"

definition set_meta :: "bool \<Rightarrow> nat \<Rightarrow> SPARE \<Rightarrow> ftl \<Rightarrow> ftl option" where
  "set_meta is_hot k sp s = do {
     md \<leftarrow> wr (meta_data is_hot s) k sp;
     Some (if is_hot then s\<lparr>hot_meta_data := md\<rparr> else s\<lparr>cold_meta_data := md\<rparr>) }"

definition edition :: "bool \<Rightarrow> ftl \<Rightarrow> u32" where
  "edition is_hot s = (if is_hot then edition_in_hot_journal s else edition_in_cold_journal s)"

definition set_edition :: "bool \<Rightarrow> u32 \<Rightarrow> ftl \<Rightarrow> ftl" where
  "set_edition is_hot e s =
     (if is_hot then s\<lparr>edition_in_hot_journal := e\<rparr> else s\<lparr>edition_in_cold_journal := e\<rparr>)"

text \<open>The page written from the meta data of journal block \<open>j\<close>: the rows from \<open>j\<close> on.\<close>

definition write_meta_page :: "bool \<Rightarrow> nat \<Rightarrow> u32 \<Rightarrow> ftl \<Rightarrow> (STATUS \<times> ftl) option" where
  "write_meta_page is_hot j block s =
     on_ubi (UBI_Write block (PAGE_PER_PHY_BLOCK - 1)
       (BufMem (overread (spare_words (drop (j * PAGE_PER_PHY_BLOCK) (meta_data is_hot s))) s))
       None False) s"

section \<open>Format\<close>

text \<open>One journal of \<open>DATA_Format\<close>: erase a block for each entry.\<close>

definition format_journal_step :: "(nat \<Rightarrow> u32 \<Rightarrow> ftl \<Rightarrow> ftl option) \<Rightarrow> nat \<Rightarrow>
    (STATUS \<times> u32) \<times> ftl \<Rightarrow> ((STATUS \<times> u32) \<times> ftl) option" where
  "format_journal_step upd i st = do {
     let ((ret, block), s) = st;
     (ret, s) \<leftarrow> (if ret = STATUS_SUCCESS then on_ubi (UBI_Erase block block) s else Some (ret, s));
     if ret = STATUS_SUCCESS then do {
       s \<leftarrow> upd i (PM_NODE_SET_BLOCKPAGE block 0) s;
       s \<leftarrow> set_dirty_count (unat block) 0 s;
       Some ((ret, block + 1), s) }
     else Some ((ret, block), s) }"

definition DATA_Format :: "ftl \<Rightarrow> (STATUS \<times> ftl) option" where
  "DATA_Format s = do {
     s \<leftarrow> foldM (\<lambda>i. set_dirty_count i (of_nat MAX_DIRTY_PAGES)) [0..<CFG_LOG_BLOCK_COUNT] s;
     st \<leftarrow> foldM (format_journal_step (set_journal True)) [0..<JOURNAL_BLOCK_COUNT]
       ((STATUS_SUCCESS, of_nat DATA_START_BLOCK), s);
     st \<leftarrow> foldM (format_journal_step (set_journal False)) [0..<JOURNAL_BLOCK_COUNT] st;
     st \<leftarrow> foldM (format_journal_step set_reclaim_journal) [0..<JOURNAL_BLOCK_COUNT] st;
     Some (STATUS_SUCCESS, snd st) }"

section \<open>Writing\<close>

text \<open>
  One pass over the journal blocks for one that is not full and whose die is idle; \<open>ret\<close> is the
  last status read.
\<close>

fun find_idle_pass :: "bool \<Rightarrow> nat list \<Rightarrow> STATUS \<Rightarrow> ftl \<Rightarrow> ((STATUS \<times> nat option) \<times> ftl) option" where
  "find_idle_pass is_hot [] ret s = Some ((ret, None), s)"
| "find_idle_pass is_hot (i # is) ret s = do {
     p \<leftarrow> rd (data_journal is_hot s) i;
     if PM_NODE_PAGE p < PAGE_PER_PHY_BLOCK - 1 then do {
       (ret, s) \<leftarrow> on_ubi (UBI_ReadStatus (PM_NODE_BLOCK p)) s;
       if ret = STATUS_SUCCESS then Some ((ret, Some i), s)
       else find_idle_pass is_hot is ret s }
     else find_idle_pass is_hot is ret s }"

partial_function (option) find_idle :: "bool \<Rightarrow> STATUS \<Rightarrow> ftl \<Rightarrow> ((STATUS \<times> nat option) \<times> ftl) option" where
  "find_idle is_hot ret s = do {
     ((ret, found), s) \<leftarrow> find_idle_pass is_hot [0..<JOURNAL_BLOCK_COUNT] ret s;
     if ret = STATUS_DIE_BUSY then find_idle is_hot ret s else Some ((ret, found), s) }"

text \<open>
  When every journal block is full the C code goes on with the first one, as its pointers have not
  moved.
\<close>

definition DATA_Write :: "u32 \<Rightarrow> buffer \<Rightarrow> bool \<Rightarrow> ftl \<Rightarrow> (STATUS \<times> ftl) option" where
  "DATA_Write addr p is_hot s = do {
     ((ret, found), s) \<leftarrow> find_idle is_hot STATUS_SUCCESS s;
     ASSERT (ret = STATUS_SUCCESS);
     let j = (case found of Some i \<Rightarrow> i | None \<Rightarrow> 0);
     if p \<noteq> BufNull then do {
       node \<leftarrow> rd (data_journal is_hot s) j;
       let block = PM_NODE_BLOCK node;
       let page = PM_NODE_PAGE node;
       let sp = (addr, edition is_hot s);
       s \<leftarrow> set_meta is_hot (j * PAGE_PER_PHY_BLOCK + unat page) sp s;
       let s = set_edition is_hot (edition is_hot s + 1) s;
       (ret, s) \<leftarrow> on_ubi (UBI_Write block page p (Some sp) True) s;
       (ret, s) \<leftarrow> (if ret = STATUS_SUCCESS then PMT_Update addr block page s else Some (ret, s));
       s \<leftarrow> (if ret = STATUS_SUCCESS
             then set_journal is_hot j (PM_NODE_SET_BLOCKPAGE block (page + 1)) s else Some s);
       node \<leftarrow> rd (data_journal is_hot s) j;
       if PM_NODE_PAGE node = PAGE_PER_PHY_BLOCK - 1
       then write_meta_page is_hot j block s
       else Some (ret, s) }
     else PMT_Update addr INVALID_BLOCK INVALID_PAGE s }"

fun journals_full :: "u32 list \<Rightarrow> nat list \<Rightarrow> bool option" where
  "journals_full js [] = Some True"
| "journals_full js (i # is) = do {
     p \<leftarrow> rd js i;
     if PM_NODE_PAGE p < PAGE_PER_PHY_BLOCK - 1 then Some False else journals_full js is }"

definition DATA_IsFull :: "bool \<Rightarrow> ftl \<Rightarrow> bool option" where
  "DATA_IsFull hot s = journals_full (data_journal hot s) [0..<JOURNAL_BLOCK_COUNT]"

section \<open>Reclaim\<close>

text \<open>
  One pass of the search for dirty blocks over \<open>DATA_START_BLOCK .. DATA_LAST_BLOCK\<close>.  The state is
  the number of blocks found, the valid pages in them, the next target and the array.
\<close>

fun exclude_scan :: "nat list \<Rightarrow> u32 list \<Rightarrow> u32 \<Rightarrow> bool option" where
  "exclude_scan [] js b = Some False"
| "exclude_scan (j # is) js b = do {
     p \<leftarrow> rd js j;
     if b = PM_NODE_BLOCK p then Some True else exclude_scan is js b }"

fun dirty_pass :: "nat list \<Rightarrow> u32 list \<Rightarrow> nat \<Rightarrow> nat \<times> nat \<times> nat \<Rightarrow> ftl \<Rightarrow>
    ((nat \<times> nat \<times> nat) \<times> ftl) option" where
  "dirty_pass [] excl target acc s = Some (acc, s)"
| "dirty_pass (i # is) excl target acc s = do {
     let (found, valid, next_count) = acc;
     skip \<leftarrow> exclude_scan [0..<JOURNAL_BLOCK_COUNT] excl (of_nat i);
     if skip then dirty_pass is excl target acc s
     else do {
       n \<leftarrow> rd (block_dirty_table s) i;
       (acc, s) \<leftarrow>
         (if unat n = target then do {
            ds \<leftarrow> wr (dirty_blocks s) found (of_nat i);
            Some ((found + 1, valid + (MAX_DIRTY_PAGES - unat n), next_count), s\<lparr>dirty_blocks := ds\<rparr>) }
          else Some ((found, valid,
            if unat n < target \<and> unat n > next_count then unat n else next_count), s));
       if fst acc = JOURNAL_BLOCK_COUNT then Some (acc, s) else dirty_pass is excl target acc s } }"

partial_function (option) find_dirty_blocks ::
  "u32 list \<Rightarrow> nat \<Rightarrow> nat \<times> nat \<times> nat \<Rightarrow> ftl \<Rightarrow> (nat \<times> ftl) option" where
  "find_dirty_blocks excl target acc s =
     (if fst acc \<noteq> JOURNAL_BLOCK_COUNT then do {
        ((found, valid, next_count), s) \<leftarrow>
          dirty_pass [DATA_START_BLOCK..<unat (UBI_Capacity s - 1) + 1] excl target acc s;
        find_dirty_blocks excl next_count (found, valid, 0) s }
      else Some (fst (snd acc), s))"

text \<open>One page of a dirty block; \<open>tot\<close> counts the pages reclaimed from all blocks.\<close>

definition reclaim_page_step :: "bool \<Rightarrow> nat \<Rightarrow> u32 \<Rightarrow> u32 \<Rightarrow> nat \<Rightarrow>
    (STATUS \<times> u32 \<times> u32 \<times> (u32 \<times> u32) \<times> SPARE option) \<times> ftl \<Rightarrow>
    ((STATUS \<times> u32 \<times> u32 \<times> (u32 \<times> u32) \<times> SPARE option) \<times> ftl) option" where
  "reclaim_page_step is_hot j dirty_block reclaim_block page st = do {
     let ((ret, reclaim_page, tot, true_place, spare), s) = st;
     (ret, true_place, s) \<leftarrow>
       (if ret = STATUS_SUCCESS then do {
          entry \<leftarrow> rd (pages_buffer s) page;
          ((ret, place), s) \<leftarrow> PMT_Search (fst entry) true_place s;
          Some (ret, place, s) }
        else Some (ret, true_place, s));
     if ret = STATUS_SUCCESS \<and> true_place = (dirty_block, of_nat page) then do {
       ((ret, buffer, spare), s) \<leftarrow>
         on_ubi (UBI_Read dirty_block (of_nat page) (Some (data_buffer s)) spare) s;
       bytes \<leftarrow> buffer;
       let s = s\<lparr>data_buffer := bytes\<rparr>;
       (ret, spare, s) \<leftarrow>
         (if ret = STATUS_SUCCESS then do {
            sp \<leftarrow> spare;
            let sp = (fst sp, tot);
            (ret, s) \<leftarrow> on_ubi (UBI_Write reclaim_block reclaim_page (BufMem bytes) (Some sp) False) s;
            Some (ret, Some sp, s) }
          else Some (ret, spare, s));
       (ret, s) \<leftarrow>
         (if ret = STATUS_SUCCESS then do {
            entry \<leftarrow> rd (pages_buffer s) page;
            (ret, s) \<leftarrow> PMT_Update (fst entry) reclaim_block reclaim_page s;
            sp \<leftarrow> spare;
            ASSERT (fst sp = fst entry);
            ASSERT (snd sp = tot);
            s \<leftarrow> set_meta is_hot (j * PAGE_PER_PHY_BLOCK + unat reclaim_page) sp s;
            Some (ret, s) }
          else Some (ret, s));
       if ret = STATUS_SUCCESS then do {
         s \<leftarrow> set_reclaim_journal j (PM_NODE_SET_BLOCKPAGE reclaim_block (reclaim_page + 1)) s;
         Some ((ret, reclaim_page + 1, tot + 1, true_place, spare), s) }
       else Some ((ret, reclaim_page, tot, true_place, spare), s) }
     else Some ((ret, reclaim_page, tot, true_place, spare), s) }"

definition reclaim_block_step :: "bool \<Rightarrow> nat \<Rightarrow>
    (STATUS \<times> u32 \<times> (u32 \<times> u32) \<times> SPARE option) \<times> ftl \<Rightarrow>
    ((STATUS \<times> u32 \<times> (u32 \<times> u32) \<times> SPARE option) \<times> ftl) option" where
  "reclaim_block_step is_hot j st = do {
     let ((_, tot, true_place, spare), s) = st;
     node \<leftarrow> rd (reclaim_journal (root_table s)) j;
     let reclaim_block = PM_NODE_BLOCK node;
     dirty_block \<leftarrow> rd (dirty_blocks s) j;
     ((ret, buffer, _), s) \<leftarrow> on_ubi (UBI_Read dirty_block (PAGE_PER_PHY_BLOCK - 1)
       (Some (bytes_of_u32s (spare_words (pages_buffer s)))) None) s;
     bytes \<leftarrow> buffer;
     let s = s\<lparr>pages_buffer := spares_of_words (u32s_of_bytes bytes)\<rparr>;
     if ret = STATUS_SUCCESS then do {
       ((ret, _, tot, true_place, spare), s) \<leftarrow>
         foldM (reclaim_page_step is_hot j dirty_block reclaim_block) [0..<PAGE_PER_PHY_BLOCK - 1]
           ((ret, 0, tot, true_place, spare), s);
       Some ((ret, tot, true_place, spare), s) }
     else Some ((ret, tot, true_place, spare), s) }"

text \<open>The journal entry of a reclaimed (\<open>True\<close>) or of an entirely dirty block.\<close>

definition swap_journal_step :: "bool \<Rightarrow> bool \<Rightarrow> nat \<Rightarrow> STATUS \<times> ftl \<Rightarrow> (STATUS \<times> ftl) option" where
  "swap_journal_step is_hot reclaimed j st = do {
     let (ret, s) = st;
     dirty \<leftarrow> rd (dirty_blocks s) j;
     (ret, s) \<leftarrow> (if ret = STATUS_SUCCESS then on_ubi (UBI_Erase dirty (of_nat j)) s
                 else Some (ret, s));
     if ret = STATUS_SUCCESS then
       if reclaimed then do {
         r \<leftarrow> rd (reclaim_journal (root_table s)) j;
         s \<leftarrow> set_journal is_hot j r s;
         s \<leftarrow> set_reclaim_journal j (PM_NODE_SET_BLOCKPAGE dirty 0) s;
         s \<leftarrow> set_dirty_count (unat dirty) 0 s;
         s \<leftarrow> set_dirty_count (unat (PM_NODE_BLOCK r)) 0 s;
         Some (ret, s) }
       else do {
         s \<leftarrow> set_journal is_hot j (PM_NODE_SET_BLOCKPAGE dirty 0) s;
         s \<leftarrow> set_dirty_count (unat dirty) 0 s;
         Some (ret, s) }
     else Some (ret, s) }"

definition DATA_Reclaim :: "bool \<Rightarrow> ftl \<Rightarrow> (STATUS \<times> ftl) option" where
  "DATA_Reclaim is_hot s = do {
     let junk = junk_word s;
     (ret, s) \<leftarrow> on_ubi UBI_Flush s;
     (total_valid_page, s) \<leftarrow>
       (if ret = STATUS_SUCCESS
        then find_dirty_blocks (data_journal (\<not> is_hot) s) MAX_DIRTY_PAGES (0, 0, 0) s
        else Some (0, s));
     (ret, s) \<leftarrow>
       (if ret = STATUS_SUCCESS then
          if total_valid_page \<noteq> 0 then do {
            ((ret, tot, _, _), s) \<leftarrow> foldM (reclaim_block_step is_hot) [0..<JOURNAL_BLOCK_COUNT]
              ((ret, 0, (INVALID_BLOCK, INVALID_PAGE), Some (junk, junk)), s);
            ASSERT (total_valid_page = unat tot);
            foldM (swap_journal_step is_hot True) [0..<JOURNAL_BLOCK_COUNT] (ret, s) }
          else foldM (swap_journal_step is_hot False) [0..<JOURNAL_BLOCK_COUNT] (ret, s)
        else Some (ret, s));
     Some (ret, if ret = STATUS_SUCCESS
       then set_edition is_hot (of_nat total_valid_page) s else s) }"

section \<open>Replay\<close>

text \<open>
  The inner loop of \<open>DATA_Replay\<close>: the journal blocks are looked at in turn for the page of the
  current edition.  A page that does not read ends the replay (\<open>MAX_UINT32\<close>), although the loop
  goes on over the remaining blocks.
\<close>

fun replay_pass :: "bool \<Rightarrow> nat list \<Rightarrow> STATUS \<times> u32 \<times> SPARE option \<Rightarrow> ftl \<Rightarrow>
    ((STATUS \<times> u32 \<times> SPARE option) \<times> ftl) option" where
  "replay_pass is_hot [] acc s = Some (acc, s)"
| "replay_pass is_hot (j # js) acc s = do {
     let (ret, journal_edition, spare) = acc;
     node \<leftarrow> rd (data_journal is_hot s) j;
     let block = PM_NODE_BLOCK node;
     let page = PM_NODE_PAGE node;
     ((ret, spare), s) \<leftarrow>
       (if ret = STATUS_SUCCESS then do {
          ((ret, _, spare), s) \<leftarrow> on_ubi (UBI_Read block page None spare) s;
          Some ((ret, spare), s) }
        else Some ((ret, spare), s));
     sp \<leftarrow> spare;
     if ret = STATUS_SUCCESS \<and> snd sp \<noteq> journal_edition
     then replay_pass is_hot js (ret, journal_edition, spare) s
     else do {
       (ret, s) \<leftarrow> (if ret = STATUS_SUCCESS then PMT_Update (fst sp) block page s
                   else Some (ret, s));
       if ret = STATUS_SUCCESS then do {
         s \<leftarrow> set_journal is_hot j (PM_NODE_SET_BLOCKPAGE block (page + 1)) s;
         Some ((ret, journal_edition + 1, spare), s) }
       else replay_pass is_hot js (STATUS_SUCCESS, MAX_UINT32, spare)
              (set_edition is_hot journal_edition s) } }"

partial_function (option) replay_loop ::
  "bool \<Rightarrow> STATUS \<times> u32 \<times> SPARE option \<Rightarrow> ftl \<Rightarrow> ((STATUS \<times> SPARE option) \<times> ftl) option" where
  "replay_loop is_hot acc s =
     (if fst (snd acc) \<noteq> MAX_UINT32 then do {
        (acc, s) \<leftarrow> replay_pass is_hot [0..<JOURNAL_BLOCK_COUNT] acc s;
        replay_loop is_hot acc s }
      else Some ((fst acc, snd (snd acc)), s))"

text \<open>The rebuilding of the meta data of one journal block.\<close>

fun rebuild_pages :: "bool \<Rightarrow> nat \<Rightarrow> u32 \<Rightarrow> nat list \<Rightarrow> STATUS \<times> SPARE option \<Rightarrow> ftl \<Rightarrow>
    ((STATUS \<times> SPARE option) \<times> ftl) option" where
  "rebuild_pages is_hot j block [] acc s = Some (acc, s)"
| "rebuild_pages is_hot j block (page # pages) acc s = do {
     let (ret, spare) = acc;
     ((ret, spare), s) \<leftarrow>
       (if ret = STATUS_SUCCESS then do {
          ((ret, _, spare), s) \<leftarrow> on_ubi (UBI_Read block (of_nat page) None spare) s;
          Some ((ret, spare), s) }
        else Some ((ret, spare), s));
     if ret = STATUS_SUCCESS then do {
       sp \<leftarrow> spare;
       s \<leftarrow> set_meta is_hot (j * PAGE_PER_PHY_BLOCK + page) sp s;
       rebuild_pages is_hot j block pages (ret, spare) s }
     else if page = PAGE_PER_PHY_BLOCK - 1 then do {
       (ret, s) \<leftarrow> write_meta_page is_hot j block s;
       rebuild_pages is_hot j block pages (ret, spare) s }
     else Some ((STATUS_SUCCESS, spare), s) }"

definition rebuild_step :: "bool \<Rightarrow> nat \<Rightarrow> (STATUS \<times> SPARE option) \<times> ftl \<Rightarrow>
    ((STATUS \<times> SPARE option) \<times> ftl) option" where
  "rebuild_step is_hot j st = do {
     let (acc, s) = st;
     node \<leftarrow> rd (data_journal is_hot s) j;
     rebuild_pages is_hot j (PM_NODE_BLOCK node) [0..<PAGE_PER_PHY_BLOCK] acc s }"

definition DATA_Replay :: "bool \<Rightarrow> ftl \<Rightarrow> (STATUS \<times> ftl) option" where
  "DATA_Replay is_hot s = do {
     ((ret, spare), s) \<leftarrow>
       replay_loop is_hot (STATUS_SUCCESS, 0, Some (junk_word s, junk_word s)) s;
     ((ret, _), s) \<leftarrow> foldM (rebuild_step is_hot) [0..<JOURNAL_BLOCK_COUNT] ((ret, spare), s);
     Some (ret, s) }"

end
