(* ===== verification/Ftl_Api.thy ===== *)
theory Ftl_Api
  imports Ftl_Data
begin

text \<open>
  The interface of the translation layer (core/ftl/ftl_api.c) and the operation of the page buffer
  that reads through it (\<open>BUF_GetPage\<close> of core/buf/buf_api.c).
\<close>

section \<open>Format, start-up and flush\<close>

definition FTL_Format :: "ftl \<Rightarrow> (STATUS \<times> ftl) option" where
  "FTL_Format s = do {
     (ret, s) \<leftarrow> on_ubi UBI_Format s;
     (ret, s) \<leftarrow> (if ret = STATUS_SUCCESS then on_ubi UBI_Init s else Some (ret, s));
     (ret, s) \<leftarrow> (if ret = STATUS_SUCCESS then DATA_Format s else Some (ret, s));
     (ret, s) \<leftarrow> (if ret = STATUS_SUCCESS then HDI_Format s else Some (ret, s));
     (ret, s) \<leftarrow> (if ret = STATUS_SUCCESS then PMT_Format s else Some (ret, s));
     (ret, s) \<leftarrow> (if ret = STATUS_SUCCESS then BDT_Format s else Some (ret, s));
     if ret = STATUS_SUCCESS then ROOT_Format s else Some (ret, s) }"

text \<open>The recovery of an interrupted reclaim: a full journal is reclaimed again.\<close>

definition reclaim_if_full :: "bool \<Rightarrow> STATUS \<Rightarrow> ftl \<Rightarrow> (STATUS \<times> ftl) option" where
  "reclaim_if_full is_hot ret s = do {
     full \<leftarrow> DATA_IsFull is_hot s;
     if full then do {
       (ret, s) \<leftarrow> DATA_Reclaim is_hot s;
       if ret = STATUS_SUCCESS then DATA_Commit s else Some (ret, s) }
     else Some (ret, s) }"

definition FTL_Init :: "ftl \<Rightarrow> (STATUS \<times> ftl) option" where
  "FTL_Init s = do {
     (ret, s) \<leftarrow> on_ubi UBI_Init s;
     (ret, s) \<leftarrow> (if ret = STATUS_SUCCESS then ROOT_Init s else Some (ret, s));
     (ret, s) \<leftarrow> (if ret = STATUS_SUCCESS then BDT_Init s else Some (ret, s));
     (ret, s) \<leftarrow> (if ret = STATUS_SUCCESS then PMT_Init s else Some (ret, s));
     (ret, s) \<leftarrow> (if ret = STATUS_SUCCESS then HDI_Init s else Some (ret, s));
     (ret, s) \<leftarrow> (if ret = STATUS_SUCCESS then DATA_Replay True s else Some (ret, s));
     (ret, s) \<leftarrow> (if ret = STATUS_SUCCESS then DATA_Replay False s else Some (ret, s));
     if ret = STATUS_SUCCESS then do {
       (ret, s) \<leftarrow> reclaim_if_full True ret s;
       reclaim_if_full False ret s }
     else Some (ret, s) }"

definition FTL_Flush :: "ftl \<Rightarrow> (STATUS \<times> ftl) option" where
  "FTL_Flush s = do {
     (ret, s) \<leftarrow> DATA_Commit s;
     (ret, s) \<leftarrow> (if ret = STATUS_SUCCESS then on_ubi UBI_Flush s else Some (ret, s));
     if ret = STATUS_SUCCESS then on_ubi UBI_SWL s else Some (ret, s) }"

section \<open>Reading and writing pages\<close>

definition FTL_Write :: "u32 \<Rightarrow> buffer \<Rightarrow> ftl \<Rightarrow> (STATUS \<times> ftl) option" where
  "FTL_Write addr p s = do {
     (is_hot, s) \<leftarrow> HDI_IsHotPage addr s;
     (ret, s) \<leftarrow> DATA_Write addr p is_hot s;
     if ret = STATUS_SUCCESS then do {
       full \<leftarrow> DATA_IsFull is_hot s;
       if full then do {
         (ret, s) \<leftarrow> DATA_Reclaim is_hot s;
         if ret = STATUS_SUCCESS then DATA_Commit s else Some (ret, s) }
       else Some (ret, s) }
     else Some (ret, s) }"

text \<open>The buffer is passed and returned by its contents; \<open>None\<close> is the null pointer.\<close>

definition FTL_Read :: "u32 \<Rightarrow> u8 list option \<Rightarrow> ftl \<Rightarrow> ((STATUS \<times> u8 list option) \<times> ftl) option" where
  "FTL_Read addr buffer s = do {
     ((ret, block, page), s) \<leftarrow> PMT_Search addr (junk_word s, junk_word s) s;
     if ret = STATUS_SUCCESS then do {
       ((ret, buffer, _), s) \<leftarrow> on_ubi (UBI_Read block page buffer None) s;
       Some ((ret, buffer), s) }
     else Some ((ret, buffer), s) }"

partial_function (option) trim_loop :: "u32 \<Rightarrow> u32 \<Rightarrow> STATUS \<Rightarrow> ftl \<Rightarrow> (STATUS \<times> ftl) option" where
  "trim_loop addr stop ret s =
     (if addr \<le> stop then do {
        (ret, s) \<leftarrow> FTL_Write addr BufNull s;
        if ret \<noteq> STATUS_SUCCESS then Some (ret, s) else trim_loop (addr + 1) stop ret s }
      else Some (ret, s))"

definition FTL_Trim :: "u32 \<Rightarrow> u32 \<Rightarrow> ftl \<Rightarrow> (STATUS \<times> ftl) option" where
  "FTL_Trim start stop s = trim_loop start stop STATUS_SUCCESS s"

definition FTL_SetWP :: "u32 \<Rightarrow> bool \<Rightarrow> ftl \<Rightarrow> STATUS \<times> ftl" where
  "FTL_SetWP laddr enabled s = (STATUS_FAILURE, s)"

definition FTL_CheckWP :: "u32 \<Rightarrow> ftl \<Rightarrow> bool \<times> ftl" where
  "FTL_CheckWP laddr s = (False, s)"

definition FTL_BgTasks :: "ftl \<Rightarrow> STATUS \<times> ftl" where
  "FTL_BgTasks s = (STATUS_SUCCESS, s)"

section \<open>The page buffer\<close>

definition pool :: "ftl \<Rightarrow> buf" where
  "pool s = buf_of (ubi_of s)"

definition on_pool :: "(buf \<Rightarrow> buf option) \<Rightarrow> ftl \<Rightarrow> ftl option" where
  "on_pool f s = do { b \<leftarrow> f (pool s); Some (s\<lparr>ubi_of := (ubi_of s)\<lparr>buf_of := b\<rparr>\<rparr>) }"

definition allocate :: "ftl \<Rightarrow> (buffer \<times> ftl) option" where
  "allocate s = do {
     (p, b) \<leftarrow> BUF_Allocate (pool s);
     Some (p, s\<lparr>ubi_of := (ubi_of s)\<lparr>buf_of := b\<rparr>\<rparr>) }"

text \<open>The unwritten sectors: the scan stops at the first one.\<close>

fun need_merge_scan :: "nat list \<Rightarrow> bool list \<Rightarrow> bool option" where
  "need_merge_scan [] ws = Some False"
| "need_merge_scan (i # is) ws = do {
     w \<leftarrow> rd ws i;
     if \<not> w then Some True else need_merge_scan is ws }"

text \<open>A read through the FTL into a buffer pointer.\<close>

definition ftl_read_into :: "u32 \<Rightarrow> buffer \<Rightarrow> ftl \<Rightarrow> (STATUS \<times> ftl) option" where
  "ftl_read_into addr p s = do {
     ((ret, buffer), s) \<leftarrow> FTL_Read addr (buf_contents (pool s) p) s;
     case (p, buffer) of
       (BufPool i, Some bytes) \<Rightarrow> do {
         s \<leftarrow> on_pool (buf_memcpy p 0 bytes) s;
         Some (ret, s) }
     | _ \<Rightarrow> Some (ret, s) }"

definition merge_sector :: "nat \<Rightarrow> buf \<Rightarrow> buf option" where
  "merge_sector i b = do {
     w \<leftarrow> rd (sector_written b) i;
     if w then do {
       src \<leftarrow> buf_contents b (write_buffer b);
       bytes \<leftarrow> memget src (i * SECTOR_SIZE) SECTOR_SIZE;
       buf_memcpy (merge_buffer b) (i * SECTOR_SIZE) bytes b }
     else Some b }"

definition buf_merge :: "u32 \<Rightarrow> ftl \<Rightarrow> (buffer \<times> ftl) option" where
  "buf_merge page_addr s = do {
     ASSERT (merge_buffer (pool s) = BufNull);
     (p, s) \<leftarrow> allocate s;
     s \<leftarrow> on_pool (\<lambda>b. Some (b\<lparr>merge_buffer := p\<rparr>)) s;
     (ret, s) \<leftarrow> ftl_read_into page_addr p s;
     s \<leftarrow> (if ret = STATUS_SUCCESS then on_pool (foldM merge_sector [0..<SECTOR_PER_MPP]) s else Some s);
     s \<leftarrow> on_pool (\<lambda>b. BUF_Free (write_buffer b) b) s;
     let out = merge_buffer (pool s);
     s \<leftarrow> on_pool (\<lambda>b. Some (b\<lparr>write_buffer := BufNull, merge_buffer := BufNull\<rparr>)) s;
     Some (out, s) }"

definition BUF_GetPage :: "ftl \<Rightarrow> ((u32 \<times> buffer) \<times> ftl) option" where
  "BUF_GetPage s = do {
     let page_addr = drop_bit SECTOR_PER_MPP_SHIFT (buf_start_addr (pool s));
     ASSERT (buf_start_addr (pool s) \<noteq> INVALID_LSADDR);
     need_merge \<leftarrow> need_merge_scan [0..<SECTOR_PER_MPP] (sector_written (pool s));
     (out, s) \<leftarrow>
       (if need_merge then buf_merge page_addr s
        else do {
          let out = write_buffer (pool s);
          s \<leftarrow> on_pool (\<lambda>b. Some (b\<lparr>write_buffer := BufNull\<rparr>)) s;
          Some (out, s) });
     s \<leftarrow> on_pool (\<lambda>b. do {
       written \<leftarrow> foldM (\<lambda>i w. wr w i False) [0..<SECTOR_PER_MPP] (sector_written b);
       Some (b\<lparr>buf_start_addr := INVALID_LSADDR, buf_end_addr := INVALID_LSADDR,
         sector_written := written\<rparr>) }) s;
     s \<leftarrow> (if write_buffer (pool s) = BufNull then do {
            (p, s) \<leftarrow> allocate s;
            on_pool (\<lambda>b. Some (b\<lparr>write_buffer := p\<rparr>)) s }
          else Some s);
     Some ((page_addr, out), s) }"

end
