(* ===== verification/Onfm.thy ===== *)
theory Onfm
  imports Ftl_Api
begin

text \<open>
  The block device (core/onfm.c): mount, format, and sector reads and writes through the read
  buffer and the gathering of sectors.
\<close>

record onfm =
  ftl_of :: ftl
  onfm_read_buffer :: "u8 list"
  read_buffer_start_sector :: u32
  starting_sector :: u32

definition on_ftl :: "(ftl \<Rightarrow> ('a \<times> ftl) option) \<Rightarrow> onfm \<Rightarrow> ('a \<times> onfm) option" where
  "on_ftl f d = do { (r, s) \<leftarrow> f (ftl_of d); Some (r, d\<lparr>ftl_of := s\<rparr>) }"

definition mtd_init :: "ftl \<Rightarrow> ftl" where
  "mtd_init s = s\<lparr>ubi_of := (ubi_of s)\<lparr>mtd_of := MTD_Init (mtd_of (ubi_of s))\<rparr>\<rparr>"

section \<open>Mounting\<close>

definition int_of_status :: "STATUS \<Rightarrow> int" where
  "int_of_status ret = (if ret = STATUS_SUCCESS then 0 else -1)"

definition ONFM_Format :: "onfm \<Rightarrow> (int \<times> onfm) option" where
  "ONFM_Format d = do {
     let d = d\<lparr>ftl_of := mtd_init (ftl_of d)\<rparr>;
     (ret, d) \<leftarrow> on_ftl FTL_Format d;
     Some (int_of_status ret, d) }"

definition ONFM_Capacity :: "onfm \<Rightarrow> int" where
  "ONFM_Capacity d = sint (push_bit SECTOR_PER_MPP_SHIFT (FTL_Capacity (ftl_of d) - 1))"

definition ONFM_Mount :: "onfm \<Rightarrow> (int \<times> onfm) option" where
  "ONFM_Mount d = do {
     let d = d\<lparr>read_buffer_start_sector := INVALID_LSADDR\<rparr>;
     s \<leftarrow> on_pool BUF_Init (ftl_of d);
     (ret, d) \<leftarrow> on_ftl FTL_Init (d\<lparr>ftl_of := mtd_init s\<rparr>);
     Some (int_of_status ret, d) }"

definition ONFM_Unmount :: "onfm \<Rightarrow> (int \<times> onfm) option" where
  "ONFM_Unmount d = do {
     (ret, d) \<leftarrow> on_ftl FTL_Flush d;
     Some (int_of_status ret, d) }"

section \<open>Reading\<close>

text \<open>
  The caller's pointer is the memory that begins there, \<open>None\<close> for the null pointer: with it the page
  is read, but the call fails.
\<close>

definition onfm_read_sector :: "u32 \<Rightarrow> u8 list option \<Rightarrow> onfm \<Rightarrow> ((int \<times> u8 list option) \<times> onfm) option" where
  "onfm_read_sector sector_addr sector_data d = do {
     (ret, d) \<leftarrow>
       (if sector_addr \<ge> read_buffer_start_sector d \<and>
           sector_addr < read_buffer_start_sector d + SECTOR_PER_MPP
        then Some (STATUS_SUCCESS, d)
        else do {
          let page_addr = drop_bit SECTOR_PER_MPP_SHIFT sector_addr;
          ((ret, buffer), d) \<leftarrow> on_ftl (FTL_Read page_addr (Some (onfm_read_buffer d))) d;
          bytes \<leftarrow> buffer;
          let d = d\<lparr>onfm_read_buffer := bytes\<rparr>;
          Some (ret, if ret = STATUS_SUCCESS
            then d\<lparr>read_buffer_start_sector := push_bit SECTOR_PER_MPP_SHIFT page_addr\<rparr> else d) });
     if ret = STATUS_SUCCESS \<and> sector_data \<noteq> None then do {
       mem \<leftarrow> sector_data;
       bytes \<leftarrow> memget (onfm_read_buffer d)
         (unat ((sector_addr - read_buffer_start_sector d) * of_nat SECTOR_SIZE)) SECTOR_SIZE;
       mem \<leftarrow> memcpy_at mem 0 bytes;
       Some ((0, Some mem), d) }
     else Some ((-1, sector_data), d\<lparr>read_buffer_start_sector := INVALID_LSADDR\<rparr>) }"

text \<open>Sector \<open>i\<close> goes to the memory at \<open>sector_data + SECTOR_SIZE * i\<close>.\<close>

definition read_step :: "u32 \<Rightarrow> nat \<Rightarrow> (int \<times> u8 list option) \<times> onfm \<Rightarrow> ((int \<times> u8 list option) \<times> onfm) option" where
  "read_step sector_addr i st = do {
     let ((ret, sector_data), d) = st;
     if ret = 0 then do {
       ((ret, sector), d) \<leftarrow> onfm_read_sector (sector_addr + of_nat i) (map_option (drop (SECTOR_SIZE * i)) sector_data) d;
       let sector_data = do { mem \<leftarrow> sector_data; bytes \<leftarrow> sector; Some (take (SECTOR_SIZE * i) mem @ bytes) };
       Some ((ret, sector_data), d) }
     else Some ((ret, sector_data), d) }"

definition ONFM_Read :: "u32 \<Rightarrow> u32 \<Rightarrow> u8 list option \<Rightarrow> onfm \<Rightarrow> ((int \<times> u8 list option) \<times> onfm) option" where
  "ONFM_Read sector_addr sector_count sector_data d = do {
     ((ret, sector_data), d) \<leftarrow>
       (if sector_addr mod SECTOR_PER_MPP = 0 \<and> sector_count = SECTOR_PER_MPP then do {
          ((status, buffer), d) \<leftarrow> on_ftl (FTL_Read (drop_bit SECTOR_PER_MPP_SHIFT sector_addr) sector_data) d;
          Some ((int_of_status status, buffer), d) }
        else foldM (read_step sector_addr) [0..<unat sector_count] ((0, sector_data), d));
     ASSERT (ret = 0);
     Some ((ret, sector_data), d) }"

section \<open>Writing\<close>

definition put_sector :: "u32 \<Rightarrow> u8 list \<Rightarrow> onfm \<Rightarrow> onfm option" where
  "put_sector sector_addr sector d = do {
     s \<leftarrow> on_pool (BUF_PutSector sector_addr sector) (ftl_of d);
     Some (d\<lparr>ftl_of := s\<rparr>) }"

text \<open>\<open>None\<close> for the sector data is the null pointer, with which a write is flushed.\<close>

definition onfm_write_sector :: "u32 \<Rightarrow> u8 list option \<Rightarrow> onfm \<Rightarrow> (int \<times> onfm) option" where
  "onfm_write_sector sector_addr sector_data d = do {
     let page_addr = drop_bit SECTOR_PER_MPP_SHIFT sector_addr;
     (ret, d) \<leftarrow>
       (if starting_sector d = INVALID_LSADDR then
          case sector_data of
            Some sector \<Rightarrow> do {
              d \<leftarrow> put_sector sector_addr sector
                (d\<lparr>starting_sector := push_bit SECTOR_PER_MPP_SHIFT page_addr\<rparr>);
              Some (STATUS_SUCCESS, d) }
          | None \<Rightarrow> Some (STATUS_SUCCESS, d)
        else if sector_addr \<ge> starting_sector d \<and>
            sector_addr < starting_sector d + SECTOR_PER_MPP \<and> sector_data \<noteq> None then do {
          sector \<leftarrow> sector_data;
          d \<leftarrow> put_sector sector_addr sector d;
          Some (STATUS_SUCCESS, d) }
        else do {
          ASSERT (sector_data = None \<or> sector_addr = starting_sector d + SECTOR_PER_MPP);
          ((page_addr, p), d) \<leftarrow> on_ftl BUF_GetPage d;
          (ret, d) \<leftarrow> on_ftl (FTL_Write page_addr p) d;
          if ret = STATUS_SUCCESS then
            case sector_data of
              Some sector \<Rightarrow> do {
                let page_addr = drop_bit SECTOR_PER_MPP_SHIFT sector_addr;
                d \<leftarrow> put_sector sector_addr sector
                  (d\<lparr>starting_sector := push_bit SECTOR_PER_MPP_SHIFT page_addr\<rparr>);
                Some (ret, d) }
            | None \<Rightarrow> do {
                ASSERT (sector_addr = -1);
                Some (ret, d\<lparr>starting_sector := INVALID_LSADDR\<rparr>) }
          else Some (ret, d) });
     Some (int_of_status ret, d) }"

definition write_step :: "u32 \<Rightarrow> u8 list \<Rightarrow> nat \<Rightarrow> int \<times> onfm \<Rightarrow> (int \<times> onfm) option" where
  "write_step sector_addr bytes i st = do {
     let (ret, d) = st;
     if ret = 0 then do {
       sector \<leftarrow> memget bytes (SECTOR_SIZE * i) SECTOR_SIZE;
       onfm_write_sector (sector_addr + of_nat i) (Some sector) d }
     else Some (ret, d) }"

text \<open>The caller's data is a pool buffer or other memory; an aligned page is written directly.\<close>

definition ONFM_Write :: "u32 \<Rightarrow> u32 \<Rightarrow> buffer \<Rightarrow> onfm \<Rightarrow> (int \<times> onfm) option" where
  "ONFM_Write sector_addr sector_count p d = do {
     let d = d\<lparr>read_buffer_start_sector := INVALID_LSADDR\<rparr>;
     if sector_addr mod SECTOR_PER_MPP = 0 \<and> sector_count = SECTOR_PER_MPP then do {
       (status, d) \<leftarrow> on_ftl (FTL_Write (drop_bit SECTOR_PER_MPP_SHIFT sector_addr) p) d;
       Some (int_of_status status, d) }
     else do {
       bytes \<leftarrow> buf_contents (pool (ftl_of d)) p;
       (ret, d) \<leftarrow> foldM (write_step sector_addr bytes) [0..<unat sector_count] (0, d);
       if ret = 0 then onfm_write_sector (-1) None d else Some (ret, d) } }"

end
