(* ===== verification/Crc32.thy ===== *)
theory Crc32
  imports Prelude
begin

text \<open>
  The checksum of the boot image (mpt/dfu/crc32.c): the table-driven CRC-32, and the proof that it
  is the bitwise CRC with the reflected polynomial \<open>0xEDB88320\<close>.
\<close>

section \<open>The program\<close>

definition crc32table :: "u32 list" where
  "crc32table =
    [0x00000000, 0x77073096, 0xEE0E612C, 0x990951BA, 0x076DC419, 0x706AF48F, 0xE963A535,
     0x9E6495A3, 0x0EDB8832, 0x79DCB8A4, 0xE0D5E91E, 0x97D2D988, 0x09B64C2B, 0x7EB17CBD,
     0xE7B82D07, 0x90BF1D91, 0x1DB71064, 0x6AB020F2, 0xF3B97148, 0x84BE41DE, 0x1ADAD47D,
     0x6DDDE4EB, 0xF4D4B551, 0x83D385C7, 0x136C9856, 0x646BA8C0, 0xFD62F97A, 0x8A65C9EC,
     0x14015C4F, 0x63066CD9, 0xFA0F3D63, 0x8D080DF5, 0x3B6E20C8, 0x4C69105E, 0xD56041E4,
     0xA2677172, 0x3C03E4D1, 0x4B04D447, 0xD20D85FD, 0xA50AB56B, 0x35B5A8FA, 0x42B2986C,
     0xDBBBC9D6, 0xACBCF940, 0x32D86CE3, 0x45DF5C75, 0xDCD60DCF, 0xABD13D59, 0x26D930AC,
     0x51DE003A, 0xC8D75180, 0xBFD06116, 0x21B4F4B5, 0x56B3C423, 0xCFBA9599, 0xB8BDA50F,
     0x2802B89E, 0x5F058808, 0xC60CD9B2, 0xB10BE924, 0x2F6F7C87, 0x58684C11, 0xC1611DAB,
     0xB6662D3D, 0x76DC4190, 0x01DB7106, 0x98D220BC, 0xEFD5102A, 0x71B18589, 0x06B6B51F,
     0x9FBFE4A5, 0xE8B8D433, 0x7807C9A2, 0x0F00F934, 0x9609A88E, 0xE10E9818, 0x7F6A0DBB,
     0x086D3D2D, 0x91646C97, 0xE6635C01, 0x6B6B51F4, 0x1C6C6162, 0x856530D8, 0xF262004E,
     0x6C0695ED, 0x1B01A57B, 0x8208F4C1, 0xF50FC457, 0x65B0D9C6, 0x12B7E950, 0x8BBEB8EA,
     0xFCB9887C, 0x62DD1DDF, 0x15DA2D49, 0x8CD37CF3, 0xFBD44C65, 0x4DB26158, 0x3AB551CE,
     0xA3BC0074, 0xD4BB30E2, 0x4ADFA541, 0x3DD895D7, 0xA4D1C46D, 0xD3D6F4FB, 0x4369E96A,
     0x346ED9FC, 0xAD678846, 0xDA60B8D0, 0x44042D73, 0x33031DE5, 0xAA0A4C5F, 0xDD0D7CC9,
     0x5005713C, 0x270241AA, 0xBE0B1010, 0xC90C2086, 0x5768B525, 0x206F85B3, 0xB966D409,
     0xCE61E49F, 0x5EDEF90E, 0x29D9C998, 0xB0D09822, 0xC7D7A8B4, 0x59B33D17, 0x2EB40D81,
     0xB7BD5C3B, 0xC0BA6CAD, 0xEDB88320, 0x9ABFB3B6, 0x03B6E20C, 0x74B1D29A, 0xEAD54739,
     0x9DD277AF, 0x04DB2615, 0x73DC1683, 0xE3630B12, 0x94643B84, 0x0D6D6A3E, 0x7A6A5AA8,
     0xE40ECF0B, 0x9309FF9D, 0x0A00AE27, 0x7D079EB1, 0xF00F9344, 0x8708A3D2, 0x1E01F268,
     0x6906C2FE, 0xF762575D, 0x806567CB, 0x196C3671, 0x6E6B06E7, 0xFED41B76, 0x89D32BE0,
     0x10DA7A5A, 0x67DD4ACC, 0xF9B9DF6F, 0x8EBEEFF9, 0x17B7BE43, 0x60B08ED5, 0xD6D6A3E8,
     0xA1D1937E, 0x38D8C2C4, 0x4FDFF252, 0xD1BB67F1, 0xA6BC5767, 0x3FB506DD, 0x48B2364B,
     0xD80D2BDA, 0xAF0A1B4C, 0x36034AF6, 0x41047A60, 0xDF60EFC3, 0xA867DF55, 0x316E8EEF,
     0x4669BE79, 0xCB61B38C, 0xBC66831A, 0x256FD2A0, 0x5268E236, 0xCC0C7795, 0xBB0B4703,
     0x220216B9, 0x5505262F, 0xC5BA3BBE, 0xB2BD0B28, 0x2BB45A92, 0x5CB36A04, 0xC2D7FFA7,
     0xB5D0CF31, 0x2CD99E8B, 0x5BDEAE1D, 0x9B64C2B0, 0xEC63F226, 0x756AA39C, 0x026D930A,
     0x9C0906A9, 0xEB0E363F, 0x72076785, 0x05005713, 0x95BF4A82, 0xE2B87A14, 0x7BB12BAE,
     0x0CB61B38, 0x92D28E9B, 0xE5D5BE0D, 0x7CDCEFB7, 0x0BDBDF21, 0x86D3D2D4, 0xF1D4E242,
     0x68DDB3F8, 0x1FDA836E, 0x81BE16CD, 0xF6B9265B, 0x6FB077E1, 0x18B74777, 0x88085AE6,
     0xFF0F6A70, 0x66063BCA, 0x11010B5C, 0x8F659EFF, 0xF862AE69, 0x616BFFD3, 0x166CCF45,
     0xA00AE278, 0xD70DD2EE, 0x4E048354, 0x3903B3C2, 0xA7672661, 0xD06016F7, 0x4969474D,
     0x3E6E77DB, 0xAED16A4A, 0xD9D65ADC, 0x40DF0B66, 0x37D83BF0, 0xA9BCAE53, 0xDEBB9EC5,
     0x47B2CF7F, 0x30B5FFE9, 0xBDBDF21C, 0xCABAC28A, 0x53B39330, 0x24B4A3A6, 0xBAD03605,
     0xCDD70693, 0x54DE5729, 0x23D967BF, 0xB3667A2E, 0xC4614AB8, 0x5D681B02, 0x2A6F2B94,
     0xB40BBE37, 0xC30C8EA1, 0x5A05DF1B, 0x2D02EF8D]"

definition crc32_step :: "u32 \<Rightarrow> u8 \<Rightarrow> u32 option" where
  "crc32_step crc b = do {
     t \<leftarrow> rd crc32table (unat ((crc XOR ucast b) AND 0xFF));
     Some (t XOR drop_bit 8 crc) }"

text \<open>
  The while loop runs \<open>len\<close> times; a negative length never reaches 0 and runs off the data.
\<close>

fun crc32_loop :: "nat \<Rightarrow> u8 list \<Rightarrow> nat \<Rightarrow> u32 \<Rightarrow> u32 option" where
  "crc32_loop 0 data k crc = Some crc"
| "crc32_loop (Suc n) data k crc = do {
     b \<leftarrow> rd data k;
     crc \<leftarrow> crc32_step crc b;
     crc32_loop n data (Suc k) crc }"

definition crc32_compute :: "u8 list \<Rightarrow> int \<Rightarrow> u32 option" where
  "crc32_compute data len =
     (if len < 0 then None
      else do {
        crc \<leftarrow> crc32_loop (nat len) data 0 0xFFFFFFFF;
        Some (crc XOR 0xFFFFFFFF) })"

section \<open>The bitwise reference\<close>

definition crc_bit :: "u32 \<Rightarrow> u32" where
  "crc_bit c = (if bit c 0 then drop_bit 1 c XOR 0xEDB88320 else drop_bit 1 c)"

definition crc_byte :: "u32 \<Rightarrow> u8 \<Rightarrow> u32" where
  "crc_byte c b = (crc_bit ^^ 8) (c XOR ucast b)"

definition crc32_ref :: "u8 list \<Rightarrow> u32" where
  "crc32_ref bs = foldl crc_byte 0xFFFFFFFF bs XOR 0xFFFFFFFF"

text \<open>The bitwise step is linear over exclusive or, which gives the table by doubling.\<close>

lemma crc_bit_xor: "crc_bit (a XOR b) = crc_bit a XOR crc_bit b"
  by (auto simp: crc_bit_def bit_xor_iff drop_bit_xor ac_simps)

lemma crc_bits_xor: "(crc_bit ^^ n) (a XOR b) = (crc_bit ^^ n) a XOR (crc_bit ^^ n) b"
  by (induction n arbitrary: a b) (simp_all add: crc_bit_xor)

lemma crc_bits_zero: "(crc_bit ^^ n) 0 = 0"
  by (induction n) (simp_all add: crc_bit_def)

lemma pow_plus_xor: "j < 2 ^ n \<Longrightarrow> n < 32 \<Longrightarrow> (of_nat (2 ^ n + j) :: u32) = 2 ^ n XOR of_nat j"
proof -
  assume j: "j < 2 ^ n" and n: "n < 32"
  have "\<not> bit (of_nat j :: u32) n"
    using j by (simp add: bit_of_nat_iff bit_iff_odd [of j])
  then have "(2 ^ n :: u32) AND of_nat j = 0"
    by (auto intro!: bit_word_eqI simp: bit_simps)
  then show ?thesis by (simp add: disjunctive_add_eq_xor)
qed

definition crc_tab :: "nat \<Rightarrow> u32 list" where
  "crc_tab n = map (\<lambda>k. (crc_bit ^^ 8) (of_nat k)) [0..<2 ^ n]"

lemma crc_tab_Suc:
  assumes "n < 32"
  shows "crc_tab (Suc n) = crc_tab n @ map (\<lambda>x. (crc_bit ^^ 8) (2 ^ n) XOR x) (crc_tab n)"
proof -
  have "[0..<2 ^ Suc n] = [0..<2 ^ n] @ map (\<lambda>j. j + 2 ^ n) [0..<2 ^ n]"
    using upt_add_eq_append [of 0 "2 ^ n" "2 ^ n"] by (simp add: map_add_upt mult_2)
  then show ?thesis
    using assms by (simp add: crc_tab_def pow_plus_xor add.commute [of _ "2 ^ n"] crc_bits_xor del: of_nat_add)
qed

lemma crc8_unfold: "(crc_bit ^^ 8) c =
    crc_bit (crc_bit (crc_bit (crc_bit (crc_bit (crc_bit (crc_bit (crc_bit c)))))))"
  by (simp add: numeral_eq_Suc)

lemma crc8_powers:
  "(crc_bit ^^ 8) 1 = 0x77073096" "(crc_bit ^^ 8) 2 = 0xEE0E612C"
  "(crc_bit ^^ 8) 4 = 0x076DC419" "(crc_bit ^^ 8) 8 = 0x0EDB8832"
  "(crc_bit ^^ 8) 16 = 0x1DB71064" "(crc_bit ^^ 8) 32 = 0x3B6E20C8"
  "(crc_bit ^^ 8) 64 = 0x76DC4190" "(crc_bit ^^ 8) 128 = 0xEDB88320"
  unfolding crc8_unfold by (simp_all add: crc_bit_def)

lemma crc32table_entries: "crc32table = crc_tab 8"
proof -
  have "crc_tab 0 = [0]" by (simp add: crc_tab_def crc_bits_zero)
  moreover note crc_tab_Suc [of 0, simplified crc8_powers power_0] crc_tab_Suc [of 1] crc_tab_Suc [of 2] crc_tab_Suc [of 3]
    crc_tab_Suc [of 4] crc_tab_Suc [of 5] crc_tab_Suc [of 6] crc_tab_Suc [of 7]
  ultimately show ?thesis
    by (simp add: crc8_powers crc32table_def flip: One_nat_def del: funpow.simps)
qed

section \<open>The program computes the bitwise CRC\<close>

lemma crc_bits_low_zero: "(\<And>i. i < n \<Longrightarrow> \<not> bit x i) \<Longrightarrow> (crc_bit ^^ n) x = drop_bit n x"
proof (induction n arbitrary: x)
  case 0
  then show ?case by simp
next
  case (Suc n)
  have "crc_bit x = drop_bit 1 x" using Suc.prems [of 0] by (simp add: crc_bit_def)
  moreover have "(crc_bit ^^ n) (drop_bit 1 x) = drop_bit n (drop_bit 1 x)"
    by (rule Suc.IH) (use Suc.prems in \<open>simp add: bit_drop_bit_eq\<close>)
  ultimately show ?case by (simp add: funpow_swap1)
qed

lemma crc32_step_byte: "crc32_step crc b = Some (crc_byte crc b)"
proof -
  let ?x = "crc XOR ucast b :: u32"
  let ?hi = "push_bit 8 (drop_bit 8 crc) :: u32"
  have split: "?x = (?x AND 0xFF) XOR ?hi"
  proof (rule bit_word_eqI)
    fix n assume "n < LENGTH(32)"
    have "bit (0xFF :: u32) n \<longleftrightarrow> n < 8"
      using bit_mask_iff [of 8 n, where 'a = u32] \<open>n < LENGTH(32)\<close>
      by (simp add: mask_eq_exp_minus_1)
    then show "bit ?x n = bit ((?x AND 0xFF) XOR ?hi) n"
      using bit_u8_beyond [of n b] \<open>n < LENGTH(32)\<close>
      by (cases "n < 8") (auto simp: bit_simps)
  qed
  have k: "unat (?x AND 0xFF) < 256"
    using and_mask_less' [of 8 ?x] by (simp add: mask_eq_exp_minus_1 word_less_nat_alt)
  have t: "crc32table ! unat (?x AND 0xFF) = (crc_bit ^^ 8) (?x AND 0xFF)"
    using k by (simp add: crc32table_entries crc_tab_def del: funpow.simps)
  have h: "(crc_bit ^^ 8) ?hi = drop_bit 8 crc"
  proof -
    have "drop_bit 8 ?hi = drop_bit 8 crc"
      by (rule bit_word_eqI) (auto simp: bit_simps dest: bit_imp_le_length)
    then show ?thesis using crc_bits_low_zero [of 8 ?hi] by (simp add: bit_simps)
  qed
  have "crc_byte crc b = (crc_bit ^^ 8) (?x AND 0xFF) XOR drop_bit 8 crc"
    unfolding crc_byte_def by (subst split) (simp only: crc_bits_xor h)
  moreover have "length crc32table = 256" by (simp add: crc32table_def)
  ultimately show ?thesis
    using k t by (simp add: crc32_step_def rd_in)
qed

lemma crc32_loop_ref:
  "k + n \<le> length data \<Longrightarrow>
    crc32_loop n data k crc = Some (foldl crc_byte crc (take n (drop k data)))"
proof (induction n arbitrary: k crc)
  case 0
  then show ?case by simp
next
  case (Suc n)
  then have "take (Suc n) (drop k data) = data ! k # take n (drop (Suc k) data)"
    by (simp add: Cons_nth_drop_Suc [symmetric])
  with Suc show ?case by (simp add: rd_in crc32_step_byte)
qed

lemma crc32_loop_short: "k \<le> length data \<Longrightarrow> length data < k + n \<Longrightarrow> crc32_loop n data k crc = None"
  by (induction n arbitrary: k crc) (auto simp: rd_def crc32_step_byte)

section \<open>The property\<close>

text \<open>
  C19: The checksum is the CRC-32 with the reflected polynomial \<open>0xEDB88320\<close>: with a length that lies
  in the data it is the bitwise CRC of that many leading bytes; a negative length or one beyond the
  end of the data reads outside it.
\<close>

theorem crc32_reference:
  "crc32_compute data len = (if 0 \<le> len \<and> len \<le> int (length data)
     then Some (crc32_ref (take (nat len) data)) else None)"
proof (cases "0 \<le> len \<and> len \<le> int (length data)")
  case True
  then show ?thesis
    using crc32_loop_ref [of 0 "nat len" data] by (simp add: crc32_compute_def crc32_ref_def nat_le_iff)
next
  case False
  then show ?thesis
    using crc32_loop_short [of 0 data "nat len"] by (auto simp: crc32_compute_def)
qed

end
