(* ===== verification/Spec2Isabelle.thy ===== *)
theory Spec2Isabelle
  imports Free_Block_Properties Onfm Crc32
begin

text \<open>
  OpenNFM, a flash manager that makes a block device out of raw NAND.

  \<^bold>\<open>The program.\<close>  The core (src/core) is a stack of layers, and the development has one group of
  theories for each.

  \<^item> \<open>mtd\<close> drives the chips: it translates block and page numbers to row addresses and programs the
    planes of a die together (\<open>Nand_Sim\<close>: mtd_nand_sim.c, the simulated chips; \<open>Mtd\<close>: mtd_api.c and
    its engine that injects power losses and bad blocks).
  \<^item> \<open>buf\<close> is the pool of page buffers with the write window in which sectors are gathered
    (\<open>Buf\<close>: buf_api.c).
  \<^item> \<open>ubi\<close> gives logical blocks: \<open>Ubi_Types\<close> (ubi_inc.h, the tables and their layout in a page),
    \<open>Ubi_Table\<close> (ubi_table.c, a block as a log of tables), \<open>Ubi_Anchor\<close> (ubi_anchor.c, where the
    index is and which blocks are bad), \<open>Ubi_Index\<close> (ubi_index.c, the free blocks by erase count),
    \<open>Ubi_Area\<close> (ubi_area.c and the parts of ubi_index.c that write the index, the map from logical
    to physical blocks) and \<open>Ubi_Api\<close> (ubi_api.c: reads, pipelined writes, erase, static wear
    levelling, the replacement of bad blocks).
  \<^item> \<open>ftl\<close> gives logical pages: \<open>Ftl_Types\<close> (ftl_inc.h), \<open>Ftl_Tables\<close> (ftl_root.c, ftl_bdt.c,
    ftl_hdi.c), \<open>Ftl_Pmt\<close> (ftl_pmt.c, the two-level map of pages with its caches), \<open>Ftl_Data\<close>
    (ftl_data.c, the hot, cold and reclaim journals) and \<open>Ftl_Api\<close> (ftl_api.c, and \<open>BUF_GetPage\<close>,
    which reads through the translation layer).
  \<^item> \<open>Onfm\<close> is the sector interface (onfm.c), and \<open>Crc32\<close> the checksum of the boot image
    (mpt/dfu/crc32.c).

  \<open>Config\<close> holds the configuration that the headers compute for the simulator, and \<open>Prelude\<close> the access
  to C arrays and memory, the little-endian words and the generic lemmas.

  \<^bold>\<open>How the code is represented.\<close>  A C function becomes a function from its arguments and the state to
  an option: \<open>None\<close> is a call that does not return, because an assertion fails, because it reads or
  writes outside an array, or because its loop does not end (\<open>partial_function\<close>).  The static
  variables of a layer are a record that contains the state of the layer below; output parameters are
  results.  Machine integers are 32-bit words and wrap around.  A status is a value of \<open>STATUS\<close>, and
  every early return on a status is a branch.  Bounded loops are folds over their index range, the
  bounded retries recurse on the number of attempts left, so that no fuel is needed.  A variable that is
  read before it is assigned has an arbitrary value (\<open>stack_word\<close>, \<open>junk_word\<close>).

  \<^bold>\<open>Pointers.\<close>  A buffer is null, an entry of the pool, or other memory.  The last is represented by its
  bytes at the time of the call (\<open>BufMem\<close>); a page that \<open>ubi\<close> holds back until the status of its die
  is known (\<open>DIE_HOLD_PAGE\<close>) keeps these bytes, where the code keeps the pointer: the model covers
  callers that leave such memory unchanged until the page is settled.  Entries of the pool are held by
  number, so that later changes of them are seen.  A sector read takes the memory at the pointer or the
  null pointer, with which it fails.

  \<^bold>\<open>Tables in flash.\<close>  The code writes and reads the C structures themselves.  In the model a table has
  its layout as bytes, and reading a page into the structure is the inverse of that layout.  Both are
  tied to the declarations by the byte address of every member (\<open>table_layouts\<close>).

  \<^bold>\<open>What the lemmas show.\<close>

  \<^item> \<open>Mtd_Flash\<close>: the device is a map from blocks and pages to data and spare areas, together with one
    armed failure; the locale \<open>flash\<close> is its contract and is interpreted on the driver.
    \<open>Device_Properties\<close> has its properties (program and read, erase and retry, no overwriting,
    addresses, the test engine) and those of the page buffers, whose contract is the locale \<open>page_pool\<close>
    of \<open>Buf\<close>: allocation, release, and the exact state after a sector is stored in the window.
  \<^item> \<open>Ubi_Table\<close>: a block is a log of tables and the binary search finds the last one.
    \<open>Anchor_Safety\<close> follows the anchor through updates, reclaims and starts, also with two anchor
    blocks in flash; \<open>Anchor_Properties\<close> has the properties, with the layout of the four tables.
  \<^item> \<open>Free_Blocks\<close>: the free-block table is a list of blocks sorted by erase count, on which taking,
    putting back and the exchange of static wear levelling act as list operations;
    \<open>Free_Block_Properties\<close> has the properties.
  \<^item> \<open>Crc32\<close>: the table-driven checksum is the bitwise one.

  Each property stands after a text block with its number and has a witness at a concrete state: an
  erased device, a pool of 18 pages, and tables built for it.

  \<^bold>\<open>Bounds.\<close>  The configuration is that of the simulator: 1024 blocks of 32 pages of 8192 bytes (two
  planes of eight sectors of 512 bytes), 8 dies, 18 page buffers, 6 anchor blocks, 509 entries in the
  free-block table, 996 data blocks.  Properties that depend on it say so by the constants.

  \<^bold>\<open>What is not modelled, and what is not proved.\<close>  The board support, boot loader and USB code of
  sys/lpc313x (registers and interrupts of one board), the file handling of the image builder and the
  tests.  Output to the console and the statistics of the test mode are left out.  The area tables, the
  block interface, the translation layer and the sector interface are modelled in full but have no
  properties yet.
\<close>

end
